theory Spec2Isabelle
  imports Complex_Main "HOL-Library.Sublist"
begin

section \<open>JavaScript numbers\<close>

text \<open>
  The export code of \<^verbatim>\<open>src/App.tsx\<close> computes with JavaScript numbers, the double
  precision numbers of IEEE 754. A finite number is modelled as the rational it denotes, and
  each arithmetic operation returns the exact result rounded to the nearest double, a tie
  going to the even significand, as the language prescribes. The three non-finite values
  behave as in JavaScript, so that a division by zero is \<open>Infinity\<close> or \<open>NaN\<close> as in the program
  and not HOL's \<open>x / 0 = 0\<close>. The two zeros are identified and read as \<open>+0\<close>: every divisor
  of the code is a maximum of non-zero values or a canvas dimension, which is unsigned.
\<close>

datatype jsnum = Fin rat | PosInf | NegInf | NaN

text \<open>The binary exponent of a rational \<open>x \<noteq> 0\<close>: the \<open>e\<close> with \<open>2 ^ e \<le> \<bar>x\<bar> < 2 ^ (e + 1)\<close>.\<close>

function expo :: "rat \<Rightarrow> int" where
  "expo x =
     (if x = 0 then 0
      else if 2 \<le> \<bar>x\<bar> then expo (x / 2) + 1
      else if \<bar>x\<bar> < 1 then expo (x * 2) - 1
      else 0)"
  by pat_completeness auto
termination
proof (relation "measure (\<lambda>x. nat \<lceil>\<bar>x\<bar>\<rceil> + 3 * nat \<lceil>1 / \<bar>x\<bar>\<rceil>)")
  show "wf (measure (\<lambda>x. nat \<lceil>\<bar>x\<bar>\<rceil> + 3 * nat \<lceil>1 / \<bar>x\<bar>\<rceil>))" by simp
next
  fix x :: rat
  assume x: "x \<noteq> 0" "2 \<le> \<bar>x\<bar>"
  have a: "\<lceil>\<bar>x\<bar> / 2\<rceil> < \<lceil>\<bar>x\<bar>\<rceil>"
  proof -
    have "\<bar>x\<bar> / 2 \<le> \<bar>x\<bar> - 1" using x by simp
    then have "\<lceil>\<bar>x\<bar> / 2\<rceil> \<le> \<lceil>\<bar>x\<bar> - 1\<rceil>" by (rule ceiling_mono)
    then show ?thesis by simp
  qed
  have b: "\<lceil>2 / \<bar>x\<bar>\<rceil> \<le> 1" using x by (simp add: ceiling_le_iff)
  have c: "1 \<le> \<lceil>1 / \<bar>x\<bar>\<rceil>" using x by (simp add: le_ceiling_iff)
  have d: "0 < \<lceil>\<bar>x\<bar>\<rceil>" using x by (simp add: less_ceiling_iff)
  have g: "1 / (\<bar>x\<bar> / 2) = 2 / \<bar>x\<bar>" by simp
  have "nat \<lceil>\<bar>x\<bar> / 2\<rceil> + 3 * nat \<lceil>2 / \<bar>x\<bar>\<rceil> < nat \<lceil>\<bar>x\<bar>\<rceil> + 3 * nat \<lceil>1 / \<bar>x\<bar>\<rceil>"
    using a b c d by linarith
  then show "(x / 2, x) \<in> measure (\<lambda>x. nat \<lceil>\<bar>x\<bar>\<rceil> + 3 * nat \<lceil>1 / \<bar>x\<bar>\<rceil>)"
    by (simp add: abs_divide g del: divide_divide_eq_right)
next
  fix x :: rat
  assume x: "x \<noteq> 0" "\<not> 2 \<le> \<bar>x\<bar>" "\<bar>x\<bar> < 1"
  define t where "t = 1 / \<bar>x\<bar>"
  have t: "1 < t" using x by (simp add: t_def)
  have c2: "2 \<le> \<lceil>t\<rceil>" using t by (simp add: le_ceiling_iff)
  have "t / 2 \<le> of_int ((\<lceil>t\<rceil> + 1) div 2)"
  proof -
    have t1: "t \<le> of_int \<lceil>t\<rceil>" by (rule le_of_int_ceiling)
    have "\<lceil>t\<rceil> \<le> 2 * ((\<lceil>t\<rceil> + 1) div 2)" by presburger
    then have "(of_int \<lceil>t\<rceil> :: rat) \<le> of_int (2 * ((\<lceil>t\<rceil> + 1) div 2))"
      by (simp only: of_int_le_iff)
    then have "(of_int \<lceil>t\<rceil> :: rat) \<le> 2 * of_int ((\<lceil>t\<rceil> + 1) div 2)" by simp
    with t1 show ?thesis by linarith
  qed
  then have d: "\<lceil>t / 2\<rceil> \<le> (\<lceil>t\<rceil> + 1) div 2" by (simp only: ceiling_le_iff)
  have e: "\<lceil>\<bar>x\<bar> * 2\<rceil> \<le> 2" using x by (simp add: ceiling_le_iff)
  have f: "1 \<le> \<lceil>\<bar>x\<bar>\<rceil>" using x by (simp add: le_ceiling_iff)
  have g: "1 / \<bar>x * 2\<bar> = t / 2" by (simp add: t_def abs_mult)
  have "nat \<lceil>\<bar>x\<bar> * 2\<rceil> + 3 * nat \<lceil>t / 2\<rceil> < nat \<lceil>\<bar>x\<bar>\<rceil> + 3 * nat \<lceil>t\<rceil>"
    using c2 d e f by linarith
  then show "(x * 2, x) \<in> measure (\<lambda>x. nat \<lceil>\<bar>x\<bar>\<rceil> + 3 * nat \<lceil>1 / \<bar>x\<bar>\<rceil>)"
    unfolding in_measure g by (simp add: abs_mult t_def)
qed

declare expo.simps [simp del]

text \<open>The integer nearest to a rational, a tie going to the even one.\<close>

definition round_even :: "rat \<Rightarrow> int" where
  "round_even q =
     (let f = \<lfloor>q\<rfloor>;
          d = q - of_int f
      in if d < 1 / 2 then f else if 1 / 2 < d then f + 1 else if even f then f else f + 1)"

text \<open>
  The double nearest to a rational. A double has a significand of 53 bits: around \<open>x\<close> the
  doubles are the multiples of \<open>2 ^ (e - 52)\<close>, where \<open>e\<close> is the exponent of \<open>x\<close> and at
  least \<open>-1022\<close>, below which the subnormal numbers keep the spacing \<open>2 ^ - 1074\<close>.
\<close>

definition fl :: "rat \<Rightarrow> rat" where
  "fl x = (let ulp = 2 powi (max (expo x) (- 1022) - 52) in of_int (round_even (x / ulp)) * ulp)"

text \<open>
  The result of an operation whose exact value is \<open>x\<close>: the nearest double, and an infinity
  once that reaches \<open>2 ^ 1024\<close>, above the largest double.
\<close>

definition round64 :: "rat \<Rightarrow> jsnum" where
  "round64 x =
     (let y = fl x
      in if 2 ^ 1024 \<le> y then PosInf else if y \<le> - (2 ^ 1024) then NegInf else Fin y)"

text \<open>\<^verbatim>\<open>a / b\<close>\<close>

fun jdiv :: "jsnum \<Rightarrow> jsnum \<Rightarrow> jsnum" where
  "jdiv NaN _ = NaN"
| "jdiv _ NaN = NaN"
| "jdiv (Fin a) (Fin b) =
     (if b \<noteq> 0 then round64 (a / b)
      else if a = 0 then NaN else if 0 < a then PosInf else NegInf)"
| "jdiv (Fin a) PosInf = Fin 0"
| "jdiv (Fin a) NegInf = Fin 0"
| "jdiv PosInf (Fin b) = (if b < 0 then NegInf else PosInf)"
| "jdiv NegInf (Fin b) = (if b < 0 then PosInf else NegInf)"
| "jdiv _ _ = NaN"

text \<open>\<^verbatim>\<open>a * b\<close>\<close>

fun jmul :: "jsnum \<Rightarrow> jsnum \<Rightarrow> jsnum" where
  "jmul NaN _ = NaN"
| "jmul _ NaN = NaN"
| "jmul (Fin a) (Fin b) = round64 (a * b)"
| "jmul (Fin a) PosInf = (if a = 0 then NaN else if 0 < a then PosInf else NegInf)"
| "jmul (Fin a) NegInf = (if a = 0 then NaN else if 0 < a then NegInf else PosInf)"
| "jmul PosInf (Fin b) = (if b = 0 then NaN else if 0 < b then PosInf else NegInf)"
| "jmul NegInf (Fin b) = (if b = 0 then NaN else if 0 < b then NegInf else PosInf)"
| "jmul PosInf PosInf = PosInf"
| "jmul PosInf NegInf = NegInf"
| "jmul NegInf PosInf = NegInf"
| "jmul NegInf NegInf = PosInf"

text \<open>\<^verbatim>\<open>a - b\<close>\<close>

fun jsub :: "jsnum \<Rightarrow> jsnum \<Rightarrow> jsnum" where
  "jsub NaN _ = NaN"
| "jsub _ NaN = NaN"
| "jsub (Fin a) (Fin b) = round64 (a - b)"
| "jsub (Fin a) PosInf = NegInf"
| "jsub (Fin a) NegInf = PosInf"
| "jsub PosInf (Fin b) = PosInf"
| "jsub NegInf (Fin b) = NegInf"
| "jsub PosInf NegInf = PosInf"
| "jsub NegInf PosInf = NegInf"
| "jsub PosInf PosInf = NaN"
| "jsub NegInf NegInf = NaN"

text \<open>\<^verbatim>\<open>a < b\<close> and \<^verbatim>\<open>a <= b\<close>: false as soon as one side is \<open>NaN\<close>.\<close>

fun jless :: "jsnum \<Rightarrow> jsnum \<Rightarrow> bool" where
  "jless NaN _ = False"
| "jless _ NaN = False"
| "jless (Fin a) (Fin b) = (a < b)"
| "jless (Fin a) PosInf = True"
| "jless NegInf (Fin b) = True"
| "jless NegInf PosInf = True"
| "jless _ _ = False"


text \<open>\<^verbatim>\<open>Math.min(a, b)\<close> and \<^verbatim>\<open>Math.max(a, b)\<close>: \<open>NaN\<close> as soon as one argument is.\<close>

definition jmin :: "jsnum \<Rightarrow> jsnum \<Rightarrow> jsnum" where
  "jmin a b = (if a = NaN \<or> b = NaN then NaN else if jless b a then b else a)"

definition jmax :: "jsnum \<Rightarrow> jsnum \<Rightarrow> jsnum" where
  "jmax a b = (if a = NaN \<or> b = NaN then NaN else if jless a b then b else a)"

text \<open>\<^verbatim>\<open>a || b\<close> on numbers: the falsy numbers are \<open>0\<close> and \<open>NaN\<close>.\<close>

definition falsy :: "jsnum \<Rightarrow> bool" where
  "falsy a = (a = Fin 0 \<or> a = NaN)"

definition js_or :: "jsnum \<Rightarrow> jsnum \<Rightarrow> jsnum" where
  "js_or a b = (if falsy a then b else a)"

text \<open>
  A DOM attribute of WebIDL type \<open>long\<close> or \<open>unsigned long\<close>, read as a number: an integer
  below \<open>2 ^ 32\<close>, which is a double.
\<close>

definition num :: "nat \<Rightarrow> jsnum" where
  "num n = Fin (of_nat n)"

section \<open>Sections and their capture (lines 65-84 and 162-181)\<close>

text \<open>
  A \<^verbatim>\<open>.page section\<close> element. The four measurements are the integer attributes the loop
  reads; \<open>node\<close> is the identity of the element.
\<close>

record page_section =
  node :: nat
  scrollWidth :: nat
  offsetWidth :: nat
  scrollHeight :: nat
  offsetHeight :: nat

text \<open>The options object handed to \<^verbatim>\<open>html2canvas\<close>, field by field.\<close>

record h2c_options =
  h2c_scale :: jsnum
  h2c_useCORS :: bool
  h2c_allowTaint :: bool
  h2c_logging :: bool
  h2c_scrollX :: jsnum
  h2c_scrollY :: jsnum
  h2c_width :: jsnum
  h2c_height :: jsnum
  h2c_windowWidth :: jsnum
  h2c_windowHeight :: jsnum
  h2c_backgroundColor :: string

text \<open>\<^verbatim>\<open>section.scrollWidth || section.offsetWidth || 1600\<close>\<close>

definition sectionWidth :: "page_section \<Rightarrow> jsnum" where
  "sectionWidth s = js_or (js_or (num (scrollWidth s)) (num (offsetWidth s))) (Fin 1600)"

text \<open>\<^verbatim>\<open>section.scrollHeight || section.offsetHeight || 900\<close>\<close>

definition sectionHeight :: "page_section \<Rightarrow> jsnum" where
  "sectionHeight s = js_or (js_or (num (scrollHeight s)) (num (offsetHeight s))) (Fin 900)"

text \<open>\<^verbatim>\<open>Math.max(sectionWidth, sectionHeight)\<close>\<close>

definition maxDim :: "page_section \<Rightarrow> jsnum" where
  "maxDim s = jmax (sectionWidth s) (sectionHeight s)"

text \<open>\<^verbatim>\<open>Math.min(2, 1600 / maxDim)\<close>\<close>

definition scale :: "page_section \<Rightarrow> jsnum" where
  "scale s = jmin (Fin 2) (jdiv (Fin 1600) (maxDim s))"

text \<open>The second argument of the \<^verbatim>\<open>html2canvas\<close> call; both export functions build the same.\<close>

definition capture_options :: "page_section \<Rightarrow> h2c_options" where
  "capture_options s =
     \<lparr> h2c_scale = scale s,
       h2c_useCORS = True,
       h2c_allowTaint = False,
       h2c_logging = False,
       h2c_scrollX = Fin 0,
       h2c_scrollY = Fin 0,
       h2c_width = sectionWidth s,
       h2c_height = sectionHeight s,
       h2c_windowWidth = sectionWidth s,
       h2c_windowHeight = sectionHeight s,
       h2c_backgroundColor = ''#ffffff'' \<rparr>"

text \<open>
  The canvas \<^verbatim>\<open>html2canvas\<close> resolves to: its two dimensions, and the element whose
  rendering its pixel buffer holds (the export code never inspects the pixels).
\<close>

record canvas =
  canvas_width :: jsnum
  canvas_height :: jsnum
  source :: nat

section \<open>Placement geometry\<close>

record geometry =
  geo_x :: jsnum
  geo_y :: jsnum
  geo_w :: jsnum
  geo_h :: jsnum

text \<open>Lines 87-92: the uniform ratio of the paginated path.\<close>

definition pdf_ratio :: "jsnum \<Rightarrow> jsnum \<Rightarrow> jsnum \<Rightarrow> canvas \<Rightarrow> jsnum" where
  "pdf_ratio pageWidth pageHeight margin c =
     (let imgWidth = canvas_width c;
          imgHeight = canvas_height c
      in jmin (jdiv (jsub pageWidth (jmul margin (Fin 2))) imgWidth)
              (jdiv (jsub pageHeight (jmul margin (Fin 2))) imgHeight))"

text \<open>Lines 87-97: the arguments \<open>x, y, pdfWidth, pdfHeight\<close> of \<^verbatim>\<open>pdf.addImage\<close>.\<close>

definition pdf_fit :: "jsnum \<Rightarrow> jsnum \<Rightarrow> jsnum \<Rightarrow> canvas \<Rightarrow> geometry" where
  "pdf_fit pageWidth pageHeight margin c =
     (let imgWidth = canvas_width c;
          imgHeight = canvas_height c;
          ratio = pdf_ratio pageWidth pageHeight margin c;
          pdfWidth = jmul imgWidth ratio;
          pdfHeight = jmul imgHeight ratio;
          x = margin;
          y = margin
      in \<lparr> geo_x = x, geo_y = y, geo_w = pdfWidth, geo_h = pdfHeight \<rparr>)"

text \<open>Lines 157-159.\<close>

definition slideWidth :: jsnum where
  "slideWidth = Fin 10"

definition slideHeight :: jsnum where
  "slideHeight = Fin (45 / 8)"

definition pxToIn :: "jsnum \<Rightarrow> jsnum" where
  "pxToIn px = jdiv px (Fin 96)"

text \<open>Lines 184-189: the uniform ratio of the deck path.\<close>

definition ppt_ratio :: "canvas \<Rightarrow> jsnum" where
  "ppt_ratio c =
     (let imgWidthIn = pxToIn (canvas_width c);
          imgHeightIn = pxToIn (canvas_height c)
      in jmin (jdiv slideWidth imgWidthIn) (jdiv slideHeight imgHeightIn))"

text \<open>Lines 184-193: the fields \<open>x, y, w, h\<close> of the object given to \<^verbatim>\<open>slide.addImage\<close>.\<close>

definition ppt_fit :: "canvas \<Rightarrow> geometry" where
  "ppt_fit c =
     (let imgWidthIn = pxToIn (canvas_width c);
          imgHeightIn = pxToIn (canvas_height c);
          ratio = ppt_ratio c;
          w = jmul imgWidthIn ratio;
          h = jmul imgHeightIn ratio;
          x = jdiv (jsub slideWidth w) (Fin 2);
          y = jdiv (jsub slideHeight h) (Fin 2)
      in \<lparr> geo_x = x, geo_y = y, geo_w = w, geo_h = h \<rparr>)"

section \<open>Promises, errors and the two document libraries\<close>

text \<open>A thrown value.\<close>

datatype js_error = JsError string

text \<open>
  What \<^verbatim>\<open>await p\<close> meets: the promise fulfils with a value, rejects (the \<^verbatim>\<open>await\<close>
  throws), or never settles (the async function stays suspended for ever).
\<close>

datatype 'a awaited = Fulfilled 'a | Rejected js_error | Pending

text \<open>\<^verbatim>\<open>Promise.all\<close>: rejected as soon as one promise is, pending while one is.\<close>

fun promise_all :: "'a awaited list \<Rightarrow> 'a list awaited" where
  "promise_all [] = Fulfilled []"
| "promise_all (p # ps) =
     (case p of
        Rejected e \<Rightarrow> Rejected e
      | Pending \<Rightarrow> (case promise_all ps of Rejected e \<Rightarrow> Rejected e | _ \<Rightarrow> Pending)
      | Fulfilled v \<Rightarrow>
          (case promise_all ps of
             Fulfilled vs \<Rightarrow> Fulfilled (v # vs)
           | Rejected e \<Rightarrow> Rejected e
           | Pending \<Rightarrow> Pending))"

text \<open>An image placed on a page of the paginated document, as \<^verbatim>\<open>pdf.addImage\<close> receives it.\<close>

record pdf_image =
  pdf_data :: string
  pdf_format :: string
  pdf_geo :: geometry

text \<open>
  Modelled from the spec: jsPDF is a library the repository depends on, not code under
  \<^verbatim>\<open>src/\<close>. Following sections 3 and 4.3 to 4.5 of the spec, a document is an append-only
  sequence of pages of one fixed size; a new document has one initial page, \<^verbatim>\<open>addPage\<close>
  appends a page that becomes the current one, \<^verbatim>\<open>addImage\<close> places an image on the current
  page, and \<^verbatim>\<open>save\<close> writes the document to the download target.
\<close>

record pdf_doc =
  pdf_pageWidth :: jsnum
  pdf_pageHeight :: jsnum
  earlier_pages :: "pdf_image list list"
  current_page :: "pdf_image list"

definition pdf_pages :: "pdf_doc \<Rightarrow> pdf_image list list" where
  "pdf_pages pdf = earlier_pages pdf @ [current_page pdf]"

text \<open>An image placed on a slide, as \<^verbatim>\<open>slide.addImage\<close> receives it.\<close>

record slide_image =
  slide_data :: string
  slide_geo :: geometry

text \<open>
  Modelled from the spec: PptxGenJS is a library the repository depends on, not code under
  \<^verbatim>\<open>src/\<close>. Following sections 3, 4.4 and 4.5 of the spec, a deck is an append-only
  sequence of slides; a new deck has none, \<^verbatim>\<open>addSlide\<close> appends an empty slide and returns
  it (here: its position), \<^verbatim>\<open>addImage\<close> places an image on that slide, and \<^verbatim>\<open>writeFile\<close>
  serialises the deck and then writes it to the download target.
\<close>

record pptx_deck =
  pptx_layout :: string
  slides :: "slide_image list list"

text \<open>
  The library calls that may throw. The browser record below says for each call, with its
  arguments, whether it throws and what.
\<close>

datatype lib_call =
    New_jsPDF
  | AddPage pdf_doc
  | AddImage pdf_image pdf_doc
  | Save string pdf_doc
  | New_PptxGenJS
  | AddSlide pptx_deck
  | SlideAddImage nat slide_image pptx_deck

section \<open>The page, the browser and the observable effects\<close>

datatype img_event = LoadEvent | ErrorEvent

text \<open>
  An \<^verbatim>\<open>HTMLImageElement\<close> of \<^verbatim>\<open>document.images\<close>. \<open>complete\<close> and \<open>naturalWidth\<close> are the
  values line 36 reads. \<open>fires\<close> is the first \<^verbatim>\<open>load\<close> or \<^verbatim>\<open>error\<close> event the browser
  dispatches on the element after lines 47-48 have attached the listeners, \<open>None\<close> when
  it never dispatches one.
\<close>

record image =
  src :: string
  crossorigin :: "string option"
  referrerpolicy :: "string option"
  complete :: bool
  naturalWidth :: nat
  fires :: "img_event option"

datatype export_kind = Pdf | Ppt

text \<open>
  What the export can be seen to do, in order: the two notices, the resumption after each
  of the two readiness waits, each call of \<^verbatim>\<open>html2canvas\<close>, and each file written to the
  download target.
\<close>

datatype event =
    Alert string
  | ConsoleError string js_error
  | FontsReady
  | ImagesReady
  | Html2canvas page_section h2c_options
  | PdfSaved string pdf_doc
  | PptxWritten string pptx_deck

text \<open>
  An invocation of an export function whose promise has not settled: suspended at its
  first \<^verbatim>\<open>await\<close> (line 27 or 129) and still to be resumed, or suspended for ever at an
  \<^verbatim>\<open>await\<close> whose promise never settles.
\<close>

datatype job = Awaiting export_kind | Stalled export_kind

text \<open>
  The state the export functions read and write: the React state \<open>exportingType\<close>, the
  images of the document (lines 32-33 set attributes on them), the effects so far, and
  the invocations in flight. \<open>isExporting\<close> is read from the current state: React renders
  again after each state update, before the next handler runs, and \<^verbatim>\<open>useCallback\<close>
  rebuilds both functions whenever \<open>isExporting\<close> changes.
\<close>

record world =
  exportingType :: "export_kind option"
  images :: "image list"
  trace :: "event list"
  in_flight :: "job list"

text \<open>
  What the export functions take from their environment: the elements matching
  \<^verbatim>\<open>.page section\<close>, how the promise \<^verbatim>\<open>document.fonts.ready\<close> settles, what \<^verbatim>\<open>html2canvas\<close>
  resolves to for a section and its options, what \<^verbatim>\<open>canvas.toDataURL("image/png")\<close> returns,
  whether a call into one of the two document libraries throws, and how the promise of
  \<^verbatim>\<open>pptx.writeFile\<close> settles.
\<close>

record browser =
  sections :: "page_section list"
  fonts_ready :: "unit awaited"
  html2canvas :: "page_section \<Rightarrow> h2c_options \<Rightarrow> canvas awaited"
  toDataURL :: "canvas \<Rightarrow> js_error + string"
  throws :: "lib_call \<Rightarrow> js_error option"
  writeFile :: "string \<Rightarrow> pptx_deck \<Rightarrow> unit awaited"

definition isExporting :: "world \<Rightarrow> bool" where
  "isExporting w = (exportingType w \<noteq> None)"

definition setExportingType :: "export_kind option \<Rightarrow> world \<Rightarrow> world" where
  "setExportingType v w = w\<lparr> exportingType := v \<rparr>"

definition emit :: "event \<Rightarrow> world \<Rightarrow> world" where
  "emit ev w = w\<lparr> trace := trace w @ [ev] \<rparr>"

definition alert :: "string \<Rightarrow> world \<Rightarrow> world" where
  "alert msg w = emit (Alert msg) w"

definition console_error :: "string \<Rightarrow> js_error \<Rightarrow> world \<Rightarrow> world" where
  "console_error msg e w = emit (ConsoleError msg e) w"

section \<open>The library operations\<close>

text \<open>
  Each operation first asks the browser record whether this call throws.

  Modelled from the spec: \<^verbatim>\<open>new jsPDF({orientation, unit, format})\<close> of the library jsPDF. The
  document has one page size, that of the format (section 4.3: 20 by 11.25, landscape, which
  the format of line 57 already is), and one initial page, still empty.
\<close>

definition new_jsPDF ::
  "browser \<Rightarrow> string \<Rightarrow> string \<Rightarrow> jsnum \<times> jsnum \<Rightarrow> js_error + pdf_doc" where
  "new_jsPDF env orientation units format =
     (case throws env New_jsPDF of
        Some e \<Rightarrow> Inl e
      | None \<Rightarrow>
          Inr \<lparr> pdf_pageWidth = fst format, pdf_pageHeight = snd format,
                earlier_pages = [], current_page = [] \<rparr>)"

text \<open>
  Modelled from the spec: \<^verbatim>\<open>pdf.internal.pageSize.getWidth()\<close> and \<^verbatim>\<open>getHeight()\<close> of jsPDF,
  the one page size of the document.
\<close>

definition getWidth :: "pdf_doc \<Rightarrow> jsnum" where
  "getWidth pdf = pdf_pageWidth pdf"

definition getHeight :: "pdf_doc \<Rightarrow> jsnum" where
  "getHeight pdf = pdf_pageHeight pdf"

text \<open>
  Modelled from the spec: \<^verbatim>\<open>pdf.addPage()\<close> of jsPDF appends an empty page, which becomes
  the current one (section 4.3).
\<close>

definition jsPDF_addPage :: "browser \<Rightarrow> pdf_doc \<Rightarrow> js_error + pdf_doc" where
  "jsPDF_addPage env pdf =
     (case throws env (AddPage pdf) of
        Some e \<Rightarrow> Inl e
      | None \<Rightarrow>
          Inr (pdf\<lparr> earlier_pages := earlier_pages pdf @ [current_page pdf],
                    current_page := [] \<rparr>))"

text \<open>
  Modelled from the spec: \<^verbatim>\<open>pdf.addImage(imgData, "PNG", x, y, pdfWidth, pdfHeight)\<close> of jsPDF
  places the image on the current page (section 4.5).
\<close>

definition jsPDF_addImage :: "browser \<Rightarrow> pdf_image \<Rightarrow> pdf_doc \<Rightarrow> js_error + pdf_doc" where
  "jsPDF_addImage env img pdf =
     (case throws env (AddImage img pdf) of
        Some e \<Rightarrow> Inl e
      | None \<Rightarrow> Inr (pdf\<lparr> current_page := current_page pdf @ [img] \<rparr>))"

text \<open>
  Modelled from the spec: \<^verbatim>\<open>pdf.save(fileName)\<close> of jsPDF writes the document to the download
  target under the file name (section 4.5). A \<^verbatim>\<open>save\<close> that throws has written nothing.
\<close>

definition jsPDF_save :: "browser \<Rightarrow> string \<Rightarrow> pdf_doc \<Rightarrow> world \<Rightarrow> js_error + world" where
  "jsPDF_save env fileName pdf w =
     (case throws env (Save fileName pdf) of
        Some e \<Rightarrow> Inl e
      | None \<Rightarrow> Inr (emit (PdfSaved fileName pdf) w))"

text \<open>
  Modelled from the spec: \<^verbatim>\<open>new PptxGenJS()\<close> of the library PptxGenJS, a deck with no slide
  yet (sections 3 and 4.4).
\<close>

definition new_PptxGenJS :: "browser \<Rightarrow> js_error + pptx_deck" where
  "new_PptxGenJS env =
     (case throws env New_PptxGenJS of
        Some e \<Rightarrow> Inl e
      | None \<Rightarrow> Inr \<lparr> pptx_layout = ''LAYOUT_16x9'', slides = [] \<rparr>)"

text \<open>
  Modelled from the spec: \<^verbatim>\<open>pptx.addSlide()\<close> of PptxGenJS appends an empty slide and returns
  it, here as its position in the deck (section 4.4).
\<close>

definition pptx_addSlide :: "browser \<Rightarrow> pptx_deck \<Rightarrow> js_error + (nat \<times> pptx_deck)" where
  "pptx_addSlide env pptx =
     (case throws env (AddSlide pptx) of
        Some e \<Rightarrow> Inl e
      | None \<Rightarrow> Inr (length (slides pptx), pptx\<lparr> slides := slides pptx @ [[]] \<rparr>))"

text \<open>
  Modelled from the spec: \<^verbatim>\<open>slide.addImage({data, x, y, w, h})\<close> of PptxGenJS places the image
  on that slide (section 4.5).
\<close>

definition slide_addImage ::
  "browser \<Rightarrow> nat \<Rightarrow> slide_image \<Rightarrow> pptx_deck \<Rightarrow> js_error + pptx_deck" where
  "slide_addImage env slide img pptx =
     (case throws env (SlideAddImage slide img pptx) of
        Some e \<Rightarrow> Inl e
      | None \<Rightarrow>
          Inr (if slide < length (slides pptx)
               then pptx\<lparr> slides := (slides pptx)[slide := slides pptx ! slide @ [img]] \<rparr>
               else pptx))"

text \<open>
  Modelled from the spec: html2canvas is a library the repository depends on, not code
  under \<^verbatim>\<open>src/\<close>. Section 4.2 of the spec: it "produces a bitmap of size
  (width * scale, height * scale)" of the section it is given.
\<close>

definition html2canvas_spec :: "page_section \<Rightarrow> h2c_options \<Rightarrow> canvas awaited" where
  "html2canvas_spec s opts =
     Fulfilled \<lparr> canvas_width = jmul (h2c_width opts) (h2c_scale opts),
                 canvas_height = jmul (h2c_height opts) (h2c_scale opts),
                 source = node s \<rparr>"

section \<open>The readiness gate\<close>

text \<open>
  \<open>prepareImage\<close>: the element after lines 31-34, and how the promise the function
  returns settles. The executor only ever calls \<^verbatim>\<open>resolve\<close>: at once on line 37, or from
  \<^verbatim>\<open>done\<close> when a \<^verbatim>\<open>load\<close> or an \<^verbatim>\<open>error\<close> event reaches one of the two listeners.
\<close>

definition prepareImage :: "image \<Rightarrow> image \<times> unit awaited" where
  "prepareImage img =
     (let img1 =
            (if prefix ''http'' (src img)
             then img\<lparr> crossorigin := Some ''anonymous'', referrerpolicy := Some ''no-referrer'' \<rparr>
             else img)
      in if complete img1 \<and> naturalWidth img1 \<noteq> 0 then (img1, Fulfilled ())
         else (case fires img1 of
                 Some ev \<Rightarrow> (img1, Fulfilled ())
               | None \<Rightarrow> (img1, Pending)))"

text \<open>
  Lines 27-51 (and, with the same text, 129-153): the wait for the fonts, then for the
  promises of all images of the document. Every executor runs, and sets its attributes,
  before the second \<^verbatim>\<open>await\<close>.
\<close>

definition readiness_gate :: "browser \<Rightarrow> world \<Rightarrow> unit awaited \<times> world" where
  "readiness_gate env w =
     (case fonts_ready env of
        Pending \<Rightarrow> (Pending, w)
      | Rejected e \<Rightarrow> (Rejected e, w)
      | Fulfilled u \<Rightarrow>
          (let w1 = emit FontsReady w;
               prepared = map prepareImage (images w1);
               w2 = w1\<lparr> images := map fst prepared \<rparr>
           in case promise_all (map snd prepared) of
                Pending \<Rightarrow> (Pending, w2)
              | Rejected e \<Rightarrow> (Rejected e, w2)
              | Fulfilled us \<Rightarrow> (Fulfilled (), emit ImagesReady w2)))"

section \<open>The two export functions\<close>

text \<open>
  The run of a block of statements is described like a promise: \<open>Fulfilled\<close> when it runs
  to its end, \<open>Rejected\<close> when it throws, \<open>Pending\<close> when it stays suspended for ever at
  an \<^verbatim>\<open>await\<close>.

  Lines 65-97: one section is captured and fitted, up to the arguments of \<^verbatim>\<open>pdf.addImage\<close>.
\<close>

definition pdf_section_image ::
  "browser \<Rightarrow> jsnum \<Rightarrow> jsnum \<Rightarrow> jsnum \<Rightarrow> page_section \<Rightarrow> pdf_image awaited" where
  "pdf_section_image env pageWidth pageHeight margin s =
     (case html2canvas env s (capture_options s) of
        Pending \<Rightarrow> Pending
      | Rejected e \<Rightarrow> Rejected e
      | Fulfilled c \<Rightarrow>
          (case toDataURL env c of
             Inl e \<Rightarrow> Rejected e
           | Inr imgData \<Rightarrow>
               Fulfilled \<lparr> pdf_data = imgData, pdf_format = ''PNG'',
                           pdf_geo = pdf_fit pageWidth pageHeight margin c \<rparr>))"

text \<open>
  Lines 64-104, the loop of \<open>exportToPdf\<close>, from index \<open>i\<close> over the sections still to do.
\<close>

fun pdf_loop ::
  "browser \<Rightarrow> jsnum \<Rightarrow> jsnum \<Rightarrow> jsnum \<Rightarrow> nat \<Rightarrow> page_section list \<Rightarrow> pdf_doc \<Rightarrow> world
     \<Rightarrow> pdf_doc awaited \<times> world" where
  "pdf_loop env pageWidth pageHeight margin i [] pdf w = (Fulfilled pdf, w)"
| "pdf_loop env pageWidth pageHeight margin i (s # rest) pdf w =
     (let w1 = emit (Html2canvas s (capture_options s)) w in
      case pdf_section_image env pageWidth pageHeight margin s of
        Pending \<Rightarrow> (Pending, w1)
      | Rejected e \<Rightarrow> (Rejected e, w1)
      | Fulfilled img \<Rightarrow>
          (case (if i \<noteq> 0 then jsPDF_addPage env pdf else Inr pdf) of
             Inl e \<Rightarrow> (Rejected e, w1)
           | Inr pdf1 \<Rightarrow>
               (case jsPDF_addImage env img pdf1 of
                  Inl e \<Rightarrow> (Rejected e, w1)
                | Inr pdf2 \<Rightarrow>
                    pdf_loop env pageWidth pageHeight margin (i + 1) rest pdf2 w1)))"

text \<open>Lines 53-106: the document is created, filled by the loop and saved.\<close>

definition pdf_assemble :: "browser \<Rightarrow> world \<Rightarrow> unit awaited \<times> world" where
  "pdf_assemble env w =
     (case new_jsPDF env ''landscape'' ''in'' (Fin 20, Fin (45 / 4)) of
        Inl e \<Rightarrow> (Rejected e, w)
      | Inr pdf \<Rightarrow>
          (let pageWidth = getWidth pdf;
               pageHeight = getHeight pdf;
               margin = Fin 0
           in case pdf_loop env pageWidth pageHeight margin 0 (sections env) pdf w of
                (Pending, w1) \<Rightarrow> (Pending, w1)
              | (Rejected e, w1) \<Rightarrow> (Rejected e, w1)
              | (Fulfilled pdf', w1) \<Rightarrow>
                  (case jsPDF_save env ''presentation.pdf'' pdf' w1 of
                     Inl e \<Rightarrow> (Rejected e, w1)
                   | Inr w2 \<Rightarrow> (Fulfilled (), w2))))"

text \<open>
  Lines 27-106: \<open>exportToPdf\<close> from its first \<^verbatim>\<open>await\<close> to the end of the \<^verbatim>\<open>try\<close> block.
\<close>

definition pdf_continue :: "browser \<Rightarrow> world \<Rightarrow> unit awaited \<times> world" where
  "pdf_continue env w =
     (case readiness_gate env w of
        (Pending, w1) \<Rightarrow> (Pending, w1)
      | (Rejected e, w1) \<Rightarrow> (Rejected e, w1)
      | (Fulfilled u, w1) \<Rightarrow> pdf_assemble env w1)"

text \<open>
  Lines 162-193: one section is captured and fitted, up to the argument of
  \<^verbatim>\<open>slide.addImage\<close>.
\<close>

definition ppt_section_image :: "browser \<Rightarrow> page_section \<Rightarrow> slide_image awaited" where
  "ppt_section_image env s =
     (case html2canvas env s (capture_options s) of
        Pending \<Rightarrow> Pending
      | Rejected e \<Rightarrow> Rejected e
      | Fulfilled c \<Rightarrow>
          (case toDataURL env c of
             Inl e \<Rightarrow> Rejected e
           | Inr imgData \<Rightarrow> Fulfilled \<lparr> slide_data = imgData, slide_geo = ppt_fit c \<rparr>))"

text \<open>Lines 161-203, the loop of \<open>exportToPpt\<close>, over the sections still to do.\<close>

fun ppt_loop ::
  "browser \<Rightarrow> page_section list \<Rightarrow> pptx_deck \<Rightarrow> world \<Rightarrow> pptx_deck awaited \<times> world" where
  "ppt_loop env [] pptx w = (Fulfilled pptx, w)"
| "ppt_loop env (s # rest) pptx w =
     (let w1 = emit (Html2canvas s (capture_options s)) w in
      case ppt_section_image env s of
        Pending \<Rightarrow> (Pending, w1)
      | Rejected e \<Rightarrow> (Rejected e, w1)
      | Fulfilled img \<Rightarrow>
          (case pptx_addSlide env pptx of
             Inl e \<Rightarrow> (Rejected e, w1)
           | Inr (slide, pptx1) \<Rightarrow>
               (case slide_addImage env slide img pptx1 of
                  Inl e \<Rightarrow> (Rejected e, w1)
                | Inr pptx2 \<Rightarrow> ppt_loop env rest pptx2 w1)))"

text \<open>
  Lines 155-205: the deck is created, filled by the loop and written. A \<^verbatim>\<open>writeFile\<close>
  that rejects or never settles has written nothing.
\<close>

definition ppt_assemble :: "browser \<Rightarrow> world \<Rightarrow> unit awaited \<times> world" where
  "ppt_assemble env w =
     (case new_PptxGenJS env of
        Inl e \<Rightarrow> (Rejected e, w)
      | Inr pptx0 \<Rightarrow>
          (let pptx = pptx0\<lparr> pptx_layout := ''LAYOUT_16x9'' \<rparr> in
           case ppt_loop env (sections env) pptx w of
             (Pending, w1) \<Rightarrow> (Pending, w1)
           | (Rejected e, w1) \<Rightarrow> (Rejected e, w1)
           | (Fulfilled pptx', w1) \<Rightarrow>
               (case writeFile env ''presentation.pptx'' pptx' of
                  Pending \<Rightarrow> (Pending, w1)
                | Rejected e \<Rightarrow> (Rejected e, w1)
                | Fulfilled u \<Rightarrow>
                    (Fulfilled (), emit (PptxWritten ''presentation.pptx'' pptx') w1))))"

text \<open>
  Lines 129-205: \<open>exportToPpt\<close> from its first \<^verbatim>\<open>await\<close> to the end of the \<^verbatim>\<open>try\<close> block.
\<close>

definition ppt_continue :: "browser \<Rightarrow> world \<Rightarrow> unit awaited \<times> world" where
  "ppt_continue env w =
     (case readiness_gate env w of
        (Pending, w1) \<Rightarrow> (Pending, w1)
      | (Rejected e, w1) \<Rightarrow> (Rejected e, w1)
      | (Fulfilled u, w1) \<Rightarrow> ppt_assemble env w1)"

text \<open>The bookkeeping of the invocations in flight.\<close>

definition suspend :: "export_kind \<Rightarrow> world \<Rightarrow> world" where
  "suspend k w = w\<lparr> in_flight := in_flight w @ [Awaiting k] \<rparr>"

definition settle :: "nat \<Rightarrow> world \<Rightarrow> world" where
  "settle n w = w\<lparr> in_flight := take n (in_flight w) @ drop (Suc n) (in_flight w) \<rparr>"

definition stall :: "nat \<Rightarrow> export_kind \<Rightarrow> world \<Rightarrow> world" where
  "stall n k w = w\<lparr> in_flight := (in_flight w)[n := Stalled k] \<rparr>"

text \<open>
  Lines 13-27: a call of \<open>exportToPdf\<close>, which runs until the function returns or reaches
  its first \<^verbatim>\<open>await\<close>. With no section the \<^verbatim>\<open>try\<close> block returns on line 24 and the
  \<^verbatim>\<open>finally\<close> block runs within the call.
\<close>

definition exportToPdf :: "browser \<Rightarrow> world \<Rightarrow> world" where
  "exportToPdf env w =
     (if isExporting w then w
      else
        (let w1 = setExportingType (Some Pdf) w in
         if length (sections env) = 0
         then setExportingType None (alert ''No content found to export.'' w1)
         else suspend Pdf w1))"

text \<open>
  Lines 27-112: invocation \<open>n\<close>, suspended on line 27, is resumed and runs to the end. The
  \<^verbatim>\<open>catch\<close> and \<^verbatim>\<open>finally\<close> blocks run when the \<^verbatim>\<open>try\<close> block ends, and never when it stays
  suspended.
\<close>

definition exportToPdf_resume :: "browser \<Rightarrow> nat \<Rightarrow> world \<Rightarrow> world" where
  "exportToPdf_resume env n w =
     (case pdf_continue env w of
        (Fulfilled u, w') \<Rightarrow> settle n (setExportingType None w')
      | (Rejected e, w') \<Rightarrow>
          settle n (setExportingType None
            (alert ''Unable to export PDF. Please check console for details.''
              (console_error ''PDF export failed'' e w')))
      | (Pending, w') \<Rightarrow> stall n Pdf w')"

text \<open>Lines 115-129: a call of \<open>exportToPpt\<close>.\<close>

definition exportToPpt :: "browser \<Rightarrow> world \<Rightarrow> world" where
  "exportToPpt env w =
     (if isExporting w then w
      else
        (let w1 = setExportingType (Some Ppt) w in
         if length (sections env) = 0
         then setExportingType None (alert ''No content found to export.'' w1)
         else suspend Ppt w1))"

text \<open>Lines 129-211: invocation \<open>n\<close>, suspended on line 129, is resumed and runs to the end.\<close>

definition exportToPpt_resume :: "browser \<Rightarrow> nat \<Rightarrow> world \<Rightarrow> world" where
  "exportToPpt_resume env n w =
     (case ppt_continue env w of
        (Fulfilled u, w') \<Rightarrow> settle n (setExportingType None w')
      | (Rejected e, w') \<Rightarrow>
          settle n (setExportingType None
            (alert ''Unable to export PPT. Please check console for details.''
              (console_error ''PPT export failed'' e w')))
      | (Pending, w') \<Rightarrow> stall n Ppt w')"

section \<open>The controller: starting and resuming invocations\<close>

text \<open>The two triggers (lines 229, 237 and 259).\<close>

definition start :: "export_kind \<Rightarrow> browser \<Rightarrow> world \<Rightarrow> world" where
  "start k env w = (case k of Pdf \<Rightarrow> exportToPdf env w | Ppt \<Rightarrow> exportToPpt env w)"

text \<open>
  The event loop resumes invocation \<open>n\<close>, if it is there and waits to be resumed. The
  resumed invocation is followed to its end in one step. A trigger that arrives in between
  reads \<open>exportingType\<close> only, which the rest of the \<^verbatim>\<open>try\<close> block never writes, so it meets
  the same guard as one that arrives before the resumption.
\<close>

definition resume :: "browser \<Rightarrow> nat \<Rightarrow> world \<Rightarrow> world" where
  "resume env n w =
     (if n < length (in_flight w)
      then (case in_flight w ! n of
              Awaiting Pdf \<Rightarrow> exportToPdf_resume env n w
            | Awaiting Ppt \<Rightarrow> exportToPpt_resume env n w
            | Stalled k \<Rightarrow> w)
      else w)"

text \<open>One export from the trigger to the end: the call, then the invocation it suspended.\<close>

definition run_export :: "export_kind \<Rightarrow> browser \<Rightarrow> world \<Rightarrow> world" where
  "run_export k env w = resume env (length (in_flight w)) (start k env w)"

text \<open>The page as loaded: nothing exported yet.\<close>

definition page_loaded :: "image list \<Rightarrow> world" where
  "page_loaded imgs = \<lparr> exportingType = None, images = imgs, trace = [], in_flight = [] \<rparr>"

text \<open>
  The states the page can be in: triggers and resumptions in any order and number.
\<close>

inductive reachable :: "browser \<Rightarrow> world \<Rightarrow> bool" for env :: browser where
  loaded: "reachable env (page_loaded imgs)"
| started: "reachable env w \<Longrightarrow> reachable env (start k env w)"
| resumed: "reachable env w \<Longrightarrow> reachable env (resume env n w)"

text \<open>The files written to the download target, in order.\<close>

fun is_file :: "event \<Rightarrow> bool" where
  "is_file (PdfSaved fileName pdf) = True"
| "is_file (PptxWritten fileName pptx) = True"
| "is_file ev = False"

definition files_written :: "world \<Rightarrow> event list" where
  "files_written w = filter is_file (trace w)"

section \<open>Notions used to state the properties\<close>

text \<open>The calls of \<^verbatim>\<open>html2canvas\<close> the loops make for a list of sections, in order.\<close>

definition capture_events :: "page_section list \<Rightarrow> event list" where
  "capture_events secs = map (\<lambda>s. Html2canvas s (capture_options s)) secs"

text \<open>
  The promise of \<open>prepareImage\<close> resolves: the image is complete with a non-zero natural
  width, or one of the two events reaches the listeners.
\<close>

definition settles :: "image \<Rightarrow> bool" where
  "settles img = (complete img \<and> naturalWidth img \<noteq> 0 \<or> fires img \<noteq> None)"

text \<open>The images of the document once every executor of \<open>prepareImage\<close> has run.\<close>

definition prepared :: "image list \<Rightarrow> image list" where
  "prepared imgs = map (\<lambda>img. fst (prepareImage img)) imgs"

text \<open>
  The rest of the \<^verbatim>\<open>try\<close> block of an invocation of kind \<open>k\<close> that is resumed in \<open>w\<close>.
\<close>

definition continue_of :: "export_kind \<Rightarrow> browser \<Rightarrow> world \<Rightarrow> unit awaited \<times> world" where
  "continue_of k env w = (case k of Pdf \<Rightarrow> pdf_continue env w | Ppt \<Rightarrow> ppt_continue env w)"

text \<open>
  The invariant of the controller: idle with no invocation in flight, or running with
  exactly one, of the kind the state names.
\<close>

definition single_flight :: "world \<Rightarrow> bool" where
  "single_flight w =
     (case exportingType w of
        None \<Rightarrow> in_flight w = []
      | Some k \<Rightarrow> in_flight w = [Awaiting k] \<or> in_flight w = [Stalled k])"

text \<open>
  The effects of an export that has not reached the end of its \<^verbatim>\<open>try\<close> block, on a page
  with the images \<open>imgs\<close>: none while the fonts are not ready; the resumption after the
  fonts while some image does not settle; else the two resumptions of the gate and then the
  captures of the first sections.
\<close>

definition unfinished :: "browser \<Rightarrow> image list \<Rightarrow> event list \<Rightarrow> bool" where
  "unfinished env imgs evs =
     (evs = [] \<and> fonts_ready env \<noteq> Fulfilled ()
      \<or> evs = [FontsReady] \<and> fonts_ready env = Fulfilled () \<and> \<not> list_all settles imgs
      \<or> (\<exists>k\<le>length (sections env).
            evs = [FontsReady, ImagesReady] @ capture_events (take k (sections env))
            \<and> fonts_ready env = Fulfilled () \<and> list_all settles imgs))"

text \<open>
  A browser in which an export goes through: the fonts are ready, every capture resolves
  and can be encoded, no library call throws and the deck can be written.
\<close>

definition cooperative :: "browser \<Rightarrow> bool" where
  "cooperative env =
     (fonts_ready env = Fulfilled ()
      \<and> (\<forall>call. throws env call = None)
      \<and> (\<forall>s\<in>set (sections env). \<exists>c d. html2canvas env s (capture_options s) = Fulfilled c
                                        \<and> toDataURL env c = Inr d)
      \<and> (\<forall>fileName pptx. writeFile env fileName pptx = Fulfilled ()))"

text \<open>The state \<open>w\<close> with the effects \<open>t\<close> put before its own.\<close>

definition after :: "event list \<Rightarrow> world \<Rightarrow> world" where
  "after t w = w\<lparr> trace := t @ trace w \<rparr>"

section \<open>Example pages\<close>

text \<open>
  Scenario 2 of the spec: three sections of 1600 by 900, 800 by 1200 and 3200 by 900, in a
  browser where the fonts are ready, every capture resolves to a bitmap as the spec sizes
  it, and no library call throws.
\<close>

definition demo_sections :: "page_section list" where
  "demo_sections =
     [\<lparr> node = 0, scrollWidth = 1600, offsetWidth = 1600, scrollHeight = 900, offsetHeight = 900 \<rparr>,
      \<lparr> node = 1, scrollWidth = 800, offsetWidth = 800, scrollHeight = 1200, offsetHeight = 1200 \<rparr>,
      \<lparr> node = 2, scrollWidth = 3200, offsetWidth = 3200, scrollHeight = 900, offsetHeight = 900 \<rparr>]"

definition demo_browser :: browser where
  "demo_browser =
     \<lparr> sections = demo_sections,
       fonts_ready = Fulfilled (),
       html2canvas = html2canvas_spec,
       toDataURL = (\<lambda>c. Inr (''data:image/png;'' @ replicate (source c) CHR ''#'')),
       throws = (\<lambda>call. None),
       writeFile = (\<lambda>fileName pptx. Fulfilled ()) \<rparr>"

text \<open>
  Two images: a remote one that has loaded, and an inline one whose decoding fails while the
  gate waits.
\<close>

definition demo_images :: "image list" where
  "demo_images =
     [\<lparr> src = ''https://images.unsplash.com/photo-1505761671935'', crossorigin = None,
        referrerpolicy = None, complete = True, naturalWidth = 1400, fires = None \<rparr>,
      \<lparr> src = ''data:image/png;base64,iVBORw0KGgo'', crossorigin = None, referrerpolicy = None,
        complete = False, naturalWidth = 0, fires = Some ErrorEvent \<rparr>]"

text \<open>
  Scenario 4 of the spec: five sections, and a browser in which the capture of the fourth
  one is rejected.
\<close>

definition five_sections :: "page_section list" where
  "five_sections =
     map (\<lambda>n. \<lparr> node = n, scrollWidth = 1600, offsetWidth = 1600, scrollHeight = 900,
                 offsetHeight = 900 \<rparr>) [0, 1, 2, 3, 4]"

definition tainted_browser :: browser where
  "tainted_browser =
     demo_browser
       \<lparr> sections := five_sections,
         html2canvas := (\<lambda>s opts. if node s = 3 then Rejected (JsError ''SecurityError'')
                                  else html2canvas_spec s opts) \<rparr>"

text \<open>
  An image that had failed to load before the export started, on a page that has been
  exported once: complete, of natural width 0, its attributes already set, so that lines
  32-33 change nothing, and no further event.
\<close>

definition broken_image :: image where
  "broken_image =
     \<lparr> src = ''https://images.unsplash.com/photo-1520607162513'', crossorigin = Some ''anonymous'',
       referrerpolicy = Some ''no-referrer'', complete = True, naturalWidth = 0, fires = None \<rparr>"




section \<open>Properties of the numbers and of the capture scale\<close>

lemma num_eq_Fin0 [simp]: "(num n = Fin 0) = (n = 0)"
  by (simp add: num_def)

lemma num_not_NaN [simp]: "num n \<noteq> NaN"
  by (simp add: num_def)

lemma jmax_num: "jmax (num a) (num b) = num (max a b)"
  by (auto simp add: jmax_def num_def max_def)

lemma jmin_Fin: "jmin (Fin a) (Fin b) = Fin (min a b)"
  by (auto simp add: jmin_def min_def)

lemma floor_numeral_divide:
  "\<lfloor>numeral a / numeral b :: rat\<rfloor> = numeral a div numeral b"
  using floor_divide_of_int_eq [of "numeral a" "numeral b", where ?'a = rat] by simp

lemmas fl_eval = round64_def fl_def round_even_def Let_def expo.simps power_int_minus_divide
  floor_numeral_divide

lemma expo_bounds:
  "x \<noteq> 0 \<Longrightarrow> 2 powi (expo x) \<le> \<bar>x\<bar> \<and> \<bar>x\<bar> < 2 powi (expo x + 1)"
proof (induction x rule: expo.induct)
  case (1 x)
  show ?case
  proof (cases "2 \<le> \<bar>x\<bar>")
    case True
    with 1 have ih: "2 powi (expo (x / 2)) \<le> \<bar>x / 2\<bar> \<and> \<bar>x / 2\<bar> < 2 powi (expo (x / 2) + 1)"
      by simp
    have e: "expo x = expo (x / 2) + 1" using True 1(3) by (subst expo.simps) simp
    have p: "(2::rat) powi (expo (x / 2) + 1 + 1) = 2 powi (expo (x / 2) + 1) * 2"
      by (subst power_int_add) simp_all
    have q: "(2::rat) powi (expo (x / 2) + 1) = 2 powi (expo (x / 2)) * 2"
      by (subst power_int_add) simp_all
    from ih show ?thesis unfolding e p by (simp add: q abs_divide)
  next
    case False
    show ?thesis
    proof (cases "\<bar>x\<bar> < 1")
      case True
      with 1 False have ih: "2 powi (expo (x * 2)) \<le> \<bar>x * 2\<bar> \<and> \<bar>x * 2\<bar> < 2 powi (expo (x * 2) + 1)"
        by simp
      have e: "expo x = expo (x * 2) - 1" using True False 1(3) by (subst expo.simps) simp
      have q: "(2::rat) powi (expo (x * 2)) = 2 powi (expo (x * 2) - 1) * 2"
        using power_int_add [of "2::rat" "expo (x * 2) - 1" 1] by simp
      have p: "(2::rat) powi (expo (x * 2) + 1) = 2 powi (expo (x * 2)) * 2"
        by (subst power_int_add) simp_all
      from ih show ?thesis unfolding e by (simp add: q p abs_mult)
    next
      case small: False
      have e: "expo x = 0" using small False 1(3) by (subst expo.simps) simp
      show ?thesis unfolding e using small False by simp
    qed
  qed
qed

lemma round_even_err: "\<bar>of_int (round_even q) - q\<bar> \<le> 1 / 2"
proof -
  have "of_int \<lfloor>q\<rfloor> \<le> q" "q < of_int \<lfloor>q\<rfloor> + 1" by linarith+
  then show ?thesis by (auto simp: round_even_def Let_def)
qed

text \<open>Rounding moves a number by at most half the spacing of the doubles around it.\<close>

lemma fl_err: "\<bar>fl x - x\<bar> \<le> 2 powi (max (expo x) (- 1022) - 53)"
proof -
  define u :: rat where "u = 2 powi (max (expo x) (- 1022) - 52)"
  have u: "0 < u" by (simp add: u_def)
  have h: "(2::rat) powi (max (expo x) (- 1022) - 53) = u / 2"
    using power_int_add [of "2::rat" "max (expo x) (- 1022) - 53" 1] by (simp add: u_def)
  have "\<bar>of_int (round_even (x / u)) - x / u\<bar> \<le> 1 / 2" by (rule round_even_err)
  then have "\<bar>of_int (round_even (x / u)) - x / u\<bar> * u \<le> 1 / 2 * u"
    using u by (simp only: mult_le_cancel_right) simp
  moreover have "\<bar>of_int (round_even (x / u)) - x / u\<bar> * u = \<bar>of_int (round_even (x / u)) * u - x\<bar>"
  proof -
    have "\<bar>of_int (round_even (x / u)) - x / u\<bar> * u = \<bar>(of_int (round_even (x / u)) - x / u) * u\<bar>"
      using u by (simp add: abs_mult)
    also have "(of_int (round_even (x / u)) - x / u) * u = of_int (round_even (x / u)) * u - x"
      using u by (simp add: algebra_simps)
    finally show ?thesis .
  qed
  ultimately show ?thesis unfolding h by (simp add: fl_def Let_def u_def [symmetric])
qed

text \<open>In the range of the normal numbers the relative error is at most \<open>2 ^ - 53\<close>.\<close>

lemma fl_rel:
  assumes "1 / 2 ^ 1022 \<le> \<bar>x\<bar>"
  shows "\<bar>fl x - x\<bar> \<le> \<bar>x\<bar> / 2 ^ 53"
proof -
  have x: "x \<noteq> 0" using assms by auto
  have "- 1022 \<le> expo x"
  proof (rule ccontr)
    assume "\<not> - 1022 \<le> expo x"
    then have "expo x + 1 \<le> - 1022" by simp
    then have "(2::rat) powi (expo x + 1) \<le> 2 powi (- 1022)" by (intro power_int_increasing) simp_all
    with expo_bounds [OF x] assms show False by (simp add: power_int_minus_divide)
  qed
  then have m: "max (expo x) (- 1022) = expo x" by simp
  have "(2::rat) powi (expo x - 53) = 2 powi (expo x) / 2 ^ 53"
    by (simp add: power_int_diff)
  also have "\<dots> \<le> \<bar>x\<bar> / 2 ^ 53" using expo_bounds [OF x] by (simp add: divide_right_mono)
  finally show ?thesis using fl_err [of x] unfolding m by linarith
qed

lemma fl_0 [simp]: "fl 0 = 0"
  by (simp add: fl_def round_even_def)

text \<open>Rounding never more than doubles a number of magnitude above one.\<close>

lemma fl_abs_le: "\<bar>fl x\<bar> \<le> 2 * \<bar>x\<bar> + 1"
proof (cases "x = 0")
  case True
  then show ?thesis by simp
next
  case False
  have "(2::rat) powi (max (expo x) (- 1022) - 53) \<le> \<bar>x\<bar> + 1"
  proof (cases "- 1022 \<le> expo x")
    case True
    then have m: "max (expo x) (- 1022) = expo x" by simp
    have "(2::rat) powi (expo x - 53) \<le> 2 powi (expo x)"
      by (intro power_int_increasing) simp_all
    with expo_bounds [OF False] show ?thesis unfolding m by linarith
  next
    case False
    then have m: "max (expo x) (- 1022) = - 1022" by simp
    have "(2::rat) powi (- 1022 - 53) \<le> 2 powi 0"
      by (intro power_int_increasing) simp_all
    then show ?thesis unfolding m by simp
  qed
  with fl_err [of x] show ?thesis by linarith
qed

text \<open>Far below the largest double no operation overflows.\<close>

lemma round64_Fin:
  assumes "\<bar>x\<bar> \<le> 2 ^ 1000"
  shows "round64 x = Fin (fl x)"
proof -
  have "\<bar>fl x\<bar> \<le> 2 * \<bar>x\<bar> + 1" by (rule fl_abs_le)
  also have "\<dots> \<le> 2 * 2 ^ 1000 + 1" using assms by simp
  also have "\<dots> < (2::rat) ^ 1024" by simp
  finally have "\<bar>fl x\<bar> < 2 ^ 1024" .
  then show ?thesis by (auto simp: round64_def Let_def)
qed

lemma fl_near:
  assumes "1 / 2 ^ 1022 \<le> x"
  shows "x * (1 - 1 / 2 ^ 53) \<le> fl x" and "fl x \<le> x * (1 + 1 / 2 ^ 53)"
proof -
  have x: "0 < x" using assms by (rule less_le_trans [rotated]) simp
  from assms x have "1 / 2 ^ 1022 \<le> \<bar>x\<bar>" by simp
  from fl_rel [OF this] x have e: "\<bar>fl x - x\<bar> \<le> x / 2 ^ 53" by simp
  have a: "x * (1 - 1 / 2 ^ 53) = x - x / 2 ^ 53" by (simp add: algebra_simps)
  have b: "x * (1 + 1 / 2 ^ 53) = x + x / 2 ^ 53" by (simp add: algebra_simps)
  from e show "x * (1 - 1 / 2 ^ 53) \<le> fl x" unfolding a by linarith
  from e show "fl x \<le> x * (1 + 1 / 2 ^ 53)" unfolding b by linarith
qed


lemma quot_round:
  assumes "1 / 2 ^ 40 \<le> X" and "X \<le> 2 ^ 40" and "1 \<le> P" and "P \<le> 32"
  shows "jdiv (Fin P) (Fin X) = Fin (fl (P / X))"
    and "1 / 2 ^ 41 \<le> fl (P / X)"
    and "fl (P / X) \<le> P / X * (1 + 1 / 2 ^ 53)"
proof -
  have X: "0 < X" using assms(1) by (rule less_le_trans [rotated]) simp
  have lo: "1 / 2 ^ 40 \<le> P / X"
    using assms(2,3) X by (intro frac_le) simp_all
  have hi: "P / X \<le> 32 / (1 / 2 ^ 40)"
    using assms(1,3,4) by (intro frac_le) simp_all
  have pos: "0 < P / X" using lo by (rule less_le_trans [rotated]) simp
  have n: "1 / 2 ^ 1022 \<le> P / X" using lo by (rule order_trans [rotated]) simp
  have "\<bar>P / X\<bar> \<le> 2 ^ 1000" using hi pos by simp
  then have "round64 (P / X) = Fin (fl (P / X))" by (rule round64_Fin)
  then show "jdiv (Fin P) (Fin X) = Fin (fl (P / X))" using X by simp
  show "fl (P / X) \<le> P / X * (1 + 1 / 2 ^ 53)" by (rule fl_near(2) [OF n])
  have "1 / 2 ^ 40 * (1 / 2) \<le> P / X * (1 - 1 / 2 ^ 53)"
  proof (rule mult_mono)
    show "1 / 2 ^ 40 \<le> P / X" by (rule lo)
    show "0 \<le> P / X" using pos by (rule less_imp_le)
  qed simp_all
  also have "\<dots> \<le> fl (P / X)" by (rule fl_near(1) [OF n])
  finally show "1 / 2 ^ 41 \<le> fl (P / X)" by simp
qed

lemma side_round:
  assumes "1 / 2 ^ 40 \<le> X" and "X \<le> 2 ^ 40" and "1 \<le> P" and "P \<le> 32"
    and "1 / 2 ^ 41 \<le> r" and "r \<le> fl (P / X)"
  shows "jmul (Fin X) (Fin r) = Fin (fl (X * r))"
    and "0 < fl (X * r)"
    and "fl (X * r) \<le> P * (1 + 1 / 2 ^ 53)\<^sup>2"
proof -
  have X: "0 < X" using assms(1) by (rule less_le_trans [rotated]) simp
  have r: "0 < r" using assms(5) by (rule less_le_trans [rotated]) simp
  have "r \<le> P / X * (1 + 1 / 2 ^ 53)"
    using assms(6) quot_round(3) [OF assms(1-4)] by (rule order_trans)
  then have "X * r \<le> X * (P / X * (1 + 1 / 2 ^ 53))"
    using X by (intro mult_left_mono) simp_all
  also have "\<dots> = P * (1 + 1 / 2 ^ 53)" using X by simp
  finally have up: "X * r \<le> P * (1 + 1 / 2 ^ 53)" .
  have "1 / 2 ^ 40 * (1 / 2 ^ 41) \<le> X * r"
    using assms(1,5) by (intro mult_mono) simp_all
  then have lo: "1 / 2 ^ 81 \<le> X * r" by simp
  have n: "1 / 2 ^ 1022 \<le> X * r" using lo by (rule order_trans [rotated]) simp
  have pos: "0 < X * r" using X r by simp
  have "P * (1 + 1 / 2 ^ 53) \<le> 32 * 2" using assms(3,4) by (intro mult_mono) simp_all
  with up pos have "\<bar>X * r\<bar> \<le> 2 ^ 1000" by simp
  then have "round64 (X * r) = Fin (fl (X * r))" by (rule round64_Fin)
  then show "jmul (Fin X) (Fin r) = Fin (fl (X * r))" by simp
  have "0 < X * r * (1 - 1 / 2 ^ 53)" using pos by simp
  also have "\<dots> \<le> fl (X * r)" by (rule fl_near(1) [OF n])
  finally show "0 < fl (X * r)" .
  have "fl (X * r) \<le> X * r * (1 + 1 / 2 ^ 53)" by (rule fl_near(2) [OF n])
  also have "\<dots> \<le> P * (1 + 1 / 2 ^ 53) * (1 + 1 / 2 ^ 53)"
    using up by (intro mult_right_mono) simp_all
  finally show "fl (X * r) \<le> P * (1 + 1 / 2 ^ 53)\<^sup>2" by (simp add: power2_eq_square)
qed

lemma jdiv_num_pos: "0 < n \<Longrightarrow> jdiv (Fin a) (num n) = round64 (a / of_nat n)"
  by (simp add: num_def)

lemma sectionWidth_eq:
  "sectionWidth s = num (if scrollWidth s \<noteq> 0 then scrollWidth s
                         else if offsetWidth s \<noteq> 0 then offsetWidth s else 1600)"
  by (simp add: sectionWidth_def js_or_def falsy_def) (simp add: num_def)

lemma sectionHeight_eq:
  "sectionHeight s = num (if scrollHeight s \<noteq> 0 then scrollHeight s
                         else if offsetHeight s \<noteq> 0 then offsetHeight s else 900)"
  by (simp add: sectionHeight_def js_or_def falsy_def) (simp add: num_def)

lemma round64_1600_over:
  assumes "0 < n"
  shows "round64 (1600 / of_nat n) = Fin (fl (1600 / of_nat n))"
proof (rule round64_Fin)
  have "(1::rat) \<le> of_nat n" using assms by simp
  then have "1600 / of_nat n \<le> (1600 :: rat) / 1" by (intro divide_left_mono) simp_all
  then have "\<bar>1600 / of_nat n :: rat\<bar> \<le> 1600" by simp
  also have "\<dots> \<le> (2::rat) ^ 1000" by simp
  finally show "\<bar>1600 / of_nat n :: rat\<bar> \<le> 2 ^ 1000" .
qed

lemma scale_eq:
  "scale s = Fin (min 2 (fl (1600 / of_nat (max
      (if scrollWidth s \<noteq> 0 then scrollWidth s else if offsetWidth s \<noteq> 0 then offsetWidth s else 1600)
      (if scrollHeight s \<noteq> 0 then scrollHeight s else if offsetHeight s \<noteq> 0 then offsetHeight s else 900)))))"
proof -
  let ?w = "if scrollWidth s \<noteq> 0 then scrollWidth s else if offsetWidth s \<noteq> 0 then offsetWidth s else 1600"
  let ?h = "if scrollHeight s \<noteq> 0 then scrollHeight s else if offsetHeight s \<noteq> 0 then offsetHeight s else 900"
  have "0 < ?w" by simp
  then have "0 < max ?w ?h" by (simp only: less_max_iff_disj) blast
  then show ?thesis
    by (simp only: scale_def maxDim_def sectionWidth_eq sectionHeight_eq jmax_num jdiv_num_pos
          round64_1600_over jmin_Fin)
qed

text \<open>The constants of the placement are doubles.\<close>

lemma round64_exact [simp]:
  "round64 0 = Fin 0" "round64 20 = Fin 20" "round64 (45 / 4) = Fin (45 / 4)"
  by (simp_all add: fl_eval)

text \<open>
  Fitting a box of \<open>X\<close> by \<open>Y\<close> into one of \<open>P\<close> by \<open>Q\<close>: no operation overflows or
  underflows, and each placed side exceeds its bound by the rounding of one division and
  one multiplication at most.
\<close>

lemma fit_round:
  assumes X: "1 / 2 ^ 40 \<le> X" "X \<le> 2 ^ 40" and Y: "1 / 2 ^ 40 \<le> Y" "Y \<le> 2 ^ 40"
    and P: "1 \<le> P" "P \<le> 32" and Q: "1 \<le> Q" "Q \<le> 32"
  defines "r \<equiv> min (fl (P / X)) (fl (Q / Y))"
  shows "jmin (jdiv (Fin P) (Fin X)) (jdiv (Fin Q) (Fin Y)) = Fin r"
    and "jmul (Fin X) (Fin r) = Fin (fl (X * r))"
    and "jmul (Fin Y) (Fin r) = Fin (fl (Y * r))"
    and "0 < fl (X * r)" and "fl (X * r) \<le> P * (1 + 1 / 2 ^ 53)\<^sup>2"
    and "0 < fl (Y * r)" and "fl (Y * r) \<le> Q * (1 + 1 / 2 ^ 53)\<^sup>2"
proof -
  note a = quot_round [OF X P]
  note b = quot_round [OF Y Q]
  show "jmin (jdiv (Fin P) (Fin X)) (jdiv (Fin Q) (Fin Y)) = Fin r"
    by (simp only: a(1) b(1) jmin_Fin r_def)
  have lo: "1 / 2 ^ 41 \<le> r" using a(2) b(2) by (simp add: r_def)
  have ra: "r \<le> fl (P / X)" and rb: "r \<le> fl (Q / Y)" by (simp_all add: r_def)
  note sa = side_round [OF X P lo ra]
  note sb = side_round [OF Y Q lo rb]
  from sa sb show "jmul (Fin X) (Fin r) = Fin (fl (X * r))" "jmul (Fin Y) (Fin r) = Fin (fl (Y * r))"
    "0 < fl (X * r)" "fl (X * r) \<le> P * (1 + 1 / 2 ^ 53)\<^sup>2"
    "0 < fl (Y * r)" "fl (Y * r) \<le> Q * (1 + 1 / 2 ^ 53)\<^sup>2"
    by blast+
qed

lemma centre_round:
  assumes "0 < w" and "w \<le> 64" and "0 \<le> S" and "S \<le> 64"
  shows "jdiv (jsub (Fin S) (Fin w)) (Fin 2) = Fin (fl (fl (S - w) / 2))"
proof -
  have d: "\<bar>S - w\<bar> \<le> 64" using assms by (simp add: abs_le_iff)
  then have "\<bar>S - w\<bar> \<le> 2 ^ 1000" by (rule order_trans) simp
  then have s: "round64 (S - w) = Fin (fl (S - w))" by (rule round64_Fin)
  have "\<bar>fl (S - w)\<bar> \<le> 2 * \<bar>S - w\<bar> + 1" by (rule fl_abs_le)
  also have "\<dots> \<le> 2 * 64 + 1" using d by (intro add_mono mult_left_mono) simp_all
  finally have "\<bar>fl (S - w)\<bar> \<le> 129" by simp
  then have "\<bar>fl (S - w) / 2\<bar> \<le> 129" by simp
  then have "\<bar>fl (S - w) / 2\<bar> \<le> 2 ^ 1000" by (rule order_trans) simp
  then have "round64 (fl (S - w) / 2) = Fin (fl (fl (S - w) / 2))" by (rule round64_Fin)
  then show ?thesis by (simp add: s)
qed

lemma pixels_to_units:
  assumes "1 \<le> W" and "W \<le> 2 ^ 32"
  shows "pxToIn (Fin W) = Fin (fl (W / 96))"
    and "1 / 2 ^ 40 \<le> fl (W / 96)" and "fl (W / 96) \<le> 2 ^ 40"
proof -
  have lo: "1 / 96 \<le> W / 96" using assms(1) by simp
  have hi: "W / 96 \<le> 2 ^ 32 / 96" using assms(2) by simp
  have pos: "0 < W / 96" using assms(1) by simp
  have n: "1 / 2 ^ 1022 \<le> W / 96" using lo by (rule order_trans [rotated]) simp
  have "\<bar>W / 96\<bar> \<le> 2 ^ 32 / 96" using hi pos by simp
  then have "\<bar>W / 96\<bar> \<le> 2 ^ 1000" by (rule order_trans) simp
  then have "round64 (W / 96) = Fin (fl (W / 96))" by (rule round64_Fin)
  then show "pxToIn (Fin W) = Fin (fl (W / 96))" by (simp add: pxToIn_def)
  have "1 / 96 * (1 / 2) \<le> W / 96 * (1 - 1 / 2 ^ 53)"
  proof (rule mult_mono)
    show "1 / 96 \<le> W / 96" by (rule lo)
    show "0 \<le> W / 96" using pos by (rule less_imp_le)
  qed simp_all
  also have "\<dots> \<le> fl (W / 96)" by (rule fl_near(1) [OF n])
  finally have "1 / 192 \<le> fl (W / 96)" by simp
  then show "1 / 2 ^ 40 \<le> fl (W / 96)" by (rule order_trans [rotated]) simp
  have "fl (W / 96) \<le> W / 96 * (1 + 1 / 2 ^ 53)" by (rule fl_near(2) [OF n])
  also have "\<dots> \<le> 2 ^ 32 / 96 * 2"
  proof (rule mult_mono)
    show "W / 96 \<le> 2 ^ 32 / 96" by (rule hi)
  qed simp_all
  finally show "fl (W / 96) \<le> 2 ^ 40" by simp
qed

section \<open>Properties of the readiness gate and of the two loops\<close>

lemma emit_fields [simp]:
  "exportingType (emit ev w) = exportingType w"
  "images (emit ev w) = images w"
  "in_flight (emit ev w) = in_flight w"
  "trace (emit ev w) = trace w @ [ev]"
  by (simp_all add: emit_def)

lemma snd_prepareImage: "snd (prepareImage img) = (if settles img then Fulfilled () else Pending)"
  by (auto simp: prepareImage_def settles_def Let_def split: option.splits)

lemma promise_all_prepare:
  "promise_all (map (\<lambda>img. snd (prepareImage img)) imgs) =
     (if list_all settles imgs then Fulfilled (map (\<lambda>img. ()) imgs) else Pending)"
  by (induction imgs) (auto simp: snd_prepareImage)

lemma readiness_gate_eq:
  "readiness_gate env w =
     (case fonts_ready env of
        Pending \<Rightarrow> (Pending, w)
      | Rejected e \<Rightarrow> (Rejected e, w)
      | Fulfilled u \<Rightarrow>
          (if list_all settles (images w)
           then (Fulfilled (), w\<lparr> images := prepared (images w),
                                   trace := trace w @ [FontsReady, ImagesReady] \<rparr>)
           else (Pending, w\<lparr> images := prepared (images w),
                             trace := trace w @ [FontsReady] \<rparr>)))"
  by (simp add: readiness_gate_def Let_def comp_def promise_all_prepare prepared_def emit_def
           split: awaited.splits)

lemma pdf_loop_world:
  "pdf_loop env pw ph m i secs pdf w = (r, w') \<Longrightarrow>
     \<exists>k\<le>length secs. w' = w\<lparr> trace := trace w @ capture_events (take k secs) \<rparr>
        \<and> (case r of Fulfilled d \<Rightarrow> k = length secs | _ \<Rightarrow> 0 < k)"
proof (induction secs arbitrary: i pdf w)
  case Nil
  then show ?case by (auto simp: capture_events_def)
next
  case (Cons s rest)
  let ?w1 = "emit (Html2canvas s (capture_options s)) w"
  have one: "?w1 = w\<lparr> trace := trace w @ capture_events (take 1 (s # rest)) \<rparr>"
    by (simp add: emit_def capture_events_def)
  show ?case
  proof (cases "\<exists>img pdf1 pdf2. pdf_section_image env pw ph m s = Fulfilled img
           \<and> (if i \<noteq> 0 then jsPDF_addPage env pdf else Inr pdf) = Inr pdf1
           \<and> jsPDF_addImage env img pdf1 = Inr pdf2")
    case True
    then obtain img pdf1 pdf2 where
      a: "pdf_section_image env pw ph m s = Fulfilled img"
         "(if i \<noteq> 0 then jsPDF_addPage env pdf else Inr pdf) = Inr pdf1"
         "jsPDF_addImage env img pdf1 = Inr pdf2" by blast
    with Cons.prems have "pdf_loop env pw ph m (i + 1) rest pdf2 ?w1 = (r, w')"
      by (simp add: Let_def)
    from Cons.IH [OF this] obtain k where
      k: "k \<le> length rest" "w' = ?w1\<lparr> trace := trace ?w1 @ capture_events (take k rest) \<rparr>"
         "(case r of Fulfilled d \<Rightarrow> k = length rest | _ \<Rightarrow> 0 < k)" by blast
    have "w' = w\<lparr> trace := trace w @ capture_events (take (Suc k) (s # rest)) \<rparr>"
      using k(2) by (simp add: emit_def capture_events_def)
    moreover have "(case r of Fulfilled d \<Rightarrow> Suc k = length (s # rest) | _ \<Rightarrow> 0 < Suc k)"
      using k(3) by (cases r) auto
    ultimately show ?thesis using k(1) by (intro exI [of _ "Suc k"]) simp
  next
    case False
    with Cons.prems have "w' = ?w1 \<and> (\<forall>d. r \<noteq> Fulfilled d)"
      by (auto simp: Let_def split: awaited.splits sum.splits if_splits)
    then show ?thesis using one
      by (intro exI [of _ 1]) (auto split: awaited.splits)
  qed
qed

lemma ppt_loop_world:
  "ppt_loop env secs pptx w = (r, w') \<Longrightarrow>
     \<exists>k\<le>length secs. w' = w\<lparr> trace := trace w @ capture_events (take k secs) \<rparr>
        \<and> (case r of Fulfilled d \<Rightarrow> k = length secs | _ \<Rightarrow> 0 < k)"
proof (induction secs arbitrary: pptx w)
  case Nil
  then show ?case by (auto simp: capture_events_def)
next
  case (Cons s rest)
  let ?w1 = "emit (Html2canvas s (capture_options s)) w"
  have one: "?w1 = w\<lparr> trace := trace w @ capture_events (take 1 (s # rest)) \<rparr>"
    by (simp add: emit_def capture_events_def)
  show ?case
  proof (cases "\<exists>img slide pptx1 pptx2. ppt_section_image env s = Fulfilled img
           \<and> pptx_addSlide env pptx = Inr (slide, pptx1)
           \<and> slide_addImage env slide img pptx1 = Inr pptx2")
    case True
    then obtain img slide pptx1 pptx2 where
      a: "ppt_section_image env s = Fulfilled img"
         "pptx_addSlide env pptx = Inr (slide, pptx1)"
         "slide_addImage env slide img pptx1 = Inr pptx2" by blast
    with Cons.prems have "ppt_loop env rest pptx2 ?w1 = (r, w')"
      by (simp add: Let_def)
    from Cons.IH [OF this] obtain k where
      k: "k \<le> length rest" "w' = ?w1\<lparr> trace := trace ?w1 @ capture_events (take k rest) \<rparr>"
         "(case r of Fulfilled d \<Rightarrow> k = length rest | _ \<Rightarrow> 0 < k)" by blast
    have "w' = w\<lparr> trace := trace w @ capture_events (take (Suc k) (s # rest)) \<rparr>"
      using k(2) by (simp add: emit_def capture_events_def)
    moreover have "(case r of Fulfilled d \<Rightarrow> Suc k = length (s # rest) | _ \<Rightarrow> 0 < Suc k)"
      using k(3) by (cases r) auto
    ultimately show ?thesis using k(1) by (intro exI [of _ "Suc k"]) simp
  next
    case False
    with Cons.prems have "w' = ?w1 \<and> (\<forall>d. r \<noteq> Fulfilled d)"
      by (auto simp: Let_def split: awaited.splits sum.splits if_splits prod.splits)
    then show ?thesis using one
      by (intro exI [of _ 1]) (auto split: awaited.splits)
  qed
qed

lemma list_all2_left:
  assumes "list_all2 P xs ys" and "x \<in> set xs"
  shows "\<exists>y. P x y"
  using assms by (induction rule: list_all2_induct) auto

lemma pdf_section_image_Fulfilled:
  assumes "pdf_section_image env pw ph m s = Fulfilled img"
  shows "\<exists>c d. html2canvas env s (capture_options s) = Fulfilled c \<and> toDataURL env c = Inr d"
  using assms by (auto simp: pdf_section_image_def split: awaited.splits sum.splits)

lemma ppt_section_image_Fulfilled:
  assumes "ppt_section_image env s = Fulfilled img"
  shows "\<exists>c d. html2canvas env s (capture_options s) = Fulfilled c \<and> toDataURL env c = Inr d"
  using assms by (auto simp: ppt_section_image_def split: awaited.splits sum.splits)

lemma pdf_loop_pages_later:
  "pdf_loop env pw ph m i secs pdf w = (Fulfilled pdf', w') \<Longrightarrow> i \<noteq> 0 \<Longrightarrow>
     \<exists>new. pdf_pages pdf' = pdf_pages pdf @ new
        \<and> list_all2 (\<lambda>s page. \<exists>img. pdf_section_image env pw ph m s = Fulfilled img \<and> page = [img])
             secs new"
proof (induction secs arbitrary: i pdf w)
  case Nil
  then show ?case by simp
next
  case (Cons s rest)
  let ?w1 = "emit (Html2canvas s (capture_options s)) w"
  from Cons.prems obtain img pdf1 pdf2 where
    a: "pdf_section_image env pw ph m s = Fulfilled img"
       "jsPDF_addPage env pdf = Inr pdf1"
       "jsPDF_addImage env img pdf1 = Inr pdf2"
       "pdf_loop env pw ph m (i + 1) rest pdf2 ?w1 = (Fulfilled pdf', w')"
    by (auto simp: Let_def split: awaited.splits sum.splits)
  have p2: "pdf_pages pdf2 = pdf_pages pdf @ [[img]]"
    using a(2,3)
    by (auto simp: jsPDF_addPage_def jsPDF_addImage_def pdf_pages_def split: option.splits)
  from Cons.IH [OF a(4)] obtain new where
    n: "pdf_pages pdf' = pdf_pages pdf2 @ new"
       "list_all2 (\<lambda>s page. \<exists>img. pdf_section_image env pw ph m s = Fulfilled img \<and> page = [img]) rest new"
    by auto
  show ?case
    using n a(1) p2 by (intro exI [of _ "[img] # new"]) simp
qed

lemma pdf_loop_pages:
  assumes "pdf_loop env pw ph m 0 secs pdf w = (Fulfilled pdf', w')"
      and "earlier_pages pdf = []" and "current_page pdf = []" and "secs \<noteq> []"
  shows "list_all2 (\<lambda>s page. \<exists>img. pdf_section_image env pw ph m s = Fulfilled img \<and> page = [img])
           secs (pdf_pages pdf')"
proof -
  from assms(4) obtain s rest where secs: "secs = s # rest" by (cases secs) auto
  let ?w1 = "emit (Html2canvas s (capture_options s)) w"
  from assms(1) secs obtain img pdf2 where
    a: "pdf_section_image env pw ph m s = Fulfilled img"
       "jsPDF_addImage env img pdf = Inr pdf2"
       "pdf_loop env pw ph m 1 rest pdf2 ?w1 = (Fulfilled pdf', w')"
    by (auto simp: Let_def split: awaited.splits sum.splits)
  have p2: "pdf_pages pdf2 = [[img]]"
    using a(2) assms(2,3)
    by (auto simp: jsPDF_addImage_def pdf_pages_def split: option.splits)
  from pdf_loop_pages_later [OF a(3)] obtain new where
    n: "pdf_pages pdf' = pdf_pages pdf2 @ new"
       "list_all2 (\<lambda>s page. \<exists>img. pdf_section_image env pw ph m s = Fulfilled img \<and> page = [img]) rest new"
    by auto
  show ?thesis using n a(1) p2 secs by simp
qed

lemma ppt_loop_slides:
  "ppt_loop env secs pptx w = (Fulfilled pptx', w') \<Longrightarrow>
     \<exists>new. slides pptx' = slides pptx @ new
        \<and> list_all2 (\<lambda>s slide. \<exists>img. ppt_section_image env s = Fulfilled img \<and> slide = [img])
             secs new"
proof (induction secs arbitrary: pptx w)
  case Nil
  then show ?case by simp
next
  case (Cons s rest)
  let ?w1 = "emit (Html2canvas s (capture_options s)) w"
  from Cons.prems obtain img slide pptx1 pptx2 where
    a: "ppt_section_image env s = Fulfilled img"
       "pptx_addSlide env pptx = Inr (slide, pptx1)"
       "slide_addImage env slide img pptx1 = Inr pptx2"
       "ppt_loop env rest pptx2 ?w1 = (Fulfilled pptx', w')"
    by (auto simp: Let_def split: awaited.splits sum.splits prod.splits)
  have p2: "slides pptx2 = slides pptx @ [[img]]"
    using a(2,3)
    by (auto simp: pptx_addSlide_def slide_addImage_def nth_append split: option.splits)
  from Cons.IH [OF a(4)] obtain new where
    n: "slides pptx' = slides pptx2 @ new"
       "list_all2 (\<lambda>s slide. \<exists>img. ppt_section_image env s = Fulfilled img \<and> slide = [img]) rest new"
    by auto
  show ?case
    using n a(1) p2 by (intro exI [of _ "[img] # new"]) simp
qed

lemma pdf_loop_succeeds:
  assumes "\<forall>call. throws env call = None"
      and "\<forall>s\<in>set secs. \<exists>img. pdf_section_image env pw ph m s = Fulfilled img"
  shows "\<exists>pdf'. fst (pdf_loop env pw ph m i secs pdf w) = Fulfilled pdf'"
  using assms(2)
proof (induction secs arbitrary: i pdf w)
  case Nil
  show ?case by simp
next
  case (Cons s rest)
  then obtain img where img: "pdf_section_image env pw ph m s = Fulfilled img" by auto
  from Cons have rest: "\<forall>s\<in>set rest. \<exists>img. pdf_section_image env pw ph m s = Fulfilled img" by simp
  show ?case
    using img assms(1) Cons.IH [OF rest]
    by (simp add: Let_def jsPDF_addPage_def jsPDF_addImage_def)
qed

lemma ppt_loop_succeeds:
  assumes "\<forall>call. throws env call = None"
      and "\<forall>s\<in>set secs. \<exists>img. ppt_section_image env s = Fulfilled img"
  shows "\<exists>pptx'. fst (ppt_loop env secs pptx w) = Fulfilled pptx'"
  using assms(2)
proof (induction secs arbitrary: pptx w)
  case Nil
  show ?case by simp
next
  case (Cons s rest)
  then obtain img where img: "ppt_section_image env s = Fulfilled img" by auto
  from Cons have rest: "\<forall>s\<in>set rest. \<exists>img. ppt_section_image env s = Fulfilled img" by simp
  show ?case
    using img assms(1) Cons.IH [OF rest]
    by (simp add: Let_def pptx_addSlide_def slide_addImage_def)
qed

lemma pdf_assemble_Fulfilled:
  assumes "pdf_assemble env w = (Fulfilled u, w')"
  shows "\<exists>pdf. w' = w\<lparr> trace := trace w @ capture_events (sections env)
                                   @ [PdfSaved ''presentation.pdf'' pdf] \<rparr>
           \<and> (sections env \<noteq> [] \<longrightarrow>
                list_all2 (\<lambda>s page. \<exists>img. pdf_section_image env (Fin 20) (Fin (45 / 4)) (Fin 0) s
                                               = Fulfilled img \<and> page = [img])
                  (sections env) (pdf_pages pdf))"
proof -
  from assms obtain pdf0 pdf w1 where
    a: "new_jsPDF env ''landscape'' ''in'' (Fin 20, Fin (45 / 4)) = Inr pdf0"
       "pdf_loop env (Fin 20) (Fin (45 / 4)) (Fin 0) 0 (sections env) pdf0 w = (Fulfilled pdf, w1)"
       "jsPDF_save env ''presentation.pdf'' pdf w1 = Inr w'"
    by (auto simp: pdf_assemble_def Let_def getWidth_def getHeight_def new_jsPDF_def
             split: sum.splits awaited.splits option.splits prod.splits)
  have fresh: "earlier_pages pdf0 = []" "current_page pdf0 = []"
    using a(1) by (auto simp: new_jsPDF_def split: option.splits)
  from pdf_loop_world [OF a(2)] have w1: "w1 = w\<lparr> trace := trace w @ capture_events (sections env) \<rparr>"
    by auto
  have "w' = w\<lparr> trace := trace w @ capture_events (sections env)
                                   @ [PdfSaved ''presentation.pdf'' pdf] \<rparr>"
    using a(3) w1 by (auto simp: jsPDF_save_def emit_def split: option.splits)
  moreover have "sections env \<noteq> [] \<longrightarrow>
                list_all2 (\<lambda>s page. \<exists>img. pdf_section_image env (Fin 20) (Fin (45 / 4)) (Fin 0) s
                                               = Fulfilled img \<and> page = [img])
                  (sections env) (pdf_pages pdf)"
    using pdf_loop_pages [OF a(2) fresh] by blast
  ultimately show ?thesis by blast
qed

lemma pdf_assemble_not_Fulfilled:
  assumes "pdf_assemble env w = (r, w')" and "r \<noteq> Fulfilled ()"
  shows "\<exists>k\<le>length (sections env). w' = w\<lparr> trace := trace w @ capture_events (take k (sections env)) \<rparr>"
proof (cases "new_jsPDF env ''landscape'' ''in'' (Fin 20, Fin (45 / 4))")
  case (Inl e)
  with assms have "w' = w" by (simp add: pdf_assemble_def)
  then show ?thesis by (intro exI [of _ 0]) (simp add: capture_events_def)
next
  case (Inr pdf0)
  obtain r1 w1 where l: "pdf_loop env (Fin 20) (Fin (45 / 4)) (Fin 0) 0 (sections env) pdf0 w = (r1, w1)"
    by (cases "pdf_loop env (Fin 20) (Fin (45 / 4)) (Fin 0) 0 (sections env) pdf0 w")
  have pw: "getWidth pdf0 = Fin 20" "getHeight pdf0 = Fin (45 / 4)"
    using Inr by (auto simp: new_jsPDF_def getWidth_def getHeight_def split: option.splits)
  from assms Inr l pw have "w' = w1"
    by (auto simp: pdf_assemble_def Let_def split: awaited.splits sum.splits)
  with pdf_loop_world [OF l] show ?thesis by blast
qed

lemma ppt_assemble_Fulfilled:
  assumes "ppt_assemble env w = (Fulfilled u, w')"
  shows "\<exists>pptx. w' = w\<lparr> trace := trace w @ capture_events (sections env)
                                   @ [PptxWritten ''presentation.pptx'' pptx] \<rparr>
           \<and> list_all2 (\<lambda>s slide. \<exists>img. ppt_section_image env s = Fulfilled img \<and> slide = [img])
                  (sections env) (slides pptx)"
proof -
  from assms obtain pptx0 pptx w1 where
    a: "new_PptxGenJS env = Inr pptx0"
       "ppt_loop env (sections env) (pptx0\<lparr> pptx_layout := ''LAYOUT_16x9'' \<rparr>) w = (Fulfilled pptx, w1)"
       "writeFile env ''presentation.pptx'' pptx = Fulfilled ()"
       "w' = emit (PptxWritten ''presentation.pptx'' pptx) w1"
    by (auto simp: ppt_assemble_def Let_def split: sum.splits awaited.splits prod.splits)
  have fresh: "slides pptx0 = []"
    using a(1) by (auto simp: new_PptxGenJS_def split: option.splits)
  from ppt_loop_world [OF a(2)] have w1: "w1 = w\<lparr> trace := trace w @ capture_events (sections env) \<rparr>"
    by auto
  have "w' = w\<lparr> trace := trace w @ capture_events (sections env)
                                   @ [PptxWritten ''presentation.pptx'' pptx] \<rparr>"
    using a(4) w1 by (simp add: emit_def)
  moreover have "list_all2 (\<lambda>s slide. \<exists>img. ppt_section_image env s = Fulfilled img \<and> slide = [img])
                  (sections env) (slides pptx)"
    using ppt_loop_slides [OF a(2)] fresh by auto
  ultimately show ?thesis by blast
qed

lemma ppt_assemble_not_Fulfilled:
  assumes "ppt_assemble env w = (r, w')" and "r \<noteq> Fulfilled ()"
  shows "\<exists>k\<le>length (sections env). w' = w\<lparr> trace := trace w @ capture_events (take k (sections env)) \<rparr>"
proof (cases "new_PptxGenJS env")
  case (Inl e)
  with assms have "w' = w" by (simp add: ppt_assemble_def)
  then show ?thesis by (intro exI [of _ 0]) (simp add: capture_events_def)
next
  case (Inr pptx0)
  obtain r1 w1 where l: "ppt_loop env (sections env) (pptx0\<lparr> pptx_layout := ''LAYOUT_16x9'' \<rparr>) w = (r1, w1)"
    by (cases "ppt_loop env (sections env) (pptx0\<lparr> pptx_layout := ''LAYOUT_16x9'' \<rparr>) w")
  from assms Inr l have "w' = w1"
    by (auto simp: ppt_assemble_def Let_def split: awaited.splits sum.splits)
  with ppt_loop_world [OF l] show ?thesis by blast
qed

lemma pdf_continue_Fulfilled:
  assumes "pdf_continue env w = (Fulfilled u, w')"
  shows "fonts_ready env = Fulfilled () \<and> list_all settles (images w)
     \<and> (\<exists>pdf. w' = w\<lparr> images := prepared (images w),
                       trace := trace w @ [FontsReady, ImagesReady] @ capture_events (sections env)
                                   @ [PdfSaved ''presentation.pdf'' pdf] \<rparr>
           \<and> (sections env \<noteq> [] \<longrightarrow>
                list_all2 (\<lambda>s page. \<exists>img. pdf_section_image env (Fin 20) (Fin (45 / 4)) (Fin 0) s
                                               = Fulfilled img \<and> page = [img])
                  (sections env) (pdf_pages pdf)))"
proof -
  let ?w1 = "w\<lparr> images := prepared (images w), trace := trace w @ [FontsReady, ImagesReady] \<rparr>"
  from assms have g: "fonts_ready env = Fulfilled ()" "list_all settles (images w)"
    and a: "pdf_assemble env ?w1 = (Fulfilled u, w')"
    by (auto simp: pdf_continue_def readiness_gate_eq split: awaited.splits if_splits)
  from pdf_assemble_Fulfilled [OF a] g show ?thesis by auto
qed

lemma pdf_continue_not_Fulfilled:
  assumes "pdf_continue env w = (r, w')" and "r \<noteq> Fulfilled ()"
  shows "\<exists>evs. w' = w\<lparr> images := images w', trace := trace w @ evs \<rparr>
          \<and> (evs = [] \<and> fonts_ready env \<noteq> Fulfilled ()
              \<or> evs = [FontsReady] \<and> r = Pending \<and> fonts_ready env = Fulfilled ()
                   \<and> \<not> list_all settles (images w)
              \<or> (\<exists>k\<le>length (sections env).
                    evs = [FontsReady, ImagesReady] @ capture_events (take k (sections env))
                    \<and> fonts_ready env = Fulfilled () \<and> list_all settles (images w)))"
proof (cases "fonts_ready env")
  case Pending
  with assms have "w' = w" by (simp add: pdf_continue_def readiness_gate_eq)
  with Pending show ?thesis by (intro exI [of _ "[]"]) simp
next
  case (Rejected e)
  with assms have "w' = w" by (simp add: pdf_continue_def readiness_gate_eq)
  with Rejected show ?thesis by (intro exI [of _ "[]"]) simp
next
  case (Fulfilled u)
  show ?thesis
  proof (cases "list_all settles (images w)")
    case False
    with Fulfilled assms have "w' = w\<lparr> images := prepared (images w), trace := trace w @ [FontsReady] \<rparr>"
      and "r = Pending"
      by (auto simp: pdf_continue_def readiness_gate_eq)
    with False Fulfilled show ?thesis by (intro exI [of _ "[FontsReady]"]) simp
  next
    case True
    let ?w1 = "w\<lparr> images := prepared (images w), trace := trace w @ [FontsReady, ImagesReady] \<rparr>"
    from True Fulfilled assms have a: "pdf_assemble env ?w1 = (r, w')"
      by (auto simp: pdf_continue_def readiness_gate_eq)
    from pdf_assemble_not_Fulfilled [OF a assms(2)] obtain k where
      k: "k \<le> length (sections env)"
         "w' = ?w1\<lparr> trace := trace ?w1 @ capture_events (take k (sections env)) \<rparr>" by blast
    show ?thesis using k True Fulfilled
      by (intro exI [of _ "[FontsReady, ImagesReady] @ capture_events (take k (sections env))"]) auto
  qed
qed

lemma ppt_continue_Fulfilled:
  assumes "ppt_continue env w = (Fulfilled u, w')"
  shows "fonts_ready env = Fulfilled () \<and> list_all settles (images w)
     \<and> (\<exists>pptx. w' = w\<lparr> images := prepared (images w),
                       trace := trace w @ [FontsReady, ImagesReady] @ capture_events (sections env)
                                   @ [PptxWritten ''presentation.pptx'' pptx] \<rparr>
           \<and> list_all2 (\<lambda>s slide. \<exists>img. ppt_section_image env s = Fulfilled img \<and> slide = [img])
                  (sections env) (slides pptx))"
proof -
  let ?w1 = "w\<lparr> images := prepared (images w), trace := trace w @ [FontsReady, ImagesReady] \<rparr>"
  from assms have g: "fonts_ready env = Fulfilled ()" "list_all settles (images w)"
    and a: "ppt_assemble env ?w1 = (Fulfilled u, w')"
    by (auto simp: ppt_continue_def readiness_gate_eq split: awaited.splits if_splits)
  from ppt_assemble_Fulfilled [OF a] g show ?thesis by auto
qed

lemma ppt_continue_not_Fulfilled:
  assumes "ppt_continue env w = (r, w')" and "r \<noteq> Fulfilled ()"
  shows "\<exists>evs. w' = w\<lparr> images := images w', trace := trace w @ evs \<rparr>
          \<and> (evs = [] \<and> fonts_ready env \<noteq> Fulfilled ()
              \<or> evs = [FontsReady] \<and> r = Pending \<and> fonts_ready env = Fulfilled ()
                   \<and> \<not> list_all settles (images w)
              \<or> (\<exists>k\<le>length (sections env).
                    evs = [FontsReady, ImagesReady] @ capture_events (take k (sections env))
                    \<and> fonts_ready env = Fulfilled () \<and> list_all settles (images w)))"
proof (cases "fonts_ready env")
  case Pending
  with assms have "w' = w" by (simp add: ppt_continue_def readiness_gate_eq)
  with Pending show ?thesis by (intro exI [of _ "[]"]) simp
next
  case (Rejected e)
  with assms have "w' = w" by (simp add: ppt_continue_def readiness_gate_eq)
  with Rejected show ?thesis by (intro exI [of _ "[]"]) simp
next
  case (Fulfilled u)
  show ?thesis
  proof (cases "list_all settles (images w)")
    case False
    with Fulfilled assms have "w' = w\<lparr> images := prepared (images w), trace := trace w @ [FontsReady] \<rparr>"
      and "r = Pending"
      by (auto simp: ppt_continue_def readiness_gate_eq)
    with False Fulfilled show ?thesis by (intro exI [of _ "[FontsReady]"]) simp
  next
    case True
    let ?w1 = "w\<lparr> images := prepared (images w), trace := trace w @ [FontsReady, ImagesReady] \<rparr>"
    from True Fulfilled assms have a: "ppt_assemble env ?w1 = (r, w')"
      by (auto simp: ppt_continue_def readiness_gate_eq)
    from ppt_assemble_not_Fulfilled [OF a assms(2)] obtain k where
      k: "k \<le> length (sections env)"
         "w' = ?w1\<lparr> trace := trace ?w1 @ capture_events (take k (sections env)) \<rparr>" by blast
    show ?thesis using k True Fulfilled
      by (intro exI [of _ "[FontsReady, ImagesReady] @ capture_events (take k (sections env))"]) auto
  qed
qed

lemma pdf_continue_frame:
  assumes "pdf_continue env w = (r, w')"
  shows "exportingType w' = exportingType w \<and> in_flight w' = in_flight w"
proof (cases "r = Fulfilled ()")
  case True
  with assms pdf_continue_Fulfilled [of env w "()" w'] show ?thesis by auto
next
  case False
  from pdf_continue_not_Fulfilled [OF assms False] obtain evs where
    "w' = w\<lparr> images := images w', trace := trace w @ evs \<rparr>" by blast
  then show ?thesis by (metis world.select_convs(1,4) world.surjective world.update_convs(2,3))
qed

lemma ppt_continue_frame:
  assumes "ppt_continue env w = (r, w')"
  shows "exportingType w' = exportingType w \<and> in_flight w' = in_flight w"
proof (cases "r = Fulfilled ()")
  case True
  with assms ppt_continue_Fulfilled [of env w "()" w'] show ?thesis by auto
next
  case False
  from ppt_continue_not_Fulfilled [OF assms False] obtain evs where
    "w' = w\<lparr> images := images w', trace := trace w @ evs \<rparr>" by blast
  then show ?thesis by (metis world.select_convs(1,4) world.surjective world.update_convs(2,3))
qed

lemma pdf_continue_succeeds:
  assumes "fonts_ready env = Fulfilled ()" and "list_all settles (images w)"
      and "\<forall>call. throws env call = None"
      and "\<forall>s\<in>set (sections env). \<exists>c d. html2canvas env s (capture_options s) = Fulfilled c
                                        \<and> toDataURL env c = Inr d"
  shows "fst (pdf_continue env w) = Fulfilled ()"
proof -
  let ?w1 = "w\<lparr> images := prepared (images w), trace := trace w @ [FontsReady, ImagesReady] \<rparr>"
  let ?pdf = "\<lparr> pdf_pageWidth = Fin 20, pdf_pageHeight = Fin (45 / 4),
                earlier_pages = [], current_page = [] \<rparr>"
  have "\<forall>s\<in>set (sections env). \<exists>img. pdf_section_image env (Fin 20) (Fin (45 / 4)) (Fin 0) s = Fulfilled img"
    using assms(4) by (fastforce simp: pdf_section_image_def)
  from pdf_loop_succeeds [OF assms(3) this, of 0 ?pdf ?w1] obtain pdf' where
    "fst (pdf_loop env (Fin 20) (Fin (45 / 4)) (Fin 0) 0 (sections env) ?pdf ?w1) = Fulfilled pdf'"
    by blast
  then show ?thesis
    using assms(1,2,3)
    by (auto simp: pdf_continue_def readiness_gate_eq pdf_assemble_def new_jsPDF_def Let_def
          getWidth_def getHeight_def jsPDF_save_def split: prod.splits awaited.splits)
qed

lemma ppt_continue_succeeds:
  assumes "fonts_ready env = Fulfilled ()" and "list_all settles (images w)"
      and "\<forall>call. throws env call = None"
      and "\<forall>s\<in>set (sections env). \<exists>c d. html2canvas env s (capture_options s) = Fulfilled c
                                        \<and> toDataURL env c = Inr d"
      and "\<forall>fileName pptx. writeFile env fileName pptx = Fulfilled ()"
  shows "fst (ppt_continue env w) = Fulfilled ()"
proof -
  let ?w1 = "w\<lparr> images := prepared (images w), trace := trace w @ [FontsReady, ImagesReady] \<rparr>"
  let ?pptx = "\<lparr> pptx_layout = ''LAYOUT_16x9'', slides = [] \<rparr>"
  have "\<forall>s\<in>set (sections env). \<exists>img. ppt_section_image env s = Fulfilled img"
    using assms(4) by (fastforce simp: ppt_section_image_def)
  from ppt_loop_succeeds [OF assms(3) this, of ?pptx ?w1] obtain pptx' where
    "fst (ppt_loop env (sections env) ?pptx ?w1) = Fulfilled pptx'"
    by blast
  then show ?thesis
    using assms(1,2,3,5)
    by (auto simp: ppt_continue_def readiness_gate_eq ppt_assemble_def new_PptxGenJS_def Let_def
          split: prod.splits awaited.splits)
qed

section \<open>Properties of the two export functions and of the controller\<close>

lemma start_idle:
  assumes "exportingType w = None"
  shows "start k env w =
     (if sections env = [] then w\<lparr> trace := trace w @ [Alert ''No content found to export.''] \<rparr>
      else w\<lparr> exportingType := Some k, in_flight := in_flight w @ [Awaiting k] \<rparr>)"
  using assms
  by (cases k)
     (simp_all add: start_def exportToPdf_def exportToPpt_def isExporting_def Let_def
        setExportingType_def alert_def emit_def suspend_def)

lemma start_running:
  assumes "exportingType w \<noteq> None"
  shows "start k env w = w"
  using assms
  by (cases k) (simp_all add: start_def exportToPdf_def exportToPpt_def isExporting_def)

lemma exportToPdf_resume_eq:
  assumes "in_flight w = [Awaiting Pdf]"
  shows "exportToPdf_resume env 0 w =
     (case pdf_continue env w of
        (Fulfilled u, w') \<Rightarrow> w'\<lparr> exportingType := None, in_flight := [] \<rparr>
      | (Rejected e, w') \<Rightarrow>
          w'\<lparr> exportingType := None,
              trace := trace w' @ [ConsoleError ''PDF export failed'' e,
                         Alert ''Unable to export PDF. Please check console for details.''],
              in_flight := [] \<rparr>
      | (Pending, w') \<Rightarrow> w'\<lparr> in_flight := [Stalled Pdf] \<rparr>)"
proof -
  obtain r w' where c: "pdf_continue env w = (r, w')" by (cases "pdf_continue env w")
  from pdf_continue_frame [OF c] assms have f: "in_flight w' = [Awaiting Pdf]" by simp
  show ?thesis using c f
    by (cases r)
       (simp_all add: exportToPdf_resume_def settle_def stall_def setExportingType_def
          alert_def console_error_def emit_def)
qed

lemma exportToPpt_resume_eq:
  assumes "in_flight w = [Awaiting Ppt]"
  shows "exportToPpt_resume env 0 w =
     (case ppt_continue env w of
        (Fulfilled u, w') \<Rightarrow> w'\<lparr> exportingType := None, in_flight := [] \<rparr>
      | (Rejected e, w') \<Rightarrow>
          w'\<lparr> exportingType := None,
              trace := trace w' @ [ConsoleError ''PPT export failed'' e,
                         Alert ''Unable to export PPT. Please check console for details.''],
              in_flight := [] \<rparr>
      | (Pending, w') \<Rightarrow> w'\<lparr> in_flight := [Stalled Ppt] \<rparr>)"
proof -
  obtain r w' where c: "ppt_continue env w = (r, w')" by (cases "ppt_continue env w")
  from ppt_continue_frame [OF c] assms have f: "in_flight w' = [Awaiting Ppt]" by simp
  show ?thesis using c f
    by (cases r)
       (simp_all add: exportToPpt_resume_def settle_def stall_def setExportingType_def
          alert_def console_error_def emit_def)
qed

lemma single_flight_start:
  assumes "single_flight w"
  shows "single_flight (start k env w)"
proof (cases "exportingType w")
  case None
  with assms have "in_flight w = []" by (simp add: single_flight_def)
  with None show ?thesis by (simp add: start_idle single_flight_def)
next
  case (Some k')
  with assms show ?thesis by (simp add: start_running)
qed

lemma single_flight_resume:
  assumes "single_flight w"
  shows "single_flight (resume env n w)"
proof (cases "n < length (in_flight w)")
  case False
  with assms show ?thesis by (simp add: resume_def)
next
  case True
  show ?thesis
  proof (cases "exportingType w")
    case None
    with assms True show ?thesis by (simp add: single_flight_def)
  next
    case (Some k)
    with assms True have n: "n = 0" and fl: "in_flight w = [Awaiting k] \<or> in_flight w = [Stalled k]"
      by (auto simp: single_flight_def)
    from fl show ?thesis
    proof
      assume st: "in_flight w = [Stalled k]"
      with n assms show ?thesis by (simp add: resume_def)
    next
      assume aw: "in_flight w = [Awaiting k]"
      show ?thesis
      proof (cases k)
        case Pdf
        obtain r w' where c: "pdf_continue env w = (r, w')" by (cases "pdf_continue env w")
        from pdf_continue_frame [OF c] Some Pdf have "exportingType w' = Some Pdf" by simp
        with aw n Pdf c show ?thesis
          by (cases r) (simp_all add: resume_def exportToPdf_resume_eq single_flight_def)
      next
        case Ppt
        obtain r w' where c: "ppt_continue env w = (r, w')" by (cases "ppt_continue env w")
        from ppt_continue_frame [OF c] Some Ppt have "exportingType w' = Some Ppt" by simp
        with aw n Ppt c show ?thesis
          by (cases r) (simp_all add: resume_def exportToPpt_resume_eq single_flight_def)
      qed
    qed
  qed
qed

lemma reachable_single_flight:
  "reachable env w \<Longrightarrow> single_flight w"
proof (induction rule: reachable.induct)
  case (loaded imgs)
  show ?case by (simp add: single_flight_def page_loaded_def)
next
  case (started w k)
  then show ?case by (simp add: single_flight_start)
next
  case (resumed w n)
  then show ?case by (simp add: single_flight_resume)
qed

lemma run_export_Pdf:
  assumes "exportingType w = None" and "in_flight w = []"
  shows "run_export Pdf env w =
     (if sections env = [] then w\<lparr> trace := trace w @ [Alert ''No content found to export.''] \<rparr>
      else (case pdf_continue env (w\<lparr> exportingType := Some Pdf, in_flight := [Awaiting Pdf] \<rparr>) of
              (Fulfilled u, w') \<Rightarrow> w'\<lparr> exportingType := None, in_flight := [] \<rparr>
            | (Rejected e, w') \<Rightarrow>
                w'\<lparr> exportingType := None,
                    trace := trace w' @ [ConsoleError ''PDF export failed'' e,
                               Alert ''Unable to export PDF. Please check console for details.''],
                    in_flight := [] \<rparr>
            | (Pending, w') \<Rightarrow> w'\<lparr> in_flight := [Stalled Pdf] \<rparr>))"
  using assms
  by (simp add: run_export_def start_idle resume_def exportToPdf_resume_eq)

lemma run_export_Ppt:
  assumes "exportingType w = None" and "in_flight w = []"
  shows "run_export Ppt env w =
     (if sections env = [] then w\<lparr> trace := trace w @ [Alert ''No content found to export.''] \<rparr>
      else (case ppt_continue env (w\<lparr> exportingType := Some Ppt, in_flight := [Awaiting Ppt] \<rparr>) of
              (Fulfilled u, w') \<Rightarrow> w'\<lparr> exportingType := None, in_flight := [] \<rparr>
            | (Rejected e, w') \<Rightarrow>
                w'\<lparr> exportingType := None,
                    trace := trace w' @ [ConsoleError ''PPT export failed'' e,
                               Alert ''Unable to export PPT. Please check console for details.''],
                    in_flight := [] \<rparr>
            | (Pending, w') \<Rightarrow> w'\<lparr> in_flight := [Stalled Ppt] \<rparr>))"
  using assms
  by (simp add: run_export_def start_idle resume_def exportToPpt_resume_eq)

lemma page_loaded_fields [simp]:
  "exportingType (page_loaded imgs) = None"
  "images (page_loaded imgs) = imgs"
  "trace (page_loaded imgs) = []"
  "in_flight (page_loaded imgs) = []"
  by (simp_all add: page_loaded_def)

section \<open>Properties of a whole export\<close>

lemma unfinished_no_file:
  assumes "unfinished env imgs evs"
  shows "filter is_file evs = []"
  using assms by (auto simp: unfinished_def capture_events_def filter_empty_conv dest!: in_set_takeD)

lemma capture_events_no_file [simp]: "filter is_file (capture_events secs) = []"
  by (auto simp: capture_events_def filter_empty_conv)

lemma unfinished_not_file:
  assumes "unfinished env imgs evs" and "ev \<in> set evs"
  shows "\<not> is_file ev"
  using unfinished_no_file [OF assms(1)] assms(2) by (simp add: filter_empty_conv)

lemma unfinished_no_error:
  assumes "unfinished env imgs evs"
  shows "ConsoleError msg e \<notin> set evs"
  using assms by (auto simp: unfinished_def capture_events_def dest!: in_set_takeD)


lemma files_written_mem:
  assumes "files_written w = [ev]"
  shows "ev \<in> set (trace w)"
proof -
  have "ev \<in> set (filter is_file (trace w))"
    using assms by (simp add: files_written_def)
  then show ?thesis by simp
qed

lemma run_Pdf_cases:
  fixes env imgs
  defines "w \<equiv> run_export Pdf env (page_loaded imgs)"
  obtains
    (empty) "sections env = []" "w = (page_loaded imgs)\<lparr> trace := [Alert ''No content found to export.''] \<rparr>"
  | (saved) pdf where "sections env \<noteq> []" "fonts_ready env = Fulfilled ()" "list_all settles imgs"
      "w = \<lparr> exportingType = None, images = prepared imgs,
             trace = [FontsReady, ImagesReady] @ capture_events (sections env)
                       @ [PdfSaved ''presentation.pdf'' pdf],
             in_flight = [] \<rparr>"
      "list_all2 (\<lambda>s page. \<exists>img. pdf_section_image env (Fin 20) (Fin (45 / 4)) (Fin 0) s
                                               = Fulfilled img \<and> page = [img])
                  (sections env) (pdf_pages pdf)"
  | (failed) e evs where "sections env \<noteq> []" "unfinished env imgs evs"
      "exportingType w = None" "in_flight w = []"
      "trace w = evs @ [ConsoleError ''PDF export failed'' e,
                        Alert ''Unable to export PDF. Please check console for details.'']"
  | (stalled) evs where "sections env \<noteq> []" "unfinished env imgs evs"
      "exportingType w = Some Pdf" "in_flight w = [Stalled Pdf]" "trace w = evs"
proof (cases "sections env = []")
  case True
  then have "w = (page_loaded imgs)\<lparr> trace := [Alert ''No content found to export.''] \<rparr>"
    by (simp add: w_def run_export_Pdf)
  with True show ?thesis by (rule empty)
next
  case False
  let ?w0 = "(page_loaded imgs)\<lparr> exportingType := Some Pdf, in_flight := [Awaiting Pdf] \<rparr>"
  obtain r w' where c: "pdf_continue env ?w0 = (r, w')" by (cases "pdf_continue env ?w0")
  have run: "w = (case (r, w') of
              (Fulfilled u, w') \<Rightarrow> w'\<lparr> exportingType := None, in_flight := [] \<rparr>
            | (Rejected e, w') \<Rightarrow>
                w'\<lparr> exportingType := None,
                    trace := trace w' @ [ConsoleError ''PDF export failed'' e,
                               Alert ''Unable to export PDF. Please check console for details.''],
                    in_flight := [] \<rparr>
            | (Pending, w') \<Rightarrow> w'\<lparr> in_flight := [Stalled Pdf] \<rparr>)"
    using False c by (simp add: w_def run_export_Pdf)
  show ?thesis
  proof (cases r)
    case (Fulfilled u)
    from pdf_continue_Fulfilled [OF c [unfolded Fulfilled]] False obtain pdf where
      p: "fonts_ready env = Fulfilled ()" "list_all settles imgs"
         "w' = ?w0\<lparr> images := prepared imgs,
                       trace := [FontsReady, ImagesReady] @ capture_events (sections env)
                                   @ [PdfSaved ''presentation.pdf'' pdf] \<rparr>"
         "list_all2 (\<lambda>s page. \<exists>img. pdf_section_image env (Fin 20) (Fin (45 / 4)) (Fin 0) s
                                               = Fulfilled img \<and> page = [img])
                  (sections env) (pdf_pages pdf)"
      by auto
    have "w = \<lparr> exportingType = None, images = prepared imgs,
             trace = [FontsReady, ImagesReady] @ capture_events (sections env)
                       @ [PdfSaved ''presentation.pdf'' pdf],
             in_flight = [] \<rparr>"
      using run Fulfilled p(3) by (simp add: page_loaded_def)
    with False p show ?thesis by (intro saved)
  next
    case (Rejected e)
    then have "r \<noteq> Fulfilled ()" by simp
    from pdf_continue_not_Fulfilled [OF c this] obtain evs where
      e: "w' = ?w0\<lparr> images := images w', trace := trace ?w0 @ evs \<rparr>" "unfinished env imgs evs"
      unfolding unfinished_def by auto
    have "exportingType w = None" "in_flight w = []"
         "trace w = evs @ [ConsoleError ''PDF export failed'' e,
                        Alert ''Unable to export PDF. Please check console for details.'']"
      using run Rejected by (simp_all, subst e(1), simp)
    with False e(2) show ?thesis by (intro failed)
  next
    case Pending
    then have "r \<noteq> Fulfilled ()" by simp
    from pdf_continue_not_Fulfilled [OF c this] obtain evs where
      e: "w' = ?w0\<lparr> images := images w', trace := trace ?w0 @ evs \<rparr>" "unfinished env imgs evs"
      unfolding unfinished_def by auto
    have "exportingType w = Some Pdf" "in_flight w = [Stalled Pdf]" "trace w = evs"
      using run Pending by (simp_all, (subst e(1), simp)+)
    with False e(2) show ?thesis by (intro stalled)
  qed
qed

lemma run_Ppt_cases:
  fixes env imgs
  defines "w \<equiv> run_export Ppt env (page_loaded imgs)"
  obtains
    (empty) "sections env = []" "w = (page_loaded imgs)\<lparr> trace := [Alert ''No content found to export.''] \<rparr>"
  | (saved) pptx where "sections env \<noteq> []" "fonts_ready env = Fulfilled ()" "list_all settles imgs"
      "w = \<lparr> exportingType = None, images = prepared imgs,
             trace = [FontsReady, ImagesReady] @ capture_events (sections env)
                       @ [PptxWritten ''presentation.pptx'' pptx],
             in_flight = [] \<rparr>"
      "list_all2 (\<lambda>s slide. \<exists>img. ppt_section_image env s = Fulfilled img \<and> slide = [img])
                  (sections env) (slides pptx)"
  | (failed) e evs where "sections env \<noteq> []" "unfinished env imgs evs"
      "exportingType w = None" "in_flight w = []"
      "trace w = evs @ [ConsoleError ''PPT export failed'' e,
                        Alert ''Unable to export PPT. Please check console for details.'']"
  | (stalled) evs where "sections env \<noteq> []" "unfinished env imgs evs"
      "exportingType w = Some Ppt" "in_flight w = [Stalled Ppt]" "trace w = evs"
proof (cases "sections env = []")
  case True
  then have "w = (page_loaded imgs)\<lparr> trace := [Alert ''No content found to export.''] \<rparr>"
    by (simp add: w_def run_export_Ppt)
  with True show ?thesis by (rule empty)
next
  case False
  let ?w0 = "(page_loaded imgs)\<lparr> exportingType := Some Ppt, in_flight := [Awaiting Ppt] \<rparr>"
  obtain r w' where c: "ppt_continue env ?w0 = (r, w')" by (cases "ppt_continue env ?w0")
  have run: "w = (case (r, w') of
              (Fulfilled u, w') \<Rightarrow> w'\<lparr> exportingType := None, in_flight := [] \<rparr>
            | (Rejected e, w') \<Rightarrow>
                w'\<lparr> exportingType := None,
                    trace := trace w' @ [ConsoleError ''PPT export failed'' e,
                               Alert ''Unable to export PPT. Please check console for details.''],
                    in_flight := [] \<rparr>
            | (Pending, w') \<Rightarrow> w'\<lparr> in_flight := [Stalled Ppt] \<rparr>)"
    using False c by (simp add: w_def run_export_Ppt)
  show ?thesis
  proof (cases r)
    case (Fulfilled u)
    from ppt_continue_Fulfilled [OF c [unfolded Fulfilled]] False obtain pptx where
      p: "fonts_ready env = Fulfilled ()" "list_all settles imgs"
         "w' = ?w0\<lparr> images := prepared imgs,
                       trace := [FontsReady, ImagesReady] @ capture_events (sections env)
                                   @ [PptxWritten ''presentation.pptx'' pptx] \<rparr>"
         "list_all2 (\<lambda>s slide. \<exists>img. ppt_section_image env s = Fulfilled img \<and> slide = [img])
                  (sections env) (slides pptx)"
      by auto
    have "w = \<lparr> exportingType = None, images = prepared imgs,
             trace = [FontsReady, ImagesReady] @ capture_events (sections env)
                       @ [PptxWritten ''presentation.pptx'' pptx],
             in_flight = [] \<rparr>"
      using run Fulfilled p(3) by (simp add: page_loaded_def)
    with False p show ?thesis by (intro saved)
  next
    case (Rejected e)
    then have "r \<noteq> Fulfilled ()" by simp
    from ppt_continue_not_Fulfilled [OF c this] obtain evs where
      e: "w' = ?w0\<lparr> images := images w', trace := trace ?w0 @ evs \<rparr>" "unfinished env imgs evs"
      unfolding unfinished_def by auto
    have "exportingType w = None" "in_flight w = []"
         "trace w = evs @ [ConsoleError ''PPT export failed'' e,
                        Alert ''Unable to export PPT. Please check console for details.'']"
      using run Rejected by (simp_all, subst e(1), simp)
    with False e(2) show ?thesis by (intro failed)
  next
    case Pending
    then have "r \<noteq> Fulfilled ()" by simp
    from ppt_continue_not_Fulfilled [OF c this] obtain evs where
      e: "w' = ?w0\<lparr> images := images w', trace := trace ?w0 @ evs \<rparr>" "unfinished env imgs evs"
      unfolding unfinished_def by auto
    have "exportingType w = Some Ppt" "in_flight w = [Stalled Ppt]" "trace w = evs"
      using run Pending by (simp_all, (subst e(1), simp)+)
    with False e(2) show ?thesis by (intro stalled)
  qed
qed


lemma written_deck_images:
  assumes m: "PptxWritten fileName pptx \<in> set (trace (run_export Ppt env (page_loaded imgs)))"
  shows "list_all2
           (\<lambda>s slide. \<exists>img. ppt_section_image env s = Fulfilled img \<and> slide = [img])
           (sections env) (slides pptx)"
proof (cases rule: run_Ppt_cases [of env imgs])
  case empty
  with m show ?thesis by (simp add: page_loaded_def)
next
  case (saved pptx')
  with m have "pptx = pptx'" by (auto simp: capture_events_def)
  with saved(5) show ?thesis by simp
next
  case (failed e evs)
  with m have "PptxWritten fileName pptx \<in> set evs" by simp
  from unfinished_not_file [OF failed(2) this] show ?thesis by simp
next
  case (stalled evs)
  with m have "PptxWritten fileName pptx \<in> set evs" by simp
  from unfinished_not_file [OF stalled(2) this] show ?thesis by simp
qed

text \<open>What the spec's sizing makes of a section: the bitmap of its width and height times the scale.\<close>

lemma html2canvas_spec_eq:
  "html2canvas_spec s (capture_options s) =
     Fulfilled \<lparr> canvas_width = jmul (sectionWidth s) (scale s),
                 canvas_height = jmul (sectionHeight s) (scale s), source = node s \<rparr>"
  by (simp add: html2canvas_spec_def capture_options_def)


lemma run_Pdf_success:
  assumes "cooperative env" and "list_all settles imgs" and "sections env \<noteq> []"
  shows "\<exists>pdf. run_export Pdf env (page_loaded imgs) =
           \<lparr> exportingType = None, images = prepared imgs,
             trace = [FontsReady, ImagesReady] @ capture_events (sections env)
                       @ [PdfSaved ''presentation.pdf'' pdf],
             in_flight = [] \<rparr>"
proof -
  let ?w0 = "(page_loaded imgs)\<lparr> exportingType := Some Pdf, in_flight := [Awaiting Pdf] \<rparr>"
  obtain r w' where c: "pdf_continue env ?w0 = (r, w')" by (cases "pdf_continue env ?w0")
  have "fst (pdf_continue env ?w0) = Fulfilled ()"
    using assms(1,2) by (intro pdf_continue_succeeds) (simp_all add: cooperative_def)
  with c have r: "r = Fulfilled ()" by simp
  from pdf_continue_Fulfilled [OF c [unfolded r]] obtain pdf where
    "w' = ?w0\<lparr> images := prepared imgs,
                 trace := [FontsReady, ImagesReady] @ capture_events (sections env)
                            @ [PdfSaved ''presentation.pdf'' pdf] \<rparr>"
    by auto
  then have "run_export Pdf env (page_loaded imgs) =
           \<lparr> exportingType = None, images = prepared imgs,
             trace = [FontsReady, ImagesReady] @ capture_events (sections env)
                       @ [PdfSaved ''presentation.pdf'' pdf],
             in_flight = [] \<rparr>"
    using assms(3) c r by (simp add: run_export_Pdf page_loaded_def)
  then show ?thesis ..
qed

lemma run_Ppt_success:
  assumes "cooperative env" and "list_all settles imgs" and "sections env \<noteq> []"
  shows "\<exists>pptx. run_export Ppt env (page_loaded imgs) =
           \<lparr> exportingType = None, images = prepared imgs,
             trace = [FontsReady, ImagesReady] @ capture_events (sections env)
                       @ [PptxWritten ''presentation.pptx'' pptx],
             in_flight = [] \<rparr>"
proof -
  let ?w0 = "(page_loaded imgs)\<lparr> exportingType := Some Ppt, in_flight := [Awaiting Ppt] \<rparr>"
  obtain r w' where c: "ppt_continue env ?w0 = (r, w')" by (cases "ppt_continue env ?w0")
  have "fst (ppt_continue env ?w0) = Fulfilled ()"
    using assms(1,2) by (intro ppt_continue_succeeds) (simp_all add: cooperative_def)
  with c have r: "r = Fulfilled ()" by simp
  from ppt_continue_Fulfilled [OF c [unfolded r]] obtain pptx where
    "w' = ?w0\<lparr> images := prepared imgs,
                 trace := [FontsReady, ImagesReady] @ capture_events (sections env)
                            @ [PptxWritten ''presentation.pptx'' pptx] \<rparr>"
    by auto
  then have "run_export Ppt env (page_loaded imgs) =
           \<lparr> exportingType = None, images = prepared imgs,
             trace = [FontsReady, ImagesReady] @ capture_events (sections env)
                       @ [PptxWritten ''presentation.pptx'' pptx],
             in_flight = [] \<rparr>"
    using assms(3) c r by (simp add: run_export_Ppt page_loaded_def)
  then show ?thesis ..
qed

text \<open>
  What a whole export, started on the page as loaded, leaves behind: no file and no error;
  or one file, the last effect, with one page or slide per section, every section captured,
  and no error; or an error, caught and reported, and no file.
\<close>

lemma run_outcomes:
  fixes env imgs k
  defines "w \<equiv> run_export k env (page_loaded imgs)"
  shows "(files_written w = [] \<and> (\<forall>msg e. ConsoleError msg e \<notin> set (trace w)))
       \<or> (\<forall>msg e. ConsoleError msg e \<notin> set (trace w))
           \<and> (\<forall>s\<in>set (sections env). \<exists>c d. html2canvas env s (capture_options s) = Fulfilled c
                                               \<and> toDataURL env c = Inr d)
           \<and> ((\<exists>pdf. k = Pdf \<and> files_written w = [PdfSaved ''presentation.pdf'' pdf]
                      \<and> last (trace w) = PdfSaved ''presentation.pdf'' pdf
                      \<and> length (pdf_pages pdf) = length (sections env))
               \<or> (\<exists>pptx. k = Ppt \<and> files_written w = [PptxWritten ''presentation.pptx'' pptx]
                      \<and> last (trace w) = PptxWritten ''presentation.pptx'' pptx
                      \<and> length (slides pptx) = length (sections env)))
       \<or> (files_written w = [] \<and> (\<exists>msg e. ConsoleError msg e \<in> set (trace w)))"
proof (cases k)
  case Pdf
  show ?thesis
  proof (cases rule: run_Pdf_cases [of env imgs])
    case empty
    with Pdf show ?thesis by (simp add: w_def files_written_def)
  next
    case (saved pdf)
    have "\<forall>s\<in>set (sections env). \<exists>c d. html2canvas env s (capture_options s) = Fulfilled c
                                               \<and> toDataURL env c = Inr d"
      using list_all2_left [OF saved(5)] pdf_section_image_Fulfilled by blast
    moreover have "length (pdf_pages pdf) = length (sections env)"
      using saved(5) by (simp add: list_all2_lengthD)
    moreover have "\<forall>msg e. ConsoleError msg e \<notin> set (trace w)"
      using saved(4) Pdf by (auto simp: w_def capture_events_def)
    moreover have "files_written w = [PdfSaved ''presentation.pdf'' pdf]"
      "last (trace w) = PdfSaved ''presentation.pdf'' pdf"
      using saved(4) Pdf by (simp_all add: w_def files_written_def)
    ultimately show ?thesis using Pdf by blast
  next
    case (failed e evs)
    with Pdf unfinished_no_file [OF failed(2)] show ?thesis
      by (auto simp: w_def files_written_def)
  next
    case (stalled evs)
    with Pdf unfinished_no_file [OF stalled(2)] unfinished_no_error [OF stalled(2)] show ?thesis
      by (auto simp: w_def files_written_def)
  qed
next
  case Ppt
  show ?thesis
  proof (cases rule: run_Ppt_cases [of env imgs])
    case empty
    with Ppt show ?thesis by (simp add: w_def files_written_def)
  next
    case (saved pptx)
    have "\<forall>s\<in>set (sections env). \<exists>c d. html2canvas env s (capture_options s) = Fulfilled c
                                               \<and> toDataURL env c = Inr d"
      using list_all2_left [OF saved(5)] ppt_section_image_Fulfilled by blast
    moreover have "length (slides pptx) = length (sections env)"
      using saved(5) by (simp add: list_all2_lengthD)
    moreover have "\<forall>msg e. ConsoleError msg e \<notin> set (trace w)"
      using saved(4) Ppt by (auto simp: w_def capture_events_def)
    moreover have "files_written w = [PptxWritten ''presentation.pptx'' pptx]"
      "last (trace w) = PptxWritten ''presentation.pptx'' pptx"
      using saved(4) Ppt by (simp_all add: w_def files_written_def)
    ultimately show ?thesis using Ppt by blast
  next
    case (failed e evs)
    with Ppt unfinished_no_file [OF failed(2)] show ?thesis
      by (auto simp: w_def files_written_def)
  next
    case (stalled evs)
    with Ppt unfinished_no_file [OF stalled(2)] unfinished_no_error [OF stalled(2)] show ?thesis
      by (auto simp: w_def files_written_def)
  qed
qed

lemma gate_prefix:
  assumes "[FontsReady, ImagesReady] @ rest = pre @ Html2canvas s opts # post"
  shows "take 2 pre = [FontsReady, ImagesReady]"
proof (cases pre)
  case Nil
  with assms show ?thesis by simp
next
  case (Cons a pre')
  show ?thesis
  proof (cases pre')
    case Nil
    with Cons assms show ?thesis by simp
  next
    case (Cons b pre'')
    with \<open>pre = a # pre'\<close> assms show ?thesis by simp
  qed
qed

text \<open>
  In an export started on the page as loaded, every call of \<^verbatim>\<open>html2canvas\<close> comes after the
  resumption from the wait for the fonts and after the resumption from the wait for the
  images, in this order; the fonts were then ready and the promise of every image had
  resolved.
\<close>

lemma capture_after_gate:
  assumes "trace (run_export k env (page_loaded imgs)) = pre @ Html2canvas s opts # post"
  shows "take 2 pre = [FontsReady, ImagesReady] \<and> fonts_ready env = Fulfilled ()
       \<and> list_all settles imgs"
proof -
  let ?w = "run_export k env (page_loaded imgs)"
  have m: "Html2canvas s opts \<in> set (trace ?w)" using assms by simp
  have u: "take 2 pre = [FontsReady, ImagesReady] \<and> fonts_ready env = Fulfilled ()
       \<and> list_all settles imgs"
    if un: "unfinished env imgs evs" and tr: "evs @ extra = pre @ Html2canvas s opts # post"
      and ex: "Html2canvas s opts \<notin> set extra" for evs extra
  proof -
    from tr ex have "Html2canvas s opts \<in> set evs"
      by (metis Un_iff in_set_conv_decomp set_append)
    with un obtain j where
      j: "evs = [FontsReady, ImagesReady] @ capture_events (take j (sections env))"
         "fonts_ready env = Fulfilled ()" "list_all settles imgs"
      by (auto simp: unfinished_def)
    from j(1) tr have "[FontsReady, ImagesReady] @ (capture_events (take j (sections env)) @ extra)
        = pre @ Html2canvas s opts # post" by simp
    from gate_prefix [OF this] j(2,3) show ?thesis by simp
  qed
  show ?thesis
  proof (cases k)
    case Pdf
    show ?thesis
    proof (cases rule: run_Pdf_cases [of env imgs])
      case empty
      with m Pdf show ?thesis by simp
    next
      case (saved pdf)
      with assms Pdf have "[FontsReady, ImagesReady] @ (capture_events (sections env)
                @ [PdfSaved ''presentation.pdf'' pdf]) = pre @ Html2canvas s opts # post"
        by simp
      from gate_prefix [OF this] saved(2,3) show ?thesis by simp
    next
      case (failed e evs)
      with assms Pdf show ?thesis by (intro u [OF failed(2)]) auto
    next
      case (stalled evs)
      with assms Pdf show ?thesis by (intro u [OF stalled(2), of "[]"]) auto
    qed
  next
    case Ppt
    show ?thesis
    proof (cases rule: run_Ppt_cases [of env imgs])
      case empty
      with m Ppt show ?thesis by simp
    next
      case (saved pptx)
      with assms Ppt have "[FontsReady, ImagesReady] @ (capture_events (sections env)
                @ [PptxWritten ''presentation.pptx'' pptx]) = pre @ Html2canvas s opts # post"
        by simp
      from gate_prefix [OF this] saved(2,3) show ?thesis by simp
    next
      case (failed e evs)
      with assms Ppt show ?thesis by (intro u [OF failed(2)]) auto
    next
      case (stalled evs)
      with assms Ppt show ?thesis by (intro u [OF stalled(2), of "[]"]) auto
    qed
  qed
qed

lemma after_fields [simp]:
  "exportingType (after t w) = exportingType w"
  "images (after t w) = images w"
  "in_flight (after t w) = in_flight w"
  "trace (after t w) = t @ trace w"
  by (simp_all add: after_def)

lemma emit_after: "emit ev (after t w) = after t (emit ev w)"
  by (simp add: emit_def after_def)

lemma pdf_loop_after:
  "pdf_loop env pw ph m i secs pdf (after t w) =
     (case pdf_loop env pw ph m i secs pdf w of (r, w') \<Rightarrow> (r, after t w'))"
  by (induction secs arbitrary: i pdf w)
     (simp_all add: Let_def emit_after split: awaited.splits sum.splits)

lemma ppt_loop_after:
  "ppt_loop env secs pptx (after t w) =
     (case ppt_loop env secs pptx w of (r, w') \<Rightarrow> (r, after t w'))"
  by (induction secs arbitrary: pptx w)
     (simp_all add: Let_def emit_after split: awaited.splits sum.splits prod.splits)

lemma readiness_gate_after:
  "readiness_gate env (after t w) =
     (case readiness_gate env w of (r, w') \<Rightarrow> (r, after t w'))"
  by (simp add: readiness_gate_eq after_def split: awaited.splits)

lemma pdf_assemble_after:
  "pdf_assemble env (after t w) = (case pdf_assemble env w of (r, w') \<Rightarrow> (r, after t w'))"
  by (simp add: pdf_assemble_def Let_def pdf_loop_after jsPDF_save_def emit_after
        split: sum.splits prod.splits awaited.splits option.splits)

lemma ppt_assemble_after:
  "ppt_assemble env (after t w) = (case ppt_assemble env w of (r, w') \<Rightarrow> (r, after t w'))"
  by (simp add: ppt_assemble_def Let_def ppt_loop_after emit_after
        split: sum.splits prod.splits awaited.splits)

lemma pdf_continue_after:
  "pdf_continue env (after t w) = (case pdf_continue env w of (r, w') \<Rightarrow> (r, after t w'))"
  by (simp add: pdf_continue_def readiness_gate_after pdf_assemble_after
        split: prod.splits awaited.splits)

lemma ppt_continue_after:
  "ppt_continue env (after t w) = (case ppt_continue env w of (r, w') \<Rightarrow> (r, after t w'))"
  by (simp add: ppt_continue_def readiness_gate_after ppt_assemble_after
        split: prod.splits awaited.splits)

lemma start_after: "start k env (after t w) = after t (start k env w)"
  by (cases k)
     (simp_all add: start_def exportToPdf_def exportToPpt_def isExporting_def Let_def
        setExportingType_def alert_def emit_def suspend_def after_def)

lemma exportToPdf_resume_after:
  "exportToPdf_resume env n (after t w) = after t (exportToPdf_resume env n w)"
proof -
  obtain r w' where c: "pdf_continue env w = (r, w')" by (cases "pdf_continue env w")
  then have "pdf_continue env (after t w) = (r, after t w')" by (simp add: pdf_continue_after)
  with c show ?thesis
    by (cases r)
       (simp_all add: exportToPdf_resume_def settle_def stall_def setExportingType_def alert_def
          console_error_def emit_def after_def)
qed

lemma exportToPpt_resume_after:
  "exportToPpt_resume env n (after t w) = after t (exportToPpt_resume env n w)"
proof -
  obtain r w' where c: "ppt_continue env w = (r, w')" by (cases "ppt_continue env w")
  then have "ppt_continue env (after t w) = (r, after t w')" by (simp add: ppt_continue_after)
  with c show ?thesis
    by (cases r)
       (simp_all add: exportToPpt_resume_def settle_def stall_def setExportingType_def alert_def
          console_error_def emit_def after_def)
qed

lemma resume_after: "resume env n (after t w) = after t (resume env n w)"
  by (simp add: resume_def exportToPdf_resume_after exportToPpt_resume_after
        split: job.splits export_kind.splits)

text \<open>
  An export started in any idle state does what it does on the page as loaded, with the same
  images, after the effects so far.
\<close>

lemma run_export_idle:
  assumes "exportingType w = None" and "in_flight w = []"
  shows "run_export k env w = after (trace w) (run_export k env (page_loaded (images w)))"
proof -
  have "w = after (trace w) (page_loaded (images w))"
    using assms by (simp add: after_def page_loaded_def)
  then have "run_export k env w = run_export k env (after (trace w) (page_loaded (images w)))"
    by simp
  also have "\<dots> = after (trace w) (run_export k env (page_loaded (images w)))"
    by (simp add: run_export_def start_after resume_after)
  finally show ?thesis .
qed

section \<open>The example pages, evaluated\<close>

lemma demo_cooperative: "cooperative demo_browser"
  by (simp add: cooperative_def demo_browser_def html2canvas_spec_def)

lemma demo_images_settle: "list_all settles demo_images"
  by (simp add: demo_images_def settles_def)

lemma demo_sections_nonempty: "sections demo_browser \<noteq> []"
  by (simp add: demo_browser_def demo_sections_def)

lemma demo_trace:
  "\<exists>pdf. trace (run_export Pdf demo_browser (page_loaded demo_images)) =
     [FontsReady, ImagesReady] @ capture_events demo_sections @ [PdfSaved ''presentation.pdf'' pdf]"
proof -
  from run_Pdf_success [OF demo_cooperative demo_images_settle demo_sections_nonempty]
  obtain pdf where "run_export Pdf demo_browser (page_loaded demo_images) =
           \<lparr> exportingType = None, images = prepared demo_images,
             trace = [FontsReady, ImagesReady] @ capture_events (sections demo_browser)
                       @ [PdfSaved ''presentation.pdf'' pdf],
             in_flight = [] \<rparr>" by blast
  then show ?thesis by (simp add: demo_browser_def)
qed

lemma demo_ppt_trace:
  "\<exists>pptx. trace (run_export Ppt demo_browser (page_loaded demo_images)) =
     [FontsReady, ImagesReady] @ capture_events demo_sections
       @ [PptxWritten ''presentation.pptx'' pptx]"
proof -
  from run_Ppt_success [OF demo_cooperative demo_images_settle demo_sections_nonempty]
  obtain pptx where "run_export Ppt demo_browser (page_loaded demo_images) =
           \<lparr> exportingType = None, images = prepared demo_images,
             trace = [FontsReady, ImagesReady] @ capture_events (sections demo_browser)
                       @ [PptxWritten ''presentation.pptx'' pptx],
             in_flight = [] \<rparr>" by blast
  then show ?thesis by (simp add: demo_browser_def)
qed

lemma demo_pdf_images:
  "pdf_section_image demo_browser (Fin 20) (Fin (45 / 4)) (Fin 0)
     \<lparr> node = 0, scrollWidth = 1600, offsetWidth = 1600, scrollHeight = 900, offsetHeight = 900 \<rparr>
     = Fulfilled \<lparr> pdf_data = ''data:image/png;'', pdf_format = ''PNG'',
                   pdf_geo = \<lparr> geo_x = Fin 0, geo_y = Fin 0, geo_w = Fin 20, geo_h = Fin (45 / 4) \<rparr> \<rparr>"
  "pdf_section_image demo_browser (Fin 20) (Fin (45 / 4)) (Fin 0)
     \<lparr> node = 1, scrollWidth = 800, offsetWidth = 800, scrollHeight = 1200, offsetHeight = 1200 \<rparr>
     = Fulfilled \<lparr> pdf_data = ''data:image/png;#'', pdf_format = ''PNG'',
                   pdf_geo = \<lparr> geo_x = Fin 0, geo_y = Fin 0,
                               geo_w = Fin (8444249301319679 / 1125899906842624),
                               geo_h = Fin (45 / 4) \<rparr> \<rparr>"
  "pdf_section_image demo_browser (Fin 20) (Fin (45 / 4)) (Fin 0)
     \<lparr> node = 2, scrollWidth = 3200, offsetWidth = 3200, scrollHeight = 900, offsetHeight = 900 \<rparr>
     = Fulfilled \<lparr> pdf_data = ''data:image/png;##'', pdf_format = ''PNG'',
                   pdf_geo = \<lparr> geo_x = Fin 0, geo_y = Fin 0, geo_w = Fin 20, geo_h = Fin (45 / 8) \<rparr> \<rparr>"
  by (simp_all add: pdf_section_image_def demo_browser_def html2canvas_spec_def capture_options_def
        scale_eq sectionWidth_eq sectionHeight_eq num_def pdf_fit_def pdf_ratio_def jmin_Fin
        fl_eval numeral_2_eq_2)

lemma demo_ppt_images:
  "ppt_section_image demo_browser
     \<lparr> node = 0, scrollWidth = 1600, offsetWidth = 1600, scrollHeight = 900, offsetHeight = 900 \<rparr>
     = Fulfilled \<lparr> slide_data = ''data:image/png;'',
                   slide_geo = \<lparr> geo_x = Fin 0, geo_y = Fin 0, geo_w = Fin 10, geo_h = Fin (45 / 8) \<rparr> \<rparr>"
  "ppt_section_image demo_browser
     \<lparr> node = 1, scrollWidth = 800, offsetWidth = 800, scrollHeight = 1200, offsetHeight = 1200 \<rparr>
     = Fulfilled \<lparr> slide_data = ''data:image/png;#'',
                   slide_geo = \<lparr> geo_x = Fin (7036874417766401 / 2251799813685248), geo_y = Fin 0,
                                 geo_w = Fin (4222124650659839 / 1125899906842624),
                                 geo_h = Fin (45 / 8) \<rparr> \<rparr>"
  "ppt_section_image demo_browser
     \<lparr> node = 2, scrollWidth = 3200, offsetWidth = 3200, scrollHeight = 900, offsetHeight = 900 \<rparr>
     = Fulfilled \<lparr> slide_data = ''data:image/png;##'',
                   slide_geo = \<lparr> geo_x = Fin 0, geo_y = Fin (45 / 32), geo_w = Fin 10, geo_h = Fin (45 / 16) \<rparr> \<rparr>"
  by (simp_all add: ppt_section_image_def demo_browser_def html2canvas_spec_def capture_options_def
        scale_eq sectionWidth_eq sectionHeight_eq num_def ppt_fit_def ppt_ratio_def jmin_Fin
        pxToIn_def slideWidth_def slideHeight_def fl_eval numeral_2_eq_2)

lemma demo_marks: "replicate 1 CHR ''#'' = ''#''" "replicate 2 CHR ''#'' = ''##''"
  by (simp_all add: numeral_2_eq_2)


lemma demo_slide_of_call:
  "(\<exists>c d. html2canvas demo_browser s (capture_options s) = Fulfilled c
          \<and> toDataURL demo_browser c = Inr d
          \<and> slide = [\<lparr> slide_data = d, slide_geo = ppt_fit c \<rparr>])
   = (slide = [\<lparr> slide_data = ''data:image/png;'' @ replicate (node s) CHR ''#'',
                   slide_geo = ppt_fit
                              \<lparr> canvas_width = jmul (sectionWidth s) (scale s),
                   canvas_height = jmul (sectionHeight s) (scale s), source = node s \<rparr> \<rparr>])"
  by (auto simp: demo_browser_def html2canvas_spec_eq)


lemma demo_ppt_fits:
  "ppt_fit
     \<lparr> canvas_width = jmul (sectionWidth
         \<lparr> node = 0, scrollWidth = 1600, offsetWidth = 1600, scrollHeight = 900, offsetHeight = 900 \<rparr>)
        (scale \<lparr> node = 0, scrollWidth = 1600, offsetWidth = 1600, scrollHeight = 900, offsetHeight = 900 \<rparr>),
       canvas_height = jmul (sectionHeight
         \<lparr> node = 0, scrollWidth = 1600, offsetWidth = 1600, scrollHeight = 900, offsetHeight = 900 \<rparr>)
        (scale \<lparr> node = 0, scrollWidth = 1600, offsetWidth = 1600, scrollHeight = 900, offsetHeight = 900 \<rparr>),
       source = 0 \<rparr>
   = \<lparr> geo_x = Fin 0, geo_y = Fin 0, geo_w = Fin 10, geo_h = Fin (45 / 8) \<rparr>"
  "ppt_fit
     \<lparr> canvas_width = jmul (sectionWidth
         \<lparr> node = 1, scrollWidth = 800, offsetWidth = 800, scrollHeight = 1200, offsetHeight = 1200 \<rparr>)
        (scale \<lparr> node = 1, scrollWidth = 800, offsetWidth = 800, scrollHeight = 1200, offsetHeight = 1200 \<rparr>),
       canvas_height = jmul (sectionHeight
         \<lparr> node = 1, scrollWidth = 800, offsetWidth = 800, scrollHeight = 1200, offsetHeight = 1200 \<rparr>)
        (scale \<lparr> node = 1, scrollWidth = 800, offsetWidth = 800, scrollHeight = 1200, offsetHeight = 1200 \<rparr>),
       source = 1 \<rparr>
   = \<lparr> geo_x = Fin (7036874417766401 / 2251799813685248), geo_y = Fin 0,
         geo_w = Fin (4222124650659839 / 1125899906842624), geo_h = Fin (45 / 8) \<rparr>"
  "ppt_fit
     \<lparr> canvas_width = jmul (sectionWidth
         \<lparr> node = 2, scrollWidth = 3200, offsetWidth = 3200, scrollHeight = 900, offsetHeight = 900 \<rparr>)
        (scale \<lparr> node = 2, scrollWidth = 3200, offsetWidth = 3200, scrollHeight = 900, offsetHeight = 900 \<rparr>),
       canvas_height = jmul (sectionHeight
         \<lparr> node = 2, scrollWidth = 3200, offsetWidth = 3200, scrollHeight = 900, offsetHeight = 900 \<rparr>)
        (scale \<lparr> node = 2, scrollWidth = 3200, offsetWidth = 3200, scrollHeight = 900, offsetHeight = 900 \<rparr>),
       source = 2 \<rparr>
   = \<lparr> geo_x = Fin 0, geo_y = Fin (45 / 32), geo_w = Fin 10, geo_h = Fin (45 / 16) \<rparr>"
  by (simp_all add: scale_eq sectionWidth_eq sectionHeight_eq num_def ppt_fit_def ppt_ratio_def
        jmin_Fin pxToIn_def slideWidth_def slideHeight_def fl_eval)

lemmas run_defs = run_export_def start_def exportToPdf_def exportToPpt_def isExporting_def
  setExportingType_def suspend_def settle_def stall_def resume_def exportToPdf_resume_def
  exportToPpt_resume_def pdf_continue_def ppt_continue_def readiness_gate_eq pdf_assemble_def
  ppt_assemble_def new_jsPDF_def new_PptxGenJS_def getWidth_def getHeight_def
  jsPDF_addPage_def jsPDF_addImage_def jsPDF_save_def pptx_addSlide_def slide_addImage_def
  pdf_section_image_def ppt_section_image_def alert_def console_error_def emit_def
  page_loaded_def Let_def

lemma tainted_pdf_run:
  "run_export Pdf tainted_browser (page_loaded []) =
   \<lparr> exportingType = None, images = [],
     trace = [FontsReady, ImagesReady] @ capture_events (take 4 five_sections)
              @ [ConsoleError ''PDF export failed'' (JsError ''SecurityError''),
                 Alert ''Unable to export PDF. Please check console for details.''],
     in_flight = [] \<rparr>"
  by (simp add: run_defs tainted_browser_def demo_browser_def five_sections_def
        html2canvas_spec_def capture_events_def prepared_def)

lemma tainted_ppt_run:
  "run_export Ppt tainted_browser (page_loaded []) =
   \<lparr> exportingType = None, images = [],
     trace = [FontsReady, ImagesReady] @ capture_events (take 4 five_sections)
              @ [ConsoleError ''PPT export failed'' (JsError ''SecurityError''),
                 Alert ''Unable to export PPT. Please check console for details.''],
     in_flight = [] \<rparr>"
  by (simp add: run_defs tainted_browser_def demo_browser_def five_sections_def
        html2canvas_spec_def capture_events_def prepared_def)

lemma tainted_pdf_continue:
  "fst (continue_of Pdf tainted_browser (start Pdf tainted_browser (page_loaded [])))
     = Rejected (JsError ''SecurityError'')"
  by (simp add: continue_of_def run_defs tainted_browser_def demo_browser_def five_sections_def
        html2canvas_spec_def capture_events_def prepared_def)

section \<open>The claims\<close>

text \<open>
  Claim C1. For a non-empty list of \<open>N\<close> sections, every document the paginated export
  saves has exactly \<open>N\<close> pages and every deck the deck export writes has exactly \<open>N\<close>
  slides; page or slide number \<open>i\<close> holds one image, that of section number \<open>i\<close>, so the
  first section is on the initial page and each later one on a page appended for it. In a
  browser where nothing fails or stalls, each export does write its one file.
\<close>

theorem one_page_or_slide_per_section:
  assumes "sections env \<noteq> []"
  shows "(\<forall>fileName pdf.
            PdfSaved fileName pdf \<in> set (trace (run_export Pdf env (page_loaded imgs))) \<longrightarrow>
              length (pdf_pages pdf) = length (sections env)
              \<and> list_all2 (\<lambda>s page. \<exists>img. pdf_section_image env (Fin 20) (Fin (45 / 4)) (Fin 0) s
                                               = Fulfilled img \<and> page = [img])
                   (sections env) (pdf_pages pdf))
       \<and> (\<forall>fileName pptx.
            PptxWritten fileName pptx \<in> set (trace (run_export Ppt env (page_loaded imgs))) \<longrightarrow>
              length (slides pptx) = length (sections env)
              \<and> list_all2 (\<lambda>s slide. \<exists>img. ppt_section_image env s = Fulfilled img \<and> slide = [img])
                   (sections env) (slides pptx))
       \<and> (cooperative env \<and> list_all settles imgs \<longrightarrow>
            (\<exists>pdf. files_written (run_export Pdf env (page_loaded imgs))
                      = [PdfSaved ''presentation.pdf'' pdf])
            \<and> (\<exists>pptx. files_written (run_export Ppt env (page_loaded imgs))
                      = [PptxWritten ''presentation.pptx'' pptx]))"
proof -
  have pdf: "length (pdf_pages pdf) = length (sections env)
              \<and> list_all2 (\<lambda>s page. \<exists>img. pdf_section_image env (Fin 20) (Fin (45 / 4)) (Fin 0) s
                                               = Fulfilled img \<and> page = [img])
                   (sections env) (pdf_pages pdf)"
    if m: "PdfSaved fileName pdf \<in> set (trace (run_export Pdf env (page_loaded imgs)))"
    for fileName pdf
  proof (cases rule: run_Pdf_cases [of env imgs])
    case empty
    with assms show ?thesis by simp
  next
    case (saved pdf')
    with m have "pdf = pdf'" by (auto simp: capture_events_def)
    with saved(5) show ?thesis by (simp add: list_all2_lengthD)
  next
    case (failed e evs)
    with m have "PdfSaved fileName pdf \<in> set evs" by simp
    from unfinished_not_file [OF failed(2) this] show ?thesis by simp
  next
    case (stalled evs)
    with m have "PdfSaved fileName pdf \<in> set evs" by simp
    from unfinished_not_file [OF stalled(2) this] show ?thesis by simp
  qed
  have ppt: "length (slides pptx) = length (sections env)
              \<and> list_all2 (\<lambda>s slide. \<exists>img. ppt_section_image env s = Fulfilled img \<and> slide = [img])
                   (sections env) (slides pptx)"
    if m: "PptxWritten fileName pptx \<in> set (trace (run_export Ppt env (page_loaded imgs)))"
    for fileName pptx
  proof (cases rule: run_Ppt_cases [of env imgs])
    case empty
    with assms show ?thesis by simp
  next
    case (saved pptx')
    with m have "pptx = pptx'" by (auto simp: capture_events_def)
    with saved(5) show ?thesis by (simp add: list_all2_lengthD)
  next
    case (failed e evs)
    with m have "PptxWritten fileName pptx \<in> set evs" by simp
    from unfinished_not_file [OF failed(2) this] show ?thesis by simp
  next
    case (stalled evs)
    with m have "PptxWritten fileName pptx \<in> set evs" by simp
    from unfinished_not_file [OF stalled(2) this] show ?thesis by simp
  qed
  have ok: "(\<exists>pdf. files_written (run_export Pdf env (page_loaded imgs))
                      = [PdfSaved ''presentation.pdf'' pdf])
            \<and> (\<exists>pptx. files_written (run_export Ppt env (page_loaded imgs))
                      = [PptxWritten ''presentation.pptx'' pptx])"
    if c: "cooperative env" "list_all settles imgs"
  proof -
    from run_Pdf_success [OF c assms] obtain pdf where
      "run_export Pdf env (page_loaded imgs) =
           \<lparr> exportingType = None, images = prepared imgs,
             trace = [FontsReady, ImagesReady] @ capture_events (sections env)
                       @ [PdfSaved ''presentation.pdf'' pdf],
             in_flight = [] \<rparr>" by blast
    then have 1: "files_written (run_export Pdf env (page_loaded imgs))
                      = [PdfSaved ''presentation.pdf'' pdf]"
      by (simp add: files_written_def)
    from run_Ppt_success [OF c assms] obtain pptx where
      "run_export Ppt env (page_loaded imgs) =
           \<lparr> exportingType = None, images = prepared imgs,
             trace = [FontsReady, ImagesReady] @ capture_events (sections env)
                       @ [PptxWritten ''presentation.pptx'' pptx],
             in_flight = [] \<rparr>" by blast
    then have 2: "files_written (run_export Ppt env (page_loaded imgs))
                      = [PptxWritten ''presentation.pptx'' pptx]"
      by (simp add: files_written_def)
    from 1 2 show ?thesis by blast
  qed
  from pdf ppt ok show ?thesis by blast
qed

theorem one_page_or_slide_per_section_witness:
  "sections demo_browser \<noteq> [] \<and> cooperative demo_browser \<and> list_all settles demo_images
   \<and> (\<exists>pdf. PdfSaved ''presentation.pdf'' pdf
                \<in> set (trace (run_export Pdf demo_browser (page_loaded demo_images)))
             \<and> pdf_pages pdf =
                 [[\<lparr> pdf_data = ''data:image/png;'', pdf_format = ''PNG'',
                     pdf_geo = \<lparr> geo_x = Fin 0, geo_y = Fin 0, geo_w = Fin 20,
                                 geo_h = Fin (45 / 4) \<rparr> \<rparr>],
                  [\<lparr> pdf_data = ''data:image/png;#'', pdf_format = ''PNG'',
                     pdf_geo = \<lparr> geo_x = Fin 0, geo_y = Fin 0,
                                 geo_w = Fin (8444249301319679 / 1125899906842624),
                                 geo_h = Fin (45 / 4) \<rparr> \<rparr>],
                  [\<lparr> pdf_data = ''data:image/png;##'', pdf_format = ''PNG'',
                     pdf_geo = \<lparr> geo_x = Fin 0, geo_y = Fin 0, geo_w = Fin 20,
                                 geo_h = Fin (45 / 8) \<rparr> \<rparr>]])
   \<and> (\<exists>pptx. PptxWritten ''presentation.pptx'' pptx
                \<in> set (trace (run_export Ppt demo_browser (page_loaded demo_images)))
             \<and> slides pptx =
                 [[\<lparr> slide_data = ''data:image/png;'',
                     slide_geo = \<lparr> geo_x = Fin 0, geo_y = Fin 0, geo_w = Fin 10,
                                   geo_h = Fin (45 / 8) \<rparr> \<rparr>],
                  [\<lparr> slide_data = ''data:image/png;#'',
                     slide_geo = \<lparr> geo_x = Fin (7036874417766401 / 2251799813685248),
                                   geo_y = Fin 0,
                                   geo_w = Fin (4222124650659839 / 1125899906842624),
                                   geo_h = Fin (45 / 8) \<rparr> \<rparr>],
                  [\<lparr> slide_data = ''data:image/png;##'',
                     slide_geo = \<lparr> geo_x = Fin 0, geo_y = Fin (45 / 32), geo_w = Fin 10,
                                   geo_h = Fin (45 / 16) \<rparr> \<rparr>]])"
proof -
  note T = one_page_or_slide_per_section [OF demo_sections_nonempty, of demo_images]
  from T demo_cooperative demo_images_settle obtain pdf pptx where
    fw: "files_written (run_export Pdf demo_browser (page_loaded demo_images))
           = [PdfSaved ''presentation.pdf'' pdf]"
        "files_written (run_export Ppt demo_browser (page_loaded demo_images))
           = [PptxWritten ''presentation.pptx'' pptx]"
    by blast
  have m1: "PdfSaved ''presentation.pdf'' pdf
              \<in> set (trace (run_export Pdf demo_browser (page_loaded demo_images)))"
    using fw(1) by (rule files_written_mem)
  have m2: "PptxWritten ''presentation.pptx'' pptx
              \<in> set (trace (run_export Ppt demo_browser (page_loaded demo_images)))"
    using fw(2) by (rule files_written_mem)
  from T m1 have "list_all2 (\<lambda>s page. \<exists>img. pdf_section_image demo_browser (Fin 20) (Fin (45 / 4)) (Fin 0) s
                                               = Fulfilled img \<and> page = [img])
                   (sections demo_browser) (pdf_pages pdf)" by blast
  then have p1: "pdf_pages pdf =
                 [[\<lparr> pdf_data = ''data:image/png;'', pdf_format = ''PNG'',
                     pdf_geo = \<lparr> geo_x = Fin 0, geo_y = Fin 0, geo_w = Fin 20,
                                 geo_h = Fin (45 / 4) \<rparr> \<rparr>],
                  [\<lparr> pdf_data = ''data:image/png;#'', pdf_format = ''PNG'',
                     pdf_geo = \<lparr> geo_x = Fin 0, geo_y = Fin 0,
                                 geo_w = Fin (8444249301319679 / 1125899906842624),
                                 geo_h = Fin (45 / 4) \<rparr> \<rparr>],
                  [\<lparr> pdf_data = ''data:image/png;##'', pdf_format = ''PNG'',
                     pdf_geo = \<lparr> geo_x = Fin 0, geo_y = Fin 0, geo_w = Fin 20,
                                 geo_h = Fin (45 / 8) \<rparr> \<rparr>]]"
    by (auto simp: list_all2_Cons1 demo_pdf_images demo_sections_def demo_browser_def [THEN arg_cong, of sections]
          simp del: One_nat_def)
  from T m2 have "list_all2 (\<lambda>s slide. \<exists>img. ppt_section_image demo_browser s = Fulfilled img \<and> slide = [img])
                   (sections demo_browser) (slides pptx)" by blast
  then have p2: "slides pptx =
                 [[\<lparr> slide_data = ''data:image/png;'',
                     slide_geo = \<lparr> geo_x = Fin 0, geo_y = Fin 0, geo_w = Fin 10,
                                   geo_h = Fin (45 / 8) \<rparr> \<rparr>],
                  [\<lparr> slide_data = ''data:image/png;#'',
                     slide_geo = \<lparr> geo_x = Fin (7036874417766401 / 2251799813685248),
                                   geo_y = Fin 0,
                                   geo_w = Fin (4222124650659839 / 1125899906842624),
                                   geo_h = Fin (45 / 8) \<rparr> \<rparr>],
                  [\<lparr> slide_data = ''data:image/png;##'',
                     slide_geo = \<lparr> geo_x = Fin 0, geo_y = Fin (45 / 32), geo_w = Fin 10,
                                   geo_h = Fin (45 / 16) \<rparr> \<rparr>]]"
    by (auto simp: list_all2_Cons1 demo_ppt_images demo_sections_def demo_browser_def [THEN arg_cong, of sections]
          simp del: One_nat_def)
  from demo_sections_nonempty demo_cooperative demo_images_settle m1 p1 m2 p2
  show ?thesis by blast
qed






text \<open>
  Claim C4. For every captured bitmap in the deck path, the pixel dimensions are divided by
  96, the ratio is \<open>min(10 / widthUnits, 5.625 / heightUnits)\<close>, the placed size is
  \<open>(w, h) = (widthUnits * ratio, heightUnits * ratio)\<close> and the position is
  \<open>x = (10 - w) / 2\<close>, \<open>y = (5.625 - h) / 2\<close>. For a bitmap of between 1 and \<open>2 ^ 32\<close> pixels
  each way these are finite numbers, each operation having rounded its result. This is the
  placement on the slides: slide number \<open>i\<close> of every deck the export writes holds one image,
  that of the bitmap captured for section number \<open>i\<close>, placed so; and the loop of lines
  161-203, when it goes through a list of sections, appends to the deck one such slide for
  each of them, in order.
\<close>

theorem ppt_placement_centred:
  "ppt_fit c =
     (let widthUnits = jdiv (canvas_width c) (Fin 96);
          heightUnits = jdiv (canvas_height c) (Fin 96);
          ratio = jmin (jdiv (Fin 10) widthUnits) (jdiv (Fin (45 / 8)) heightUnits);
          w = jmul widthUnits ratio;
          h = jmul heightUnits ratio
      in \<lparr> geo_x = jdiv (jsub (Fin 10) w) (Fin 2), geo_y = jdiv (jsub (Fin (45 / 8)) h) (Fin 2),
           geo_w = w, geo_h = h \<rparr>)
   \<and> (canvas_width c = Fin W \<and> canvas_height c = Fin H
        \<and> 1 \<le> W \<and> W \<le> 2 ^ 32 \<and> 1 \<le> H \<and> H \<le> 2 ^ 32 \<longrightarrow>
        (let widthUnits = fl (W / 96);
             heightUnits = fl (H / 96);
             ratio = min (fl (10 / widthUnits)) (fl ((45 / 8) / heightUnits));
             w = fl (widthUnits * ratio);
             h = fl (heightUnits * ratio)
         in ppt_ratio c = Fin ratio
            \<and> ppt_fit c = \<lparr> geo_x = Fin (fl (fl (10 - w) / 2)),
                            geo_y = Fin (fl (fl (45 / 8 - h) / 2)),
                            geo_w = Fin w, geo_h = Fin h \<rparr>
            \<and> 0 < w \<and> 0 < h))
   \<and> (html2canvas env s (capture_options s) = Fulfilled c \<and> toDataURL env c = Inr d \<longrightarrow>
        ppt_section_image env s = Fulfilled \<lparr> slide_data = d, slide_geo = ppt_fit c \<rparr>)
   \<and> (\<forall>fileName pptx.
          PptxWritten fileName pptx \<in> set (trace (run_export Ppt env (page_loaded imgs))) \<longrightarrow>
            list_all2
              (\<lambda>s' slide. \<exists>c' d'. html2canvas env s' (capture_options s') = Fulfilled c'
                               \<and> toDataURL env c' = Inr d'
                               \<and> slide = [\<lparr> slide_data = d', slide_geo = ppt_fit c' \<rparr>])
              (sections env) (slides pptx))
   \<and> (\<forall>deck' w'.
          ppt_loop env secs deck w0 = (Fulfilled deck', w') \<longrightarrow>
            (\<exists>new. slides deck' = slides deck @ new
               \<and> list_all2
                    (\<lambda>s' slide. \<exists>c' d'. html2canvas env s' (capture_options s') = Fulfilled c'
                               \<and> toDataURL env c' = Inr d'
                               \<and> slide = [\<lparr> slide_data = d', slide_geo = ppt_fit c' \<rparr>])
                    secs new))"
proof -
  have a: "ppt_fit c =
     (let widthUnits = jdiv (canvas_width c) (Fin 96);
          heightUnits = jdiv (canvas_height c) (Fin 96);
          ratio = jmin (jdiv (Fin 10) widthUnits) (jdiv (Fin (45 / 8)) heightUnits);
          w = jmul widthUnits ratio;
          h = jmul heightUnits ratio
      in \<lparr> geo_x = jdiv (jsub (Fin 10) w) (Fin 2), geo_y = jdiv (jsub (Fin (45 / 8)) h) (Fin 2),
           geo_w = w, geo_h = h \<rparr>)"
    by (simp only: ppt_fit_def ppt_ratio_def pxToIn_def slideWidth_def slideHeight_def Let_def)
  have b: "let widthUnits = fl (W / 96);
             heightUnits = fl (H / 96);
             ratio = min (fl (10 / widthUnits)) (fl ((45 / 8) / heightUnits));
             w = fl (widthUnits * ratio);
             h = fl (heightUnits * ratio)
         in ppt_ratio c = Fin ratio
            \<and> ppt_fit c = \<lparr> geo_x = Fin (fl (fl (10 - w) / 2)),
                            geo_y = Fin (fl (fl (45 / 8 - h) / 2)),
                            geo_w = Fin w, geo_h = Fin h \<rparr>
            \<and> 0 < w \<and> 0 < h"
    if h: "canvas_width c = Fin W" "canvas_height c = Fin H"
      "1 \<le> W" "W \<le> 2 ^ 32" "1 \<le> H" "H \<le> 2 ^ 32"
  proof -
    define wu where "wu = fl (W / 96)"
    define hu where "hu = fl (H / 96)"
    define r where "r = min (fl (10 / wu)) (fl ((45 / 8) / hu))"
    note pw = pixels_to_units [OF h(3,4), folded wu_def]
    note ph = pixels_to_units [OF h(5,6), folded hu_def]
    have P: "(1::rat) \<le> 10" "(10::rat) \<le> 32" and Q: "(1::rat) \<le> 45 / 8" "(45 / 8 :: rat) \<le> 32"
      by simp_all
    note F = fit_round [OF pw(2,3) ph(2,3) P Q, folded r_def]
    have e: "(1 + 1 / 2 ^ 53 :: rat)\<^sup>2 \<le> 2" by (simp add: power2_eq_square)
    have "fl (wu * r) \<le> 10 * (1 + 1 / 2 ^ 53)\<^sup>2" by (rule F(5))
    also have "\<dots> \<le> 10 * 2" using e by (intro mult_left_mono) simp_all
    finally have w64: "fl (wu * r) \<le> 64" by simp
    have "fl (hu * r) \<le> 45 / 8 * (1 + 1 / 2 ^ 53)\<^sup>2" by (rule F(7))
    also have "\<dots> \<le> 45 / 8 * 2" using e by (intro mult_left_mono) simp_all
    finally have h64: "fl (hu * r) \<le> 64" by simp
    have x: "jdiv (jsub (Fin 10) (Fin (fl (wu * r)))) (Fin 2) = Fin (fl (fl (10 - fl (wu * r)) / 2))"
      by (rule centre_round [OF F(4) w64]) simp_all
    have y: "jdiv (jsub (Fin (45 / 8)) (Fin (fl (hu * r)))) (Fin 2)
               = Fin (fl (fl (45 / 8 - fl (hu * r)) / 2))"
      by (rule centre_round [OF F(6) h64]) simp_all
    have rr: "ppt_ratio c = Fin r"
      by (simp only: ppt_ratio_def Let_def h(1,2) pw(1) ph(1) slideWidth_def slideHeight_def F(1))
    have f: "ppt_fit c = \<lparr> geo_x = Fin (fl (fl (10 - fl (wu * r)) / 2)),
                            geo_y = Fin (fl (fl (45 / 8 - fl (hu * r)) / 2)),
                            geo_w = Fin (fl (wu * r)), geo_h = Fin (fl (hu * r)) \<rparr>"
      by (simp only: ppt_fit_def Let_def rr h(1,2) pw(1) ph(1) slideWidth_def slideHeight_def
            F(2,3) x y)
    from rr f F(4,6) show ?thesis
      unfolding Let_def wu_def [symmetric] hu_def [symmetric] r_def [symmetric] by (intro conjI)
  qed
  have i: "html2canvas env s (capture_options s) = Fulfilled c \<and> toDataURL env c = Inr d \<longrightarrow>
        ppt_section_image env s = Fulfilled \<lparr> slide_data = d, slide_geo = ppt_fit c \<rparr>"
    by (simp add: ppt_section_image_def)
  have r: "(\<forall>fileName pptx.
            PptxWritten fileName pptx \<in> set (trace (run_export Ppt env (page_loaded imgs))) \<longrightarrow>
              list_all2
                (\<lambda>s' slide. \<exists>c' d'. html2canvas env s' (capture_options s') = Fulfilled c'
                                 \<and> toDataURL env c' = Inr d'
                                 \<and> slide = [\<lparr> slide_data = d', slide_geo = ppt_fit c' \<rparr>])
                (sections env) (slides pptx))"
  proof (intro allI impI)
    fix fileName pptx
    assume "PptxWritten fileName pptx \<in> set (trace (run_export Ppt env (page_loaded imgs)))"
    from written_deck_images [OF this] show "list_all2
              (\<lambda>s' slide. \<exists>c' d'. html2canvas env s' (capture_options s') = Fulfilled c'
                               \<and> toDataURL env c' = Inr d'
                               \<and> slide = [\<lparr> slide_data = d', slide_geo = ppt_fit c' \<rparr>])
              (sections env) (slides pptx)"
      by (rule list_all2_mono)
         (auto simp: ppt_section_image_def split: awaited.splits sum.splits)
  qed
  from a b i have "ppt_fit c =
     (let widthUnits = jdiv (canvas_width c) (Fin 96);
          heightUnits = jdiv (canvas_height c) (Fin 96);
          ratio = jmin (jdiv (Fin 10) widthUnits) (jdiv (Fin (45 / 8)) heightUnits);
          w = jmul widthUnits ratio;
          h = jmul heightUnits ratio
      in \<lparr> geo_x = jdiv (jsub (Fin 10) w) (Fin 2), geo_y = jdiv (jsub (Fin (45 / 8)) h) (Fin 2),
           geo_w = w, geo_h = h \<rparr>)
   \<and> (canvas_width c = Fin W \<and> canvas_height c = Fin H
        \<and> 1 \<le> W \<and> W \<le> 2 ^ 32 \<and> 1 \<le> H \<and> H \<le> 2 ^ 32 \<longrightarrow>
        (let widthUnits = fl (W / 96);
             heightUnits = fl (H / 96);
             ratio = min (fl (10 / widthUnits)) (fl ((45 / 8) / heightUnits));
             w = fl (widthUnits * ratio);
             h = fl (heightUnits * ratio)
         in ppt_ratio c = Fin ratio
            \<and> ppt_fit c = \<lparr> geo_x = Fin (fl (fl (10 - w) / 2)),
                            geo_y = Fin (fl (fl (45 / 8 - h) / 2)),
                            geo_w = Fin w, geo_h = Fin h \<rparr>
            \<and> 0 < w \<and> 0 < h))
   \<and> (html2canvas env s (capture_options s) = Fulfilled c \<and> toDataURL env c = Inr d \<longrightarrow>
        ppt_section_image env s = Fulfilled \<lparr> slide_data = d, slide_geo = ppt_fit c \<rparr>)"
    by blast
  note abi = this
  have lp: "\<exists>new. slides deck' = slides deck @ new
               \<and> list_all2
                    (\<lambda>s' slide. \<exists>c' d'. html2canvas env s' (capture_options s') = Fulfilled c'
                               \<and> toDataURL env c' = Inr d'
                               \<and> slide = [\<lparr> slide_data = d', slide_geo = ppt_fit c' \<rparr>])
                    secs new"
    if "ppt_loop env secs deck w0 = (Fulfilled deck', w')" for deck' w'
    using that
  proof (induction secs arbitrary: deck w0)
    case Nil
    then show ?case by simp
  next
    case (Cons s0 rest)
    let ?w1 = "emit (Html2canvas s0 (capture_options s0)) w0"
    from Cons.prems obtain c0 d0 slide deck1 deck2 where
      l: "html2canvas env s0 (capture_options s0) = Fulfilled c0" "toDataURL env c0 = Inr d0"
         "pptx_addSlide env deck = Inr (slide, deck1)"
         "slide_addImage env slide \<lparr> slide_data = d0, slide_geo = ppt_fit c0 \<rparr> deck1 = Inr deck2"
         "ppt_loop env rest deck2 ?w1 = (Fulfilled deck', w')"
      by (auto simp: Let_def ppt_section_image_def split: awaited.splits sum.splits prod.splits)
    have p2: "slides deck2 = slides deck @ [[\<lparr> slide_data = d0, slide_geo = ppt_fit c0 \<rparr>]]"
      using l(3,4)
      by (auto simp: pptx_addSlide_def slide_addImage_def nth_append split: option.splits)
    from Cons.IH [OF l(5)] obtain new where
      n: "slides deck' = slides deck2 @ new"
         "list_all2
            (\<lambda>s' slide. \<exists>c' d'. html2canvas env s' (capture_options s') = Fulfilled c'
                       \<and> toDataURL env c' = Inr d'
                       \<and> slide = [\<lparr> slide_data = d', slide_geo = ppt_fit c' \<rparr>])
            rest new"
      by auto
    show ?case
      using n l(1,2) p2
      by (intro exI [of _ "[\<lparr> slide_data = d0, slide_geo = ppt_fit c0 \<rparr>] # new"]) simp
  qed
  then have e: "(\<forall>deck' w'.
            ppt_loop env secs deck w0 = (Fulfilled deck', w') \<longrightarrow>
              (\<exists>new. slides deck' = slides deck @ new
                 \<and> list_all2
                      (\<lambda>s' slide. \<exists>c' d'. html2canvas env s' (capture_options s') = Fulfilled c'
                                 \<and> toDataURL env c' = Inr d'
                                 \<and> slide = [\<lparr> slide_data = d', slide_geo = ppt_fit c' \<rparr>])
                      secs new))"
    by blast
  from abi r e show ?thesis by (intro conjI) (elim conjE, assumption)+
qed

theorem ppt_placement_centred_witness:
  "canvas_width \<lparr> canvas_width = Fin 1600, canvas_height = Fin 450, source = 2 \<rparr> = Fin 1600
   \<and> canvas_height \<lparr> canvas_width = Fin 1600, canvas_height = Fin 450, source = 2 \<rparr> = Fin 450
   \<and> (1 :: rat) \<le> 1600 \<and> (1600 :: rat) \<le> 2 ^ 32 \<and> (1 :: rat) \<le> 450 \<and> (450 :: rat) \<le> 2 ^ 32
   \<and> html2canvas demo_browser (demo_sections ! 2) (capture_options (demo_sections ! 2))
       = Fulfilled \<lparr> canvas_width = Fin 1600, canvas_height = Fin 450, source = 2 \<rparr>
   \<and> toDataURL demo_browser \<lparr> canvas_width = Fin 1600, canvas_height = Fin 450, source = 2 \<rparr>
       = Inr ''data:image/png;##''
   \<and> ppt_fit \<lparr> canvas_width = Fin 1600, canvas_height = Fin 450, source = 2 \<rparr>
       = \<lparr> geo_x = Fin 0, geo_y = Fin (45 / 32), geo_w = Fin 10, geo_h = Fin (45 / 16) \<rparr>
   \<and> ppt_section_image demo_browser (demo_sections ! 2)
       = Fulfilled \<lparr> slide_data = ''data:image/png;##'',
                     slide_geo = \<lparr> geo_x = Fin 0, geo_y = Fin (45 / 32), geo_w = Fin 10,
                                   geo_h = Fin (45 / 16) \<rparr> \<rparr>
   \<and> (\<exists>pptx. PptxWritten ''presentation.pptx'' pptx
               \<in> set (trace (run_export Ppt demo_browser (page_loaded demo_images)))
           \<and> slides pptx =
            [[\<lparr> slide_data = ''data:image/png;'',
                slide_geo = \<lparr> geo_x = Fin 0, geo_y = Fin 0, geo_w = Fin 10,
                              geo_h = Fin (45 / 8) \<rparr> \<rparr>],
             [\<lparr> slide_data = ''data:image/png;#'',
                slide_geo = \<lparr> geo_x = Fin (7036874417766401 / 2251799813685248),
                              geo_y = Fin 0,
                              geo_w = Fin (4222124650659839 / 1125899906842624),
                              geo_h = Fin (45 / 8) \<rparr> \<rparr>],
             [\<lparr> slide_data = ''data:image/png;##'',
                slide_geo = \<lparr> geo_x = Fin 0, geo_y = Fin (45 / 32), geo_w = Fin 10,
                              geo_h = Fin (45 / 16) \<rparr> \<rparr>]])
   \<and> files_written (run_export Ppt demo_browser (page_loaded demo_images))
        = [PptxWritten ''presentation.pptx''
             \<lparr> pptx_layout = ''LAYOUT_16x9'',
               slides =
                 [[\<lparr> slide_data = ''data:image/png;'',
                     slide_geo = \<lparr> geo_x = Fin 0, geo_y = Fin 0, geo_w = Fin 10,
                                   geo_h = Fin (45 / 8) \<rparr> \<rparr>],
                  [\<lparr> slide_data = ''data:image/png;#'',
                     slide_geo = \<lparr> geo_x = Fin (7036874417766401 / 2251799813685248),
                                   geo_y = Fin 0,
                                   geo_w = Fin (4222124650659839 / 1125899906842624),
                                   geo_h = Fin (45 / 8) \<rparr> \<rparr>],
                  [\<lparr> slide_data = ''data:image/png;##'',
                     slide_geo = \<lparr> geo_x = Fin 0, geo_y = Fin (45 / 32), geo_w = Fin 10,
                                   geo_h = Fin (45 / 16) \<rparr> \<rparr>]] \<rparr>]"
proof -
  let ?c = "\<lparr> canvas_width = Fin 1600, canvas_height = Fin 450, source = 2 \<rparr>"
  have h: "canvas_width ?c = Fin 1600 \<and> canvas_height ?c = Fin 450
    \<and> (1 :: rat) \<le> 1600 \<and> (1600 :: rat) \<le> 2 ^ 32 \<and> (1 :: rat) \<le> 450 \<and> (450 :: rat) \<le> 2 ^ 32"
    by simp
  have e: "html2canvas demo_browser (demo_sections ! 2) (capture_options (demo_sections ! 2))
       = Fulfilled ?c"
    by (simp add: demo_browser_def demo_sections_def html2canvas_spec_def capture_options_def
          scale_eq sectionWidth_eq sectionHeight_eq num_def fl_eval)
  have u: "toDataURL demo_browser ?c = Inr ''data:image/png;##''"
    by (simp add: demo_browser_def numeral_2_eq_2)
  note T = ppt_placement_centred [of ?c 1600 450 demo_browser "demo_sections ! 2"
             "''data:image/png;##''" demo_images]
  note T2 = T [THEN conjunct2, THEN conjunct1, rule_format, OF h, unfolded Let_def,
              THEN conjunct2, THEN conjunct1]
  have f: "ppt_fit ?c
       = \<lparr> geo_x = Fin 0, geo_y = Fin (45 / 32), geo_w = Fin 10, geo_h = Fin (45 / 16) \<rparr>"
    unfolding T2 by (simp add: fl_eval)
  from T e u have "ppt_section_image demo_browser (demo_sections ! 2)
       = Fulfilled \<lparr> slide_data = ''data:image/png;##'', slide_geo = ppt_fit ?c \<rparr>"
    by blast
  with f have g: "ppt_section_image demo_browser (demo_sections ! 2)
       = Fulfilled \<lparr> slide_data = ''data:image/png;##'',
                     slide_geo = \<lparr> geo_x = Fin 0, geo_y = Fin (45 / 32), geo_w = Fin 10,
                                   geo_h = Fin (45 / 16) \<rparr> \<rparr>"
    by simp
  from demo_ppt_trace obtain pptx where
    tr: "trace (run_export Ppt demo_browser (page_loaded demo_images)) =
       [FontsReady, ImagesReady] @ capture_events demo_sections
         @ [PptxWritten ''presentation.pptx'' pptx]"
    by blast
  have ms: "PptxWritten ''presentation.pptx'' pptx
              \<in> set (trace (run_export Ppt demo_browser (page_loaded demo_images)))"
    by (simp add: tr)
  note D = T [THEN conjunct2, THEN conjunct2, THEN conjunct2, THEN conjunct1, rule_format, OF ms]
  from D have "list_all2
       (\<lambda>s slide. slide = [\<lparr> slide_data = ''data:image/png;'' @ replicate (node s) CHR ''#'',
                               slide_geo = ppt_fit
                              \<lparr> canvas_width = jmul (sectionWidth s) (scale s),
                   canvas_height = jmul (sectionHeight s) (scale s), source = node s \<rparr> \<rparr>])
       (sections demo_browser) (slides pptx)"
    by (simp only: demo_slide_of_call)
  then have sl: "slides pptx =
            [[\<lparr> slide_data = ''data:image/png;'',
                slide_geo = \<lparr> geo_x = Fin 0, geo_y = Fin 0, geo_w = Fin 10,
                              geo_h = Fin (45 / 8) \<rparr> \<rparr>],
             [\<lparr> slide_data = ''data:image/png;#'',
                slide_geo = \<lparr> geo_x = Fin (7036874417766401 / 2251799813685248),
                              geo_y = Fin 0,
                              geo_w = Fin (4222124650659839 / 1125899906842624),
                              geo_h = Fin (45 / 8) \<rparr> \<rparr>],
             [\<lparr> slide_data = ''data:image/png;##'',
                slide_geo = \<lparr> geo_x = Fin 0, geo_y = Fin (45 / 32), geo_w = Fin 10,
                              geo_h = Fin (45 / 16) \<rparr> \<rparr>]]"
    by (simp add: list_all2_Cons1 demo_sections_def demo_browser_def [THEN arg_cong, of sections]
          demo_ppt_fits demo_marks del: One_nat_def)
  from ms sl have ex: "\<exists>pptx. PptxWritten ''presentation.pptx'' pptx
               \<in> set (trace (run_export Ppt demo_browser (page_loaded demo_images)))
           \<and> slides pptx =
            [[\<lparr> slide_data = ''data:image/png;'',
                slide_geo = \<lparr> geo_x = Fin 0, geo_y = Fin 0, geo_w = Fin 10,
                              geo_h = Fin (45 / 8) \<rparr> \<rparr>],
             [\<lparr> slide_data = ''data:image/png;#'',
                slide_geo = \<lparr> geo_x = Fin (7036874417766401 / 2251799813685248),
                              geo_y = Fin 0,
                              geo_w = Fin (4222124650659839 / 1125899906842624),
                              geo_h = Fin (45 / 8) \<rparr> \<rparr>],
             [\<lparr> slide_data = ''data:image/png;##'',
                slide_geo = \<lparr> geo_x = Fin 0, geo_y = Fin (45 / 32), geo_w = Fin 10,
                              geo_h = Fin (45 / 16) \<rparr> \<rparr>]]"
    by blast
  have hh: "canvas_width ?c = Fin 1600" "canvas_height ?c = Fin 450"
    "(1 :: rat) \<le> 1600" "(1600 :: rat) \<le> 2 ^ 32" "(1 :: rat) \<le> 450" "(450 :: rat) \<le> 2 ^ 32"
    by simp_all
  have fw: "files_written (run_export Ppt demo_browser (page_loaded demo_images))
       = [PptxWritten ''presentation.pptx''
            \<lparr> pptx_layout = ''LAYOUT_16x9'',
              slides =
                [[\<lparr> slide_data = ''data:image/png;'',
                    slide_geo = \<lparr> geo_x = Fin 0, geo_y = Fin 0, geo_w = Fin 10,
                                  geo_h = Fin (45 / 8) \<rparr> \<rparr>],
                 [\<lparr> slide_data = ''data:image/png;#'',
                    slide_geo = \<lparr> geo_x = Fin (7036874417766401 / 2251799813685248),
                                  geo_y = Fin 0,
                                  geo_w = Fin (4222124650659839 / 1125899906842624),
                                  geo_h = Fin (45 / 8) \<rparr> \<rparr>],
                 [\<lparr> slide_data = ''data:image/png;##'',
                    slide_geo = \<lparr> geo_x = Fin 0, geo_y = Fin (45 / 32), geo_w = Fin 10,
                                  geo_h = Fin (45 / 16) \<rparr> \<rparr>]] \<rparr>]"
    by (simp add: run_defs demo_browser_def demo_sections_def demo_images_def settles_def
          html2canvas_spec_def capture_options_def scale_eq sectionWidth_eq sectionHeight_eq
          num_def ppt_fit_def ppt_ratio_def pxToIn_def slideWidth_def slideHeight_def jmin_Fin
          fl_eval files_written_def prepared_def capture_events_def numeral_2_eq_2)
  from hh e u f g ex fw show ?thesis by (intro conjI)
qed

text \<open>
  Claim C5. While the controller is running (\<open>exportingType\<close> is not null), a call of
  either export function returns at once and changes nothing: not the controller state, not
  the invocations in flight, no effect. In every state the page can reach there is at most
  one invocation in flight, and there is one exactly when the controller is running.
\<close>

theorem start_while_running_is_noop:
  "(isExporting w \<longrightarrow> exportToPdf env w = w \<and> exportToPpt env w = w)
   \<and> (reachable env w \<longrightarrow>
        length (in_flight w) \<le> 1 \<and> (isExporting w \<longleftrightarrow> in_flight w \<noteq> []))"
proof -
  have a: "isExporting w \<longrightarrow> exportToPdf env w = w \<and> exportToPpt env w = w"
    by (simp add: exportToPdf_def exportToPpt_def)
  have b: "length (in_flight w) \<le> 1 \<and> (isExporting w \<longleftrightarrow> in_flight w \<noteq> [])"
    if "reachable env w"
  proof -
    from that have "single_flight w" by (rule reachable_single_flight)
    then show ?thesis
      by (cases "exportingType w") (auto simp: single_flight_def isExporting_def)
  qed
  from a b show ?thesis by blast
qed

theorem start_while_running_is_noop_witness:
  "reachable demo_browser (exportToPdf demo_browser (page_loaded demo_images))
   \<and> isExporting (exportToPdf demo_browser (page_loaded demo_images))
   \<and> in_flight (exportToPdf demo_browser (page_loaded demo_images)) = [Awaiting Pdf]
   \<and> exportToPpt demo_browser (exportToPdf demo_browser (page_loaded demo_images))
       = exportToPdf demo_browser (page_loaded demo_images)
   \<and> exportToPdf demo_browser (exportToPdf demo_browser (page_loaded demo_images))
       = exportToPdf demo_browser (page_loaded demo_images)
   \<and> length (in_flight (exportToPdf demo_browser (page_loaded demo_images))) \<le> 1"
proof -
  let ?w = "exportToPdf demo_browser (page_loaded demo_images)"
  have "reachable demo_browser (start Pdf demo_browser (page_loaded demo_images))"
    by (intro reachable.started reachable.loaded)
  then have r: "reachable demo_browser ?w" by (simp add: start_def)
  have w: "?w = (page_loaded demo_images)\<lparr> exportingType := Some Pdf, in_flight := [Awaiting Pdf] \<rparr>"
    using start_idle [of "page_loaded demo_images" Pdf demo_browser] demo_sections_nonempty
    by (simp add: start_def)
  have e: "isExporting ?w" by (simp add: w isExporting_def)
  have f: "in_flight ?w = [Awaiting Pdf]" by (simp add: w)
  note T = start_while_running_is_noop [of ?w demo_browser]
  from T e have n: "exportToPdf demo_browser ?w = ?w \<and> exportToPpt demo_browser ?w = ?w" by blast
  from T r have l: "length (in_flight ?w) \<le> 1" by blast
  from r e f n l show ?thesis by blast
qed

text \<open>
  Claim C6. An export started while the controller is idle leaves it idle on every exit of
  the \<^verbatim>\<open>try\<close> block: the return on an empty page, the normal end, and any error thrown after
  the first \<^verbatim>\<open>await\<close> (while waiting for the fonts, in a capture, in the assembly, in the
  save). No invocation is then left in flight. The controller stays running only when the
  block never ends, suspended for ever at an \<^verbatim>\<open>await\<close>.
\<close>

theorem every_exit_resets_to_idle:
  assumes "exportingType w = None" and "in_flight w = []"
  shows "(sections env = [] \<longrightarrow>
            exportingType (run_export k env w) = None \<and> in_flight (run_export k env w) = [])
       \<and> (sections env \<noteq> [] \<longrightarrow>
            (case fst (continue_of k env (start k env w)) of
               Fulfilled u \<Rightarrow>
                 exportingType (run_export k env w) = None \<and> in_flight (run_export k env w) = []
             | Rejected e \<Rightarrow>
                 exportingType (run_export k env w) = None \<and> in_flight (run_export k env w) = []
             | Pending \<Rightarrow>
                 exportingType (run_export k env w) = Some k
                 \<and> in_flight (run_export k env w) = [Stalled k]))"
proof (cases "sections env = []")
  case True
  with assms show ?thesis by (cases k) (simp_all add: run_export_Pdf run_export_Ppt)
next
  case False
  let ?w0 = "w\<lparr> exportingType := Some k, in_flight := [Awaiting k] \<rparr>"
  have s: "start k env w = ?w0" using assms False by (simp add: start_idle)
  show ?thesis
  proof (cases k)
    case Pdf
    obtain r w' where c: "pdf_continue env (w\<lparr> exportingType := Some Pdf, in_flight := [Awaiting Pdf] \<rparr>) = (r, w')"
      by (cases "pdf_continue env (w\<lparr> exportingType := Some Pdf, in_flight := [Awaiting Pdf] \<rparr>)")
    from pdf_continue_frame [OF c] have f: "exportingType w' = Some Pdf" "in_flight w' = [Awaiting Pdf]"
      by simp_all
    show ?thesis
      using False assms s c f Pdf
      by (cases r) (simp_all add: run_export_Pdf continue_of_def)
  next
    case Ppt
    obtain r w' where c: "ppt_continue env (w\<lparr> exportingType := Some Ppt, in_flight := [Awaiting Ppt] \<rparr>) = (r, w')"
      by (cases "ppt_continue env (w\<lparr> exportingType := Some Ppt, in_flight := [Awaiting Ppt] \<rparr>)")
    from ppt_continue_frame [OF c] have f: "exportingType w' = Some Ppt" "in_flight w' = [Awaiting Ppt]"
      by simp_all
    show ?thesis
      using False assms s c f Ppt
      by (cases r) (simp_all add: run_export_Ppt continue_of_def)
  qed
qed

theorem every_exit_resets_to_idle_witness:
  "exportingType (page_loaded []) = None \<and> in_flight (page_loaded []) = []
   \<and> sections tainted_browser \<noteq> []
   \<and> fst (continue_of Pdf tainted_browser (start Pdf tainted_browser (page_loaded [])))
       = Rejected (JsError ''SecurityError'')
   \<and> exportingType (run_export Pdf tainted_browser (page_loaded [])) = None
   \<and> in_flight (run_export Pdf tainted_browser (page_loaded [])) = []
   \<and> sections (demo_browser\<lparr> sections := [] \<rparr>) = []
   \<and> exportingType (run_export Ppt (demo_browser\<lparr> sections := [] \<rparr>) (page_loaded [])) = None"
proof -
  have h: "exportingType (page_loaded []) = None" "in_flight (page_loaded []) = []" by simp_all
  have n: "sections tainted_browser \<noteq> []"
    by (simp add: tainted_browser_def five_sections_def)
  have e: "sections (demo_browser\<lparr> sections := [] \<rparr>) = []" by simp
  note T1 = every_exit_resets_to_idle [OF h, of tainted_browser Pdf]
  note T2 = every_exit_resets_to_idle [OF h, of "demo_browser\<lparr> sections := [] \<rparr>" Ppt]
  from T1 n tainted_pdf_continue
  have a: "exportingType (run_export Pdf tainted_browser (page_loaded [])) = None
      \<and> in_flight (run_export Pdf tainted_browser (page_loaded [])) = []"
    by simp
  from T2 e
  have b: "exportingType (run_export Ppt (demo_browser\<lparr> sections := [] \<rparr>) (page_loaded [])) = None"
    by blast
  from h n tainted_pdf_continue a e b show ?thesis by blast
qed

text \<open>
  Claim C7. With no section on the page, an export of either kind started while the
  controller is idle does one thing: it shows the notice "No content found to export.".
  Neither readiness wait is entered, \<^verbatim>\<open>html2canvas\<close> is never called, no file is written, no
  invocation stays in flight, and the controller is idle again when the call returns.
\<close>

theorem no_content_notice:
  assumes "sections env = []" and "\<not> isExporting w"
  shows "start k env w = w\<lparr> trace := trace w @ [Alert ''No content found to export.''] \<rparr>
       \<and> run_export k env w = w\<lparr> trace := trace w @ [Alert ''No content found to export.''] \<rparr>
       \<and> exportingType (run_export k env w) = None
       \<and> in_flight (run_export k env w) = in_flight w
       \<and> images (run_export k env w) = images w
       \<and> files_written (run_export k env w) = files_written w"
proof -
  from assms(2) have idle: "exportingType w = None" by (simp add: isExporting_def)
  have s: "start k env w = w\<lparr> trace := trace w @ [Alert ''No content found to export.''] \<rparr>"
    using assms(1) by (simp add: start_idle [OF idle])
  have r: "run_export k env w = w\<lparr> trace := trace w @ [Alert ''No content found to export.''] \<rparr>"
    by (simp add: run_export_def s resume_def)
  show ?thesis
    using idle by (simp add: s r files_written_def)
qed

theorem no_content_notice_witness:
  "sections (demo_browser\<lparr> sections := [] \<rparr>) = []
   \<and> \<not> isExporting (page_loaded demo_images)
   \<and> run_export Pdf (demo_browser\<lparr> sections := [] \<rparr>) (page_loaded demo_images)
       = \<lparr> exportingType = None, images = demo_images,
           trace = [Alert ''No content found to export.''], in_flight = [] \<rparr>
   \<and> run_export Ppt (demo_browser\<lparr> sections := [] \<rparr>) (page_loaded demo_images)
       = \<lparr> exportingType = None, images = demo_images,
           trace = [Alert ''No content found to export.''], in_flight = [] \<rparr>"
proof -
  have h: "sections (demo_browser\<lparr> sections := [] \<rparr>) = []" "\<not> isExporting (page_loaded demo_images)"
    by (simp_all add: isExporting_def)
  from no_content_notice [OF h, of Pdf] no_content_notice [OF h, of Ppt] h
  show ?thesis by (simp add: page_loaded_def)
qed

text \<open>
  Claim C8. When an error is thrown in an export (the \<^verbatim>\<open>catch\<close> block has logged it), no file
  has been written to the download target; when the capture of some section does not yield
  an encoded bitmap, no file is written either. A file that is written is the last effect
  of the export, it is the only one, and it has as many pages or slides as there are
  sections: never fewer.
\<close>

theorem no_partial_artifact:
  "((\<exists>msg e. ConsoleError msg e \<in> set (trace (run_export k env (page_loaded imgs)))) \<longrightarrow>
       files_written (run_export k env (page_loaded imgs)) = [])
   \<and> ((\<exists>s\<in>set (sections env). \<forall>c d. \<not> (html2canvas env s (capture_options s) = Fulfilled c
                                             \<and> toDataURL env c = Inr d)) \<longrightarrow>
       files_written (run_export k env (page_loaded imgs)) = [])
   \<and> (\<forall>fileName pdf.
         PdfSaved fileName pdf \<in> set (trace (run_export k env (page_loaded imgs))) \<longrightarrow>
           length (pdf_pages pdf) = length (sections env)
           \<and> last (trace (run_export k env (page_loaded imgs))) = PdfSaved fileName pdf
           \<and> files_written (run_export k env (page_loaded imgs)) = [PdfSaved fileName pdf])
   \<and> (\<forall>fileName pptx.
         PptxWritten fileName pptx \<in> set (trace (run_export k env (page_loaded imgs))) \<longrightarrow>
           length (slides pptx) = length (sections env)
           \<and> last (trace (run_export k env (page_loaded imgs))) = PptxWritten fileName pptx
           \<and> files_written (run_export k env (page_loaded imgs)) = [PptxWritten fileName pptx])"
proof -
  let ?w = "run_export k env (page_loaded imgs)"
  have mem: "ev \<in> set (files_written ?w)" if "ev \<in> set (trace ?w)" "is_file ev" for ev
    using that by (simp add: files_written_def)
  from run_outcomes [of k env imgs]
  consider
    (none) "files_written ?w = []" "\<forall>msg e. ConsoleError msg e \<notin> set (trace ?w)"
  | (pdf) pdf where "\<forall>msg e. ConsoleError msg e \<notin> set (trace ?w)"
      "\<forall>s\<in>set (sections env). \<exists>c d. html2canvas env s (capture_options s) = Fulfilled c
                                               \<and> toDataURL env c = Inr d"
      "files_written ?w = [PdfSaved ''presentation.pdf'' pdf]"
      "last (trace ?w) = PdfSaved ''presentation.pdf'' pdf"
      "length (pdf_pages pdf) = length (sections env)"
  | (pptx) pptx where "\<forall>msg e. ConsoleError msg e \<notin> set (trace ?w)"
      "\<forall>s\<in>set (sections env). \<exists>c d. html2canvas env s (capture_options s) = Fulfilled c
                                               \<and> toDataURL env c = Inr d"
      "files_written ?w = [PptxWritten ''presentation.pptx'' pptx]"
      "last (trace ?w) = PptxWritten ''presentation.pptx'' pptx"
      "length (slides pptx) = length (sections env)"
  | (error) "files_written ?w = []"
    by blast
  then show ?thesis
  proof cases
    case none
    with mem show ?thesis by fastforce
  next
    case (pdf pdf)
    have "ev = PdfSaved ''presentation.pdf'' pdf" if "ev \<in> set (trace ?w)" "is_file ev" for ev
      using mem [OF that] pdf(3) by simp
    with pdf show ?thesis by fastforce
  next
    case (pptx pptx)
    have "ev = PptxWritten ''presentation.pptx'' pptx" if "ev \<in> set (trace ?w)" "is_file ev" for ev
      using mem [OF that] pptx(3) by simp
    with pptx show ?thesis by fastforce
  next
    case error
    with mem show ?thesis by fastforce
  qed
qed

theorem no_partial_artifact_witness:
  "ConsoleError ''PDF export failed'' (JsError ''SecurityError'')
      \<in> set (trace (run_export Pdf tainted_browser (page_loaded [])))
   \<and> five_sections ! 3 \<in> set (sections tainted_browser)
   \<and> html2canvas tainted_browser (five_sections ! 3) (capture_options (five_sections ! 3))
       = Rejected (JsError ''SecurityError'')
   \<and> files_written (run_export Pdf tainted_browser (page_loaded [])) = []
   \<and> (\<exists>pdf. PdfSaved ''presentation.pdf'' pdf
               \<in> set (trace (run_export Pdf demo_browser (page_loaded demo_images)))
            \<and> length (pdf_pages pdf) = 3
            \<and> files_written (run_export Pdf demo_browser (page_loaded demo_images))
                = [PdfSaved ''presentation.pdf'' pdf])
   \<and> (\<exists>pptx. PptxWritten ''presentation.pptx'' pptx
               \<in> set (trace (run_export Ppt demo_browser (page_loaded demo_images)))
            \<and> length (slides pptx) = 3
            \<and> files_written (run_export Ppt demo_browser (page_loaded demo_images))
                = [PptxWritten ''presentation.pptx'' pptx])"
proof -
  have c: "ConsoleError ''PDF export failed'' (JsError ''SecurityError'')
             \<in> set (trace (run_export Pdf tainted_browser (page_loaded [])))"
    by (simp add: tainted_pdf_run)
  have s: "five_sections ! 3 \<in> set (sections tainted_browser)"
    by (simp add: tainted_browser_def five_sections_def)
  have r: "html2canvas tainted_browser (five_sections ! 3) (capture_options (five_sections ! 3))
             = Rejected (JsError ''SecurityError'')"
    by (simp add: tainted_browser_def five_sections_def)
  from no_partial_artifact [of Pdf tainted_browser "[]"] c
  have f: "files_written (run_export Pdf tainted_browser (page_loaded [])) = []"
    by blast
  from s r no_partial_artifact [of Pdf tainted_browser "[]"]
  have "files_written (run_export Pdf tainted_browser (page_loaded [])) = []"
    by (metis awaited.distinct(1))
  from demo_trace obtain pdf where
    "trace (run_export Pdf demo_browser (page_loaded demo_images)) =
       [FontsReady, ImagesReady] @ capture_events demo_sections @ [PdfSaved ''presentation.pdf'' pdf]"
    by blast
  then have m1: "PdfSaved ''presentation.pdf'' pdf
               \<in> set (trace (run_export Pdf demo_browser (page_loaded demo_images)))"
    by simp
  with no_partial_artifact [of Pdf demo_browser demo_images]
  have p1: "length (pdf_pages pdf) = length (sections demo_browser)
            \<and> files_written (run_export Pdf demo_browser (page_loaded demo_images))
                = [PdfSaved ''presentation.pdf'' pdf]"
    by blast
  from demo_ppt_trace obtain pptx where
    "trace (run_export Ppt demo_browser (page_loaded demo_images)) =
       [FontsReady, ImagesReady] @ capture_events demo_sections
         @ [PptxWritten ''presentation.pptx'' pptx]"
    by blast
  then have m2: "PptxWritten ''presentation.pptx'' pptx
               \<in> set (trace (run_export Ppt demo_browser (page_loaded demo_images)))"
    by simp
  with no_partial_artifact [of Ppt demo_browser demo_images]
  have p2: "length (slides pptx) = length (sections demo_browser)
            \<and> files_written (run_export Ppt demo_browser (page_loaded demo_images))
                = [PptxWritten ''presentation.pptx'' pptx]"
    by blast
  have n: "length (sections demo_browser) = 3" by (simp add: demo_browser_def demo_sections_def)
  from c s r f m1 p1 m2 p2 n show ?thesis by auto
qed

text \<open>
  Claim C9, at an input where the code does not do what the claim says. The page holds one
  image whose loading had failed before the export started. The fonts are ready and nothing
  else fails, but the export of either kind never gets past the gate: it resumes after the
  fonts, never after the images, never calls \<^verbatim>\<open>html2canvas\<close>, and the controller stays
  running with the invocation in flight. The same image failing while the gate waits lets
  the export through.
\<close>

theorem failed_image_blocks_the_gate:
  "run_export Pdf demo_browser (page_loaded [broken_image]) =
     \<lparr> exportingType = Some Pdf, images = [broken_image], trace = [FontsReady],
       in_flight = [Stalled Pdf] \<rparr>
   \<and> run_export Ppt demo_browser (page_loaded [broken_image]) =
     \<lparr> exportingType = Some Ppt, images = [broken_image], trace = [FontsReady],
       in_flight = [Stalled Ppt] \<rparr>
   \<and> exportingType (run_export Pdf demo_browser
        (page_loaded [broken_image\<lparr> complete := False, fires := Some ErrorEvent \<rparr>])) = None
   \<and> files_written (run_export Pdf demo_browser
        (page_loaded [broken_image\<lparr> complete := False, fires := Some ErrorEvent \<rparr>])) \<noteq> []"
proof -
  have a: "run_export Pdf demo_browser (page_loaded [broken_image]) =
     \<lparr> exportingType = Some Pdf, images = [broken_image], trace = [FontsReady],
       in_flight = [Stalled Pdf] \<rparr>"
    by (simp add: run_defs demo_browser_def demo_sections_def broken_image_def prepared_def
          settles_def prepareImage_def)
  have b: "run_export Ppt demo_browser (page_loaded [broken_image]) =
     \<lparr> exportingType = Some Ppt, images = [broken_image], trace = [FontsReady],
       in_flight = [Stalled Ppt] \<rparr>"
    by (simp add: run_defs demo_browser_def demo_sections_def broken_image_def prepared_def
          settles_def prepareImage_def)
  have "list_all settles [broken_image\<lparr> complete := False, fires := Some ErrorEvent \<rparr>]"
    by (simp add: settles_def)
  from run_Pdf_success [OF demo_cooperative this demo_sections_nonempty]
  have c: "exportingType (run_export Pdf demo_browser
        (page_loaded [broken_image\<lparr> complete := False, fires := Some ErrorEvent \<rparr>])) = None
   \<and> files_written (run_export Pdf demo_browser
        (page_loaded [broken_image\<lparr> complete := False, fires := Some ErrorEvent \<rparr>])) \<noteq> []"
    by (auto simp: files_written_def)
  from a b c show ?thesis by blast
qed

text \<open>
  Claim C10. For an image that is complete with natural width 0 when \<open>prepareImage\<close> runs, the
  check of line 36 does not resolve the promise: it resolves exactly when a \<^verbatim>\<open>load\<close> or
  \<^verbatim>\<open>error\<close> event reaches the listeners afterwards. With such an image on the page and no
  further event on it, an export whose fonts are ready stays suspended at the gate for ever:
  it has resumed after the fonts only, the controller stays running and the invocation stays
  in flight.
\<close>

theorem already_failed_image_suspends_export:
  assumes "complete img" and "naturalWidth img = 0"
  shows "snd (prepareImage img) = (case fires img of None \<Rightarrow> Pending | Some ev \<Rightarrow> Fulfilled ())
       \<and> (fires img = None \<and> img \<in> set imgs \<and> fonts_ready env = Fulfilled ()
            \<and> sections env \<noteq> [] \<longrightarrow>
            run_export k env (page_loaded imgs) =
              \<lparr> exportingType = Some k, images = prepared imgs, trace = [FontsReady],
                in_flight = [Stalled k] \<rparr>)"
proof -
  have a: "snd (prepareImage img) = (case fires img of None \<Rightarrow> Pending | Some ev \<Rightarrow> Fulfilled ())"
    using assms by (simp add: prepareImage_def Let_def split: option.splits)
  have b: "run_export k env (page_loaded imgs) =
              \<lparr> exportingType = Some k, images = prepared imgs, trace = [FontsReady],
                in_flight = [Stalled k] \<rparr>"
    if h: "fires img = None" "img \<in> set imgs" "fonts_ready env = Fulfilled ()" "sections env \<noteq> []"
  proof -
    have "\<not> settles img" using assms h(1) by (simp add: settles_def)
    with h(2) have n: "\<not> list_all settles imgs" by (auto simp: list_all_iff)
    show ?thesis
      using n h(3,4)
      by (cases k)
         (simp_all add: run_export_Pdf run_export_Ppt pdf_continue_def ppt_continue_def
            readiness_gate_eq page_loaded_def)
  qed
  from a b show ?thesis by blast
qed

theorem already_failed_image_suspends_export_witness:
  "complete broken_image \<and> naturalWidth broken_image = 0 \<and> fires broken_image = None
   \<and> broken_image \<in> set [hd demo_images, broken_image]
   \<and> fonts_ready demo_browser = Fulfilled () \<and> sections demo_browser \<noteq> []
   \<and> snd (prepareImage broken_image) = Pending
   \<and> run_export Ppt demo_browser (page_loaded [hd demo_images, broken_image]) =
        \<lparr> exportingType = Some Ppt, images = prepared [hd demo_images, broken_image],
          trace = [FontsReady], in_flight = [Stalled Ppt] \<rparr>"
proof -
  have h: "complete broken_image" "naturalWidth broken_image = 0"
    by (simp_all add: broken_image_def)
  have g: "fires broken_image = None" "broken_image \<in> set [hd demo_images, broken_image]"
    "fonts_ready demo_browser = Fulfilled ()"
    by (simp_all add: broken_image_def demo_browser_def)
  note T = already_failed_image_suspends_export [OF h, of "[hd demo_images, broken_image]"
             demo_browser Ppt]
  from T g(1) have p: "snd (prepareImage broken_image) = Pending" by simp
  from T g demo_sections_nonempty
  have r: "run_export Ppt demo_browser (page_loaded [hd demo_images, broken_image]) =
        \<lparr> exportingType = Some Ppt, images = prepared [hd demo_images, broken_image],
          trace = [FontsReady], in_flight = [Stalled Ppt] \<rparr>"
    by blast
  from h g demo_sections_nonempty p r show ?thesis by blast
qed

end
